(* ===== verification/Prelude.thy ===== *)
theory Prelude
  imports Complex_Main "HOL-Library.Word" "HOL-Library.AList"
begin

text \<open>
  Shared material of the development: the collections of rules that the components
  extend, and the lemmas on words and lists that they use.
\<close>

section \<open>Rule collections\<close>

named_theorems script_calls \<open>what the operations of the installer scripts add to the recorded calls\<close>

section \<open>Bits of words\<close>

unbundle bit_operations_syntax

type_synonym quint8 = "8 word"
type_synonym quint32 = "32 word"

lemma bit_drop_mask: "bit (drop_bit n (- 1 :: 'a::len word)) k \<longleftrightarrow> n + k < LENGTH('a)"
  by (auto simp: bit_mask_iff)

lemma ones8: "(0xFF :: quint8) = - 1"
  by simp

lemma ones32: "(0xffffffff :: quint32) = - 1"
  by simp

lemma drop_bit_eq_0_iff:
  fixes w :: "'a::len word"
  shows "drop_bit n w = 0 \<longleftrightarrow> (\<forall>k. n \<le> k \<and> k < LENGTH('a) \<longrightarrow> \<not> bit w k)"
proof
  assume a: "drop_bit n w = 0"
  show "\<forall>k. n \<le> k \<and> k < LENGTH('a) \<longrightarrow> \<not> bit w k"
  proof (intro allI impI, elim conjE)
    fix k assume "n \<le> k"
    then have "bit w k = bit (drop_bit n w) (k - n)" by (simp add: bit_drop_bit_eq)
    with a show "\<not> bit w k" by simp
  qed
next
  assume a: "\<forall>k. n \<le> k \<and> k < LENGTH('a) \<longrightarrow> \<not> bit w k"
  show "drop_bit n w = 0"
  proof (rule bit_eqI)
    fix k
    have "\<not> bit w (n + k)"
      using a by (cases "n + k < LENGTH('a)") (auto dest: bit_imp_le_length)
    then show "bit (drop_bit n w) k = bit (0 :: 'a word) k"
      by (simp add: bit_drop_bit_eq)
  qed
qed

text \<open>Counting bit positions from the most significant one down.\<close>

lemma all_upper_bits_iff:
  fixes n m :: nat
  assumes "n \<le> m"
  shows "(\<forall>k. m - n \<le> k \<and> k < m \<longrightarrow> P k) \<longleftrightarrow> (\<forall>i < n. P (m - Suc i))"
proof (intro iffI allI impI)
  fix i assume a: "\<forall>k. m - n \<le> k \<and> k < m \<longrightarrow> P k" and "i < n"
  then have "m - n \<le> m - Suc i \<and> m - Suc i < m" using assms by arith
  with a show "P (m - Suc i)" by blast
next
  fix k assume a: "\<forall>i < n. P (m - Suc i)" and k: "m - n \<le> k \<and> k < m"
  then have "m - Suc k < n" using assms by arith
  with a have "P (m - Suc (m - Suc k))" by blast
  with k show "P k" by (simp add: Suc_diff_Suc)
qed

lemma drop_xor_eq_0_iff:
  fixes x y :: "'a::len word"
  assumes "n \<le> LENGTH('a)"
  shows "drop_bit (LENGTH('a) - n) (x XOR y) = 0 \<longleftrightarrow>
    (\<forall>i < n. bit x (LENGTH('a) - Suc i) = bit y (LENGTH('a) - Suc i))"
proof -
  have "\<not> bit (x XOR y) k \<longleftrightarrow> bit x k = bit y k" for k
    by (simp add: bit_xor_iff)
  then show ?thesis
    unfolding drop_bit_eq_0_iff
    by (simp only: all_upper_bits_iff [OF assms, of "\<lambda>k. bit x k = bit y k"])
qed

lemma xor_eq_0_iff_bits:
  fixes x y :: "'a::len word"
  shows "x XOR y = 0 \<longleftrightarrow> (\<forall>i < LENGTH('a). bit x (LENGTH('a) - Suc i) = bit y (LENGTH('a) - Suc i))"
  using drop_xor_eq_0_iff [of "LENGTH('a)" x y] by simp

lemma xor_eq_0_iff_eq:
  fixes x y :: "'a::len word"
  shows "x XOR y = 0 \<longleftrightarrow> x = y"
  by (metis word_bw_assocs(3) word_bw_same(3) word_log_esimps(3) xor.left_neutral)

section \<open>Lists\<close>

lemma take_eq_conv_nth:
  "n \<le> length xs \<Longrightarrow> n \<le> length ys \<Longrightarrow>
   take n xs = take n ys \<longleftrightarrow> (\<forall>i < n. xs ! i = ys ! i)"
  by (auto simp: list_eq_iff_nth_eq)

end
