(* ===== verification/Ip_Address.thy ===== *)
theory Ip_Address
  imports Prelude
begin

text \<open>
  The value class \<open>IPAddress\<close> of \<^verbatim>\<open>client/mozilla/shared/ipaddress.cpp\<close>: an address with a
  prefix length, its masks, containment, and the subtraction of address ranges
  (\<open>excludeAddresses\<close>). A \<open>QHostAddress\<close> is null, an IPv4 address (a \<open>quint32\<close>) or an
  IPv6 address (the 16 bytes of a \<open>Q_IPV6ADDR\<close>); scope identifiers are not modelled.
\<close>

section \<open>Host addresses\<close>

datatype NetworkLayerProtocol = IPv4Protocol | IPv6Protocol | UnknownNetworkLayerProtocol

datatype QHostAddress = NullAddress | HostV4 quint32 | HostV6 "quint8 list"

fun protocol :: "QHostAddress \<Rightarrow> NetworkLayerProtocol" where
  "protocol NullAddress = UnknownNetworkLayerProtocol"
| "protocol (HostV4 _) = IPv4Protocol"
| "protocol (HostV6 _) = IPv6Protocol"

fun toIPv4Address :: "QHostAddress \<Rightarrow> quint32" where
  "toIPv4Address (HostV4 w) = w"
| "toIPv4Address _ = 0"

fun toIPv6Address :: "QHostAddress \<Rightarrow> quint8 list" where
  "toIPv6Address (HostV6 bs) = bs"
| "toIPv6Address _ = replicate 16 0"

record IPAddress =
  m_address :: QHostAddress
  m_prefixLength :: int

definition memset :: "quint8 list \<Rightarrow> nat \<Rightarrow> quint8 \<Rightarrow> nat \<Rightarrow> quint8 list" where
  "memset bs off v n = take off bs @ replicate n v @ drop (off + n) bs"

section \<open>The operations of the class\<close>

definition IPAddress_of_string ::
  "(string \<Rightarrow> QHostAddress \<times> int) \<Rightarrow> (string \<Rightarrow> QHostAddress) \<Rightarrow> string \<Rightarrow> IPAddress" where
  "IPAddress_of_string parseSubnet parseHost ip =
     (let (a, p) = (if CHR ''/'' \<in> set ip then parseSubnet ip else (parseHost ip, 999999));
          q = (if protocol a = IPv4Protocol then (if p \<ge> 32 then 32 else p)
               else if protocol a = IPv6Protocol then (if p \<ge> 128 then 128 else p)
               else p)
      in \<lparr>m_address = a, m_prefixLength = q\<rparr>)"

definition IPAddress_of_host :: "QHostAddress \<Rightarrow> IPAddress" where
  "IPAddress_of_host a =
     \<lparr>m_address = a, m_prefixLength = (if protocol a = IPv4Protocol then 32 else 128)\<rparr>"

definition netmask :: "IPAddress \<Rightarrow> QHostAddress" where
  "netmask ip =
     (let p = nat (m_prefixLength ip) in
      case protocol (m_address ip) of
        IPv6Protocol \<Rightarrow>
          (let raw = memset (replicate 16 0) 0 0xFF (p div 8) in
           HostV6 (if p mod 8 \<noteq> 0 then raw[p div 8 := 0xFF XOR drop_bit (p mod 8) 0xFF] else raw))
      | IPv4Protocol \<Rightarrow>
          HostV4 (if m_prefixLength ip < 32 then 0xffffffff XOR drop_bit p 0xffffffff
                  else 0xffffffff)
      | UnknownNetworkLayerProtocol \<Rightarrow> NullAddress)"

definition hostmask :: "IPAddress \<Rightarrow> QHostAddress" where
  "hostmask ip =
     (let p = nat (m_prefixLength ip) in
      case protocol (m_address ip) of
        IPv6Protocol \<Rightarrow>
          (let off = (p + 7) div 8; raw = memset (replicate 16 0) off 0xFF (16 - off) in
           HostV6 (if p mod 8 \<noteq> 0 then raw[p div 8 := drop_bit (p mod 8) 0xFF] else raw))
      | IPv4Protocol \<Rightarrow>
          HostV4 (if m_prefixLength ip < 32 then drop_bit p 0xffffffff else 0)
      | UnknownNetworkLayerProtocol \<Rightarrow> NullAddress)"

definition broadcastAddress :: "IPAddress \<Rightarrow> QHostAddress" where
  "broadcastAddress ip =
     (let p = nat (m_prefixLength ip) in
      case protocol (m_address ip) of
        IPv6Protocol \<Rightarrow>
          (let off = (p + 7) div 8;
               raw = memset (toIPv6Address (m_address ip)) off 0xFF (16 - off) in
           HostV6 (if p mod 8 \<noteq> 0
                   then raw[p div 8 := raw ! (p div 8) OR drop_bit (p mod 8) 0xFF] else raw))
      | IPv4Protocol \<Rightarrow>
          HostV4 (if m_prefixLength ip < 32
                  then toIPv4Address (m_address ip) OR drop_bit p 0xffffffff
                  else toIPv4Address (m_address ip))
      | UnknownNetworkLayerProtocol \<Rightarrow> NullAddress)"

definition contains :: "IPAddress \<Rightarrow> QHostAddress \<Rightarrow> bool" where
  "contains ip address =
     (if protocol address \<noteq> protocol (m_address ip) then False
      else if m_prefixLength ip = 0 then True
      else
        let p = nat (m_prefixLength ip) in
        case protocol (m_address ip) of
          IPv6Protocol \<Rightarrow>
            (let a = toIPv6Address (m_address ip); b = toIPv6Address address; bytes = p div 8 in
             if bytes > 0 \<and> take bytes a \<noteq> take bytes b then False
             else if p mod 8 \<noteq> 0 then drop_bit (8 - p mod 8) (a ! bytes XOR b ! bytes) = 0
             else True)
        | IPv4Protocol \<Rightarrow>
            (let diff = toIPv4Address (m_address ip) XOR toIPv4Address address in
             (if m_prefixLength ip < 32 then drop_bit (32 - p) diff else diff) = 0)
        | UnknownNetworkLayerProtocol \<Rightarrow> False)"

definition overlaps :: "IPAddress \<Rightarrow> IPAddress \<Rightarrow> bool" where
  "overlaps ip other =
     (if m_prefixLength ip < m_prefixLength other then contains ip (m_address other)
      else contains other (m_address ip))"

definition subnetOf :: "IPAddress \<Rightarrow> IPAddress \<Rightarrow> bool" where
  "subnetOf ip other =
     (if protocol (m_address other) \<noteq> protocol (m_address ip) then False
      else if m_prefixLength ip < m_prefixLength other then False
      else contains other (m_address ip))"

definition subnets :: "IPAddress \<Rightarrow> IPAddress list" where
  "subnets ip =
     (let p = nat (m_prefixLength ip) in
      if protocol (m_address ip) = IPv4Protocol then
        (if m_prefixLength ip \<ge> 32 then [ip]
         else
           let raw = toIPv4Address (m_address ip) in
           [\<lparr>m_address = HostV4 raw, m_prefixLength = m_prefixLength ip + 1\<rparr>,
            \<lparr>m_address = HostV4 (raw OR drop_bit p 0x80000000),
             m_prefixLength = m_prefixLength ip + 1\<rparr>])
      else if m_prefixLength ip \<ge> 128 then [ip]
      else
        let raw = toIPv6Address (m_address ip) in
        [\<lparr>m_address = HostV6 raw, m_prefixLength = m_prefixLength ip + 1\<rparr>,
         \<lparr>m_address = HostV6 (raw[p div 8 := raw ! (p div 8) OR drop_bit (p mod 8) 0x80]),
          m_prefixLength = m_prefixLength ip + 1\<rparr>])"

text \<open>
  The loop of \<open>excludeAddresses\<close> (member function). \<open>None\<close> is "no normal return": the loop
  spins for ever (its \<open>Q_ASSERT(false)\<close> branch does nothing in a release build) or reads
  \<open>sn[1]\<close> of a list with one entry.
\<close>

partial_function (option) exclude_loop ::
  "IPAddress \<Rightarrow> IPAddress list \<Rightarrow> IPAddress list \<Rightarrow> IPAddress list option" where
  "exclude_loop ip sn result =
     (if length sn < 2 then None
      else if sn ! 0 \<noteq> ip \<and> sn ! 1 \<noteq> ip then
        (if subnetOf ip (sn ! 0) then exclude_loop ip (subnets (sn ! 0)) (result @ [sn ! 1])
         else if subnetOf ip (sn ! 1) then exclude_loop ip (subnets (sn ! 1)) (result @ [sn ! 0])
         else exclude_loop ip sn result)
      else if sn ! 0 = ip then Some (result @ [sn ! 1])
      else Some (result @ [sn ! 0]))"

definition excludeAddresses1 :: "IPAddress \<Rightarrow> IPAddress \<Rightarrow> IPAddress list option" where
  "excludeAddresses1 self ip = exclude_loop ip (subnets self) []"

fun exclude_pass :: "IPAddress \<Rightarrow> IPAddress list \<Rightarrow> IPAddress list option" where
  "exclude_pass ex [] = Some []"
| "exclude_pass ex (ip # ips) =
     (if \<not> overlaps ip ex then map_option ((#) ip) (exclude_pass ex ips)
      else if subnetOf ex ip \<and> ex \<noteq> ip then
        (case excludeAddresses1 ip ex of
           None \<Rightarrow> None
         | Some rs \<Rightarrow> map_option ((@) rs) (exclude_pass ex ips))
      else exclude_pass ex ips)"

fun excludeAddresses :: "IPAddress list \<Rightarrow> IPAddress list \<Rightarrow> IPAddress list option" where
  "excludeAddresses results [] = Some results"
| "excludeAddresses results (ex # exs) =
     (case exclude_pass ex results of
        None \<Rightarrow> None
      | Some newResults \<Rightarrow> excludeAddresses newResults exs)"

section \<open>Addresses as bit strings\<close>

text \<open>
  The abstract view of both address families: bit \<open>i\<close> of an address counted from the most
  significant end. A well-formed address of a family has \<open>width\<close> bits, and an
  \<open>IPAddress\<close> is well formed when its prefix length lies within that width, which the
  constructors assert.
\<close>

fun width :: "QHostAddress \<Rightarrow> nat" where
  "width NullAddress = 0"
| "width (HostV4 _) = 32"
| "width (HostV6 _) = 128"

fun abit :: "QHostAddress \<Rightarrow> nat \<Rightarrow> bool" where
  "abit NullAddress i = False"
| "abit (HostV4 w) i = bit w (31 - i)"
| "abit (HostV6 bs) i = bit (bs ! (i div 8)) (7 - i mod 8)"

fun addr_wf :: "QHostAddress \<Rightarrow> bool" where
  "addr_wf NullAddress = False"
| "addr_wf (HostV4 _) = True"
| "addr_wf (HostV6 bs) = (length bs = 16)"

definition ip_wf :: "IPAddress \<Rightarrow> bool" where
  "ip_wf ip \<longleftrightarrow> addr_wf (m_address ip) \<and> 0 \<le> m_prefixLength ip \<and>
     m_prefixLength ip \<le> int (width (m_address ip))"

lemma addr_eqI:
  assumes "addr_wf a" "addr_wf b" "protocol a = protocol b"
    and "\<And>i. i < width a \<Longrightarrow> abit a i = abit b i"
  shows "a = b"
proof (cases a)
  case NullAddress
  with assms show ?thesis by simp
next
  case (HostV4 v)
  with assms(2,3) obtain w where b: "b = HostV4 w" by (cases b) auto
  have "v = w"
  proof (rule bit_word_eqI)
    fix n assume "n < LENGTH(32)"
    with assms(4)[of "31 - n"] HostV4 b show "bit v n = bit w n" by simp
  qed
  with HostV4 b show ?thesis by simp
next
  case (HostV6 xs)
  with assms(2,3) obtain ys where b: "b = HostV6 ys" by (cases b) auto
  have "xs = ys"
  proof (rule nth_equalityI)
    show "length xs = length ys" using assms(1,2) HostV6 b by simp
    fix k assume "k < length xs"
    then have k: "k < 16" using assms(1) HostV6 by simp
    show "xs ! k = ys ! k"
    proof (rule bit_word_eqI)
      fix n assume "n < LENGTH(8)"
      with assms(4)[of "8 * k + (7 - n)"] HostV6 b k
      show "bit (xs ! k) n = bit (ys ! k) n" by (simp add: div_mult_self4 )
    qed
  qed
  with HostV6 b show ?thesis by simp
qed



lemma contains_v4:
  assumes "0 \<le> p" "p \<le> 32"
  shows "contains \<lparr>m_address = HostV4 v, m_prefixLength = p\<rparr> (HostV4 w) \<longleftrightarrow>
    (\<forall>i < nat p. bit v (31 - i) = bit w (31 - i))"
proof (cases "p = 0 \<or> p = 32")
  case True
  then show ?thesis using xor_eq_0_iff_bits[of v w] by (auto simp: contains_def)
next
  case False
  then have "contains \<lparr>m_address = HostV4 v, m_prefixLength = p\<rparr> (HostV4 w) \<longleftrightarrow>
      drop_bit (32 - nat p) (v XOR w) = 0"
    using assms by (simp add: contains_def del: drop_bit_xor)
  then show ?thesis using assms drop_xor_eq_0_iff[of "nat p" v w] by simp
qed

lemma byte_prefix_iff:
  fixes x y :: quint8
  assumes "r \<le> 8"
  shows "drop_bit (8 - r) (x XOR y) = 0 \<longleftrightarrow> (\<forall>j < r. bit x (7 - j) = bit y (7 - j))"
  using drop_xor_eq_0_iff[of r x y] assms by simp

lemma byte_eq_iff:
  fixes x y :: quint8
  shows "x = y \<longleftrightarrow> (\<forall>j < 8. bit x (7 - j) = bit y (7 - j))"
  using xor_eq_0_iff_bits[of x y] by (simp add: xor_eq_0_iff_eq)

lemma all_bits_split:
  fixes p :: nat
  shows "(\<forall>i < p. P (i div 8) (i mod 8)) \<longleftrightarrow>
    (\<forall>k < p div 8. \<forall>j < 8. P k j) \<and> (\<forall>j < p mod 8. P (p div 8) j)"
proof (intro iffI conjI allI impI)
  fix k j assume a: "\<forall>i < p. P (i div 8) (i mod 8)" "k < p div 8" "j < (8::nat)"
  then have "8 * k + j < p" by (simp add: less_eq_div_iff_mult_less_eq Suc_le_eq [symmetric])
  with a(1) have "P ((8 * k + j) div 8) ((8 * k + j) mod 8)" by blast
  with a(3) show "P k j" by simp
next
  fix j assume a: "\<forall>i < p. P (i div 8) (i mod 8)" "j < p mod 8"
  then have j: "j < 8" by simp
  have "8 * (p div 8) + j < p" using a(2) mult_div_mod_eq[of 8 p] by linarith
  with a(1) have "P ((8 * (p div 8) + j) div 8) ((8 * (p div 8) + j) mod 8)" by blast
  with j show "P (p div 8) j" by simp
next
  fix i assume a: "(\<forall>k < p div 8. \<forall>j < 8. P k j) \<and> (\<forall>j < p mod 8. P (p div 8) j)" "i < p"
  show "P (i div 8) (i mod 8)"
  proof (cases "i div 8 < p div 8")
    case True
    with a(1) show ?thesis by simp
  next
    case False
    with a(2) have e: "i div 8 = p div 8" by (simp add: div_le_mono le_antisym)
    then have "i mod 8 < p mod 8"
      using a(2) div_mult_mod_eq[of i 8] div_mult_mod_eq[of p 8] by linarith
    with a(1) e show ?thesis by simp
  qed
qed

lemma contains_v6:
  assumes "0 \<le> p" "p \<le> 128" "length a = 16" "length b = 16"
  shows "contains \<lparr>m_address = HostV6 a, m_prefixLength = p\<rparr> (HostV6 b) \<longleftrightarrow>
    (\<forall>i < nat p. bit (a ! (i div 8)) (7 - i mod 8) = bit (b ! (i div 8)) (7 - i mod 8))"
proof (cases "p = 0")
  case True
  then show ?thesis by (simp add: contains_def)
next
  case False
  let ?n = "nat p"
  have n: "?n div 8 \<le> 16" using assms(2) by simp
  have "take (?n div 8) a = take (?n div 8) b \<longleftrightarrow> (\<forall>k < ?n div 8. a ! k = b ! k)"
    using n assms by (simp add: take_eq_conv_nth)
  then have t: "take (?n div 8) a = take (?n div 8) b \<longleftrightarrow>
      (\<forall>k < ?n div 8. \<forall>j < 8. bit (a ! k) (7 - j) = bit (b ! k) (7 - j))"
    by (simp add: byte_eq_iff)
  have "contains \<lparr>m_address = HostV6 a, m_prefixLength = p\<rparr> (HostV6 b) \<longleftrightarrow>
     take (?n div 8) a = take (?n div 8) b \<and>
     (?n mod 8 \<noteq> 0 \<longrightarrow> drop_bit (8 - ?n mod 8) (a ! (?n div 8) XOR b ! (?n div 8)) = 0)"
    using False by (auto simp: contains_def Let_def simp del: drop_bit_xor)
  also have "\<dots> \<longleftrightarrow> (\<forall>i < ?n. bit (a ! (i div 8)) (7 - i mod 8) = bit (b ! (i div 8)) (7 - i mod 8))"
    unfolding t all_bits_split[of ?n "\<lambda>k j. bit (a ! k) (7 - j) = bit (b ! k) (7 - j)"]
    using byte_prefix_iff[of "?n mod 8" "a ! (?n div 8)" "b ! (?n div 8)"] by (auto simp del: drop_bit_xor)
  finally show ?thesis .
qed

lemma contains_iff:
  assumes "ip_wf ip" "addr_wf a"
  shows "contains ip a \<longleftrightarrow> protocol a = protocol (m_address ip) \<and>
    (\<forall>i < nat (m_prefixLength ip). abit (m_address ip) i = abit a i)"
proof (cases "protocol a = protocol (m_address ip)")
  case False
  then show ?thesis by (simp add: contains_def)
next
  case True
  obtain b p where ip: "ip = \<lparr>m_address = b, m_prefixLength = p\<rparr>" by (cases ip)
  show ?thesis
    using True assms contains_v4[of p] contains_v6[of p]
    by (cases a; cases b) (auto simp: ip ip_wf_def)
qed

section \<open>Ranges as sets of addresses\<close>

text \<open>
  A range is canonical when the bits after its prefix are zero; the routine
  \<open>QHostAddress::parseSubnet\<close> returns such addresses. The set of addresses a range covers
  is the specification of the operations.
\<close>

definition canonical :: "IPAddress \<Rightarrow> bool" where
  "canonical ip \<longleftrightarrow> ip_wf ip \<and>
     list_all (\<lambda>i. \<not> abit (m_address ip) i) [nat (m_prefixLength ip) ..< width (m_address ip)]"

lemma canonical_iff:
  "canonical ip \<longleftrightarrow> ip_wf ip \<and>
     (\<forall>i. nat (m_prefixLength ip) \<le> i \<and> i < width (m_address ip) \<longrightarrow> \<not> abit (m_address ip) i)"
  by (auto simp: canonical_def list_all_iff)

definition covers :: "IPAddress \<Rightarrow> QHostAddress set" where
  "covers ip = {a. addr_wf a \<and> contains ip a}"

lemma canonical_wf: "canonical ip \<Longrightarrow> ip_wf ip"
  by (simp add: canonical_iff)

lemma protocol_width: "protocol a = protocol b \<Longrightarrow> width a = width b"
  by (cases a; cases b) auto

lemma mem_covers:
  "ip_wf ip \<Longrightarrow> a \<in> covers ip \<longleftrightarrow> addr_wf a \<and> protocol a = protocol (m_address ip) \<and>
    (\<forall>i < nat (m_prefixLength ip). abit (m_address ip) i = abit a i)"
  by (auto simp: covers_def contains_iff)

lemma self_covered: "ip_wf ip \<Longrightarrow> m_address ip \<in> covers ip"
  by (simp add: mem_covers ip_wf_def)

lemma bit_top32: "bit (0x80000000 :: quint32) n \<longleftrightarrow> n = 31"
proof -
  have e: "(0x80000000 :: quint32) = push_bit 31 1" by simp
  show ?thesis unfolding e bit_push_bit_iff bit_1_iff by auto
qed

lemma bit_top8: "bit (0x80 :: quint8) n \<longleftrightarrow> n = 7"
proof -
  have e: "(0x80 :: quint8) = push_bit 7 1" by simp
  show ?thesis unfolding e bit_push_bit_iff bit_1_iff by auto
qed

lemma upper_half_v6_bit:
  assumes "length bs = 16" "p < 128" "i < 128"
  shows "bit ((bs[p div 8 := bs ! (p div 8) OR drop_bit (p mod 8) (0x80 :: quint8)]) ! (i div 8)) (7 - i mod 8)
    \<longleftrightarrow> bit (bs ! (i div 8)) (7 - i mod 8) \<or> i = p"
proof (cases "i div 8 = p div 8")
  case False
  moreover from False have "i \<noteq> p" by auto
  ultimately show ?thesis by simp
next
  case True
  have "bit (drop_bit (p mod 8) (0x80 :: quint8)) (7 - i mod 8) \<longleftrightarrow> i mod 8 = p mod 8"
    unfolding bit_drop_bit_eq comp_def bit_top8 by auto
  moreover have "i mod 8 = p mod 8 \<longleftrightarrow> i = p"
    using True by (metis div_mult_mod_eq)
  moreover have "p div 8 < length bs" using assms by auto
  ultimately show ?thesis using True by (simp add: bit_or_iff)
qed

lemma subnets_split:
  assumes "ip_wf ip" "m_prefixLength ip < int (width (m_address ip))"
  obtains b where
    "subnets ip = [\<lparr>m_address = m_address ip, m_prefixLength = m_prefixLength ip + 1\<rparr>,
                   \<lparr>m_address = b, m_prefixLength = m_prefixLength ip + 1\<rparr>]"
    "addr_wf b" "protocol b = protocol (m_address ip)"
    "\<And>i. i < width (m_address ip) \<Longrightarrow>
       abit b i \<longleftrightarrow> abit (m_address ip) i \<or> i = nat (m_prefixLength ip)"
proof (cases "m_address ip")
  case NullAddress
  with assms show ?thesis by (simp add: ip_wf_def)
next
  case (HostV4 v)
  let ?p = "nat (m_prefixLength ip)"
  have p: "?p < 32" using assms HostV4 by (simp add: ip_wf_def)
  have "bit (drop_bit ?p (0x80000000 :: quint32)) (31 - i) \<longleftrightarrow> i = ?p" if "i < 32" for i
    unfolding bit_drop_bit_eq comp_def bit_top32 using that p by arith
  then show ?thesis
    using HostV4 assms by (intro that[of "HostV4 (v OR drop_bit ?p 0x80000000)"])
      (auto simp: subnets_def bit_or_iff)
next
  case (HostV6 bs)
  let ?p = "nat (m_prefixLength ip)"
  have "?p < 128" "length bs = 16" using assms HostV6 by (simp_all add: ip_wf_def)
  then show ?thesis
    using HostV6 assms upper_half_v6_bit[of bs ?p]
    by (intro that[of "HostV6 (bs[?p div 8 := bs ! (?p div 8) OR drop_bit (?p mod 8) 0x80])"])
      (auto simp: subnets_def Let_def)
qed

lemma canonical_nth_eq:
  assumes "canonical x" "canonical y" "m_prefixLength x = m_prefixLength y" "subnetOf x y"
  shows "x = y"
proof -
  have wf: "ip_wf x" "ip_wf y" using assms canonical_wf by auto
  have pr: "protocol (m_address x) = protocol (m_address y)" and c: "contains y (m_address x)"
    using assms(4) by (auto simp: subnetOf_def split: if_splits)
  have "m_address x = m_address y"
  proof (rule addr_eqI)
    show "addr_wf (m_address x)" "addr_wf (m_address y)" using wf by (auto simp: ip_wf_def)
    fix i assume i: "i < width (m_address x)"
    then show "abit (m_address x) i = abit (m_address y) i"
      using c contains_iff[OF wf(2), of "m_address x"] wf assms(1-3) protocol_width[OF pr]
      by (cases "i < nat (m_prefixLength x)") (auto simp: canonical_iff ip_wf_def)
  qed (rule pr)
  with assms(3) show ?thesis by simp
qed

lemma overlaps_iff:
  assumes "ip_wf x" "ip_wf y"
  shows "overlaps x y \<longleftrightarrow> covers x \<inter> covers y \<noteq> {}"
proof -
  have w: "addr_wf (m_address x)" "addr_wf (m_address y)" using assms by (auto simp: ip_wf_def)
  have aux: "contains u (m_address v) \<longleftrightarrow> covers u \<inter> covers v \<noteq> {}"
    if "ip_wf u" "ip_wf v" "m_prefixLength u \<le> m_prefixLength v" for u v
  proof
    assume "contains u (m_address v)"
    then show "covers u \<inter> covers v \<noteq> {}"
      using that self_covered[of v] by (auto simp: covers_def ip_wf_def)
  next
    assume "covers u \<inter> covers v \<noteq> {}"
    then obtain a where "a \<in> covers u" "a \<in> covers v" by blast
    with that show "contains u (m_address v)"
      by (auto simp: mem_covers contains_iff ip_wf_def)
  qed
  show ?thesis using aux[of x y] aux[of y x] assms by (auto simp: overlaps_def)
qed

lemma subnetOf_iff_bits:
  assumes "ip_wf x" "ip_wf y"
  shows "subnetOf x y \<longleftrightarrow> m_prefixLength y \<le> m_prefixLength x \<and> m_address x \<in> covers y"
  using assms by (auto simp: subnetOf_def covers_def contains_iff ip_wf_def)

lemma subnetOf_covers:
  assumes "ip_wf x" "ip_wf y" "subnetOf x y"
  shows "covers x \<subseteq> covers y"
  using assms by (auto simp: subnetOf_iff_bits mem_covers)

lemma subnetOf_iff:
  assumes "canonical x" "ip_wf y"
  shows "subnetOf x y \<longleftrightarrow> covers x \<subseteq> covers y"
proof
  have wf: "ip_wf x" using assms(1) by (rule canonical_wf)
  show "covers x \<subseteq> covers y" if "subnetOf x y" using subnetOf_covers[OF wf assms(2) that] .
  assume sub: "covers x \<subseteq> covers y"
  have mx: "m_address x \<in> covers y" using sub self_covered[OF wf] by blast
  have "\<not> m_prefixLength x < m_prefixLength y"
  proof
    assume lt: "m_prefixLength x < m_prefixLength y"
    let ?p = "nat (m_prefixLength x)"
    have "protocol (m_address x) = protocol (m_address y)"
      using mx assms(2) by (simp add: mem_covers)
    then have w: "width (m_address x) = width (m_address y)" by (rule protocol_width)
    have plt: "m_prefixLength x < int (width (m_address x))"
      using lt assms(2) w by (simp add: ip_wf_def)
    obtain b where b: "addr_wf b" "protocol b = protocol (m_address x)"
      "\<And>i. i < width (m_address x) \<Longrightarrow> abit b i \<longleftrightarrow> abit (m_address x) i \<or> i = ?p"
      using subnets_split[OF wf plt] by metis
    have pw: "?p < width (m_address x)" using plt wf by (auto simp: ip_wf_def)
    have "b \<in> covers x" using b pw wf by (simp add: mem_covers)
    with sub have "b \<in> covers y" ..
    moreover have "?p < nat (m_prefixLength y)" using lt wf by (simp add: ip_wf_def)
    ultimately have "abit b ?p = abit (m_address x) ?p"
      using mx assms(2) by (simp add: mem_covers)
    moreover have "\<not> abit (m_address x) ?p" using assms(1) pw by (simp add: canonical_iff)
    ultimately show False using b(3)[OF pw] by simp
  qed
  with mx show "subnetOf x y" using subnetOf_iff_bits[OF wf assms(2)] by simp
qed

lemma subnets_halves:
  assumes "canonical s" "m_prefixLength s < int (width (m_address s))"
  obtains s0 s1 where
    "subnets s = [s0, s1]" "canonical s0" "canonical s1"
    "m_prefixLength s0 = m_prefixLength s + 1" "m_prefixLength s1 = m_prefixLength s + 1"
    "width (m_address s0) = width (m_address s)" "width (m_address s1) = width (m_address s)"
    "covers s = covers s0 \<union> covers s1" "covers s0 \<inter> covers s1 = {}"
    "\<And>ip. ip_wf ip \<Longrightarrow> subnetOf ip s \<Longrightarrow> m_prefixLength s < m_prefixLength ip \<Longrightarrow>
       subnetOf ip s0 \<or> subnetOf ip s1"
proof -
  let ?p = "nat (m_prefixLength s)"
  let ?a = "m_address s"
  have wf: "ip_wf s" using assms(1) by (rule canonical_wf)
  then have p0: "0 \<le> m_prefixLength s" by (simp add: ip_wf_def)
  have pw: "?p < width ?a" using assms(2) p0 by simp
  obtain b where b: "subnets s = [\<lparr>m_address = ?a, m_prefixLength = m_prefixLength s + 1\<rparr>,
                   \<lparr>m_address = b, m_prefixLength = m_prefixLength s + 1\<rparr>]"
    "addr_wf b" "protocol b = protocol ?a"
    "\<And>i. i < width ?a \<Longrightarrow> abit b i \<longleftrightarrow> abit ?a i \<or> i = ?p"
    using subnets_split[OF wf assms(2)] by metis
  define s0 where "s0 = \<lparr>m_address = ?a, m_prefixLength = m_prefixLength s + 1\<rparr>"
  define s1 where "s1 = \<lparr>m_address = b, m_prefixLength = m_prefixLength s + 1\<rparr>"
  have wb: "width b = width ?a" using b(3) by (rule protocol_width)
  have nap: "\<not> abit ?a ?p" using assms(1) pw by (simp add: canonical_iff)
  have wf01: "ip_wf s0" "ip_wf s1" using wf b(2) wb assms(2) by (simp_all add: s0_def s1_def ip_wf_def)
  have c01: "canonical s0" "canonical s1"
    using assms(1) wf01 b(4) wb p0 by (auto simp: s0_def s1_def canonical_iff)
  have suc: "nat (m_prefixLength s + 1) = Suc ?p" using p0 by simp
  have m0: "a \<in> covers s0 \<longleftrightarrow> a \<in> covers s \<and> \<not> abit a ?p" for a
    using mem_covers[OF wf01(1)] mem_covers[OF wf] nap by (auto simp: s0_def suc less_Suc_eq)
  have m1: "a \<in> covers s1 \<longleftrightarrow> a \<in> covers s \<and> abit a ?p" for a
    using mem_covers[OF wf01(2)] mem_covers[OF wf] b(3,4) pw
    by (auto simp: s1_def suc less_Suc_eq)
  show ?thesis
  proof (rule that)
    show "subnets s = [s0, s1]" using b(1) by (simp add: s0_def s1_def)
    show "covers s = covers s0 \<union> covers s1" "covers s0 \<inter> covers s1 = {}"
      using m0 m1 by blast+
    show "subnetOf ip s0 \<or> subnetOf ip s1"
      if "ip_wf ip" "subnetOf ip s" "m_prefixLength s < m_prefixLength ip" for ip
      using that subnetOf_iff_bits[OF that(1) wf] subnetOf_iff_bits[OF that(1) wf01(1)]
        subnetOf_iff_bits[OF that(1) wf01(2)] m0 m1
      by (auto simp: s0_def s1_def)
  qed (use c01 wb in \<open>simp_all add: s0_def s1_def\<close>)
qed

section \<open>Subtracting ranges\<close>

definition disjoint_list :: "IPAddress list \<Rightarrow> bool" where
  "disjoint_list xs \<longleftrightarrow> sorted_wrt (\<lambda>x y. covers x \<inter> covers y = {}) xs"

definition covers_list :: "IPAddress list \<Rightarrow> QHostAddress set" where
  "covers_list xs = (\<Union>x \<in> set xs. covers x)"

lemma covers_list_simps [simp]:
  "covers_list [] = {}"
  "covers_list (x # xs) = covers x \<union> covers_list xs"
  "covers_list (xs @ ys) = covers_list xs \<union> covers_list ys"
  by (auto simp: covers_list_def)

lemma disjoint_list_simps [simp]:
  "disjoint_list []"
  "disjoint_list (x # xs) \<longleftrightarrow> covers x \<inter> covers_list xs = {} \<and> disjoint_list xs"
  by (auto simp: disjoint_list_def covers_list_def)

lemma disjoint_list_append [simp]:
  "disjoint_list (xs @ ys) \<longleftrightarrow>
     disjoint_list xs \<and> disjoint_list ys \<and> covers_list xs \<inter> covers_list ys = {}"
  by (induction xs) auto

definition range_difference :: "IPAddress \<Rightarrow> IPAddress \<Rightarrow> IPAddress list \<Rightarrow> bool" where
  "range_difference s ip rs \<longleftrightarrow>
     list_all canonical rs \<and> disjoint_list rs \<and> covers_list rs = covers s - covers ip \<and>
     int (length rs) = m_prefixLength ip - m_prefixLength s"

lemma covers_nonempty: "ip_wf ip \<Longrightarrow> covers ip \<noteq> {}"
  using self_covered by blast

lemma subnetOf_width:
  "subnetOf ip s \<Longrightarrow> width (m_address ip) = width (m_address s)"
  by (auto simp: subnetOf_def split: if_splits intro: protocol_width)

lemma exclude_loop_steps:
  "exclude_loop ip [ip, v] acc = Some (acc @ [v])"
  "u \<noteq> ip \<Longrightarrow> exclude_loop ip [u, ip] acc = Some (acc @ [u])"
  "u \<noteq> ip \<Longrightarrow> v \<noteq> ip \<Longrightarrow> subnetOf ip u \<Longrightarrow>
    exclude_loop ip [u, v] acc = exclude_loop ip (subnets u) (acc @ [v])"
  "u \<noteq> ip \<Longrightarrow> v \<noteq> ip \<Longrightarrow> \<not> subnetOf ip u \<Longrightarrow> subnetOf ip v \<Longrightarrow>
    exclude_loop ip [u, v] acc = exclude_loop ip (subnets v) (acc @ [u])"
  by (subst exclude_loop.simps, simp)+

lemma exclude_loop_ok:
  assumes "canonical s" "canonical ip" "subnetOf ip s" "m_prefixLength s < m_prefixLength ip"
  shows "\<exists>rs. exclude_loop ip (subnets s) acc = Some (acc @ rs) \<and> range_difference s ip rs"
  using assms
proof (induction "nat (m_prefixLength ip - m_prefixLength s)" arbitrary: s acc)
  case 0
  then show ?case by simp
next
  case (Suc n)
  have wfi: "ip_wf ip" using Suc.prems(2) by (rule canonical_wf)
  have "m_prefixLength s < int (width (m_address s))"
    using Suc.prems wfi subnetOf_width[OF Suc.prems(3)] by (simp add: ip_wf_def)
  from subnets_halves[OF Suc.prems(1) this] obtain s0 s1 where h:
    "subnets s = [s0, s1]" "canonical s0" "canonical s1"
    "m_prefixLength s0 = m_prefixLength s + 1" "m_prefixLength s1 = m_prefixLength s + 1"
    "covers s = covers s0 \<union> covers s1" "covers s0 \<inter> covers s1 = {}"
    "subnetOf ip s0 \<or> subnetOf ip s1"
    using Suc.prems(3,4) wfi by metis
  have sub: "subnetOf ip t \<longleftrightarrow> covers ip \<subseteq> covers t" if "canonical t" for t
    using Suc.prems(2) that by (simp add: subnetOf_iff canonical_wf)
  have ne: "covers ip \<noteq> {}" using wfi by (rule covers_nonempty)
  have step: ?case
    if t: "canonical t" "canonical u" "subnetOf ip t" "m_prefixLength t = m_prefixLength s + 1"
      "covers s = covers t \<union> covers u" "covers t \<inter> covers u = {}"
      "subnets s = [t, u] \<or> subnets s = [u, t]" for t u
  proof -
    have disj: "covers ip \<inter> covers u = {}" using t(1,3,6) sub by blast
    then have nu: "\<not> subnetOf ip u" "u \<noteq> ip" using t(2) sub ne by auto
    show ?thesis
    proof (cases "t = ip")
      case True
      then have "exclude_loop ip (subnets s) acc = Some (acc @ [u])"
        using t(7) nu exclude_loop_steps(1,2) by auto
      moreover have "range_difference s ip [u]"
        using True t disj by (auto simp: range_difference_def)
      ultimately show ?thesis by blast
    next
      case False
      have "m_prefixLength t < m_prefixLength ip"
      proof (rule ccontr)
        assume "\<not> ?thesis"
        then have "m_prefixLength ip = m_prefixLength t" using t(4) Suc.prems(4) by simp
        with canonical_nth_eq[OF Suc.prems(2) t(1) _ t(3)] False show False by simp
      qed
      moreover have "n = nat (m_prefixLength ip - m_prefixLength t)" using Suc.hyps(2) t(4) by simp
      ultimately obtain rs where rs:
        "exclude_loop ip (subnets t) (acc @ [u]) = Some ((acc @ [u]) @ rs)" "range_difference t ip rs"
        using Suc.hyps(1)[of t "acc @ [u]"] t(1,3) Suc.prems(2) by blast
      have "exclude_loop ip (subnets s) acc = exclude_loop ip (subnets t) (acc @ [u])"
        using t(3,7) nu False exclude_loop_steps(3,4) by auto
      moreover have "range_difference s ip (u # rs)"
        using rs(2) t disj by (auto simp: range_difference_def)
      ultimately show ?thesis using rs(1) by auto
    qed
  qed
  from h(8) show ?case
  proof
    assume "subnetOf ip s0"
    with h show ?case by (intro step[of s0 s1]) auto
  next
    assume "subnetOf ip s1"
    with h show ?case by (intro step[of s1 s0]) auto
  qed
qed

lemma excludeAddresses1_ok:
  assumes "canonical s" "canonical ip" "subnetOf ip s" "ip \<noteq> s"
  shows "\<exists>rs. excludeAddresses1 s ip = Some rs \<and> range_difference s ip rs"
proof -
  have "m_prefixLength s < m_prefixLength ip"
  proof (rule ccontr)
    assume "\<not> ?thesis"
    then have "m_prefixLength ip = m_prefixLength s"
      using assms(3) by (simp add: subnetOf_def split: if_splits)
    with canonical_nth_eq[OF assms(2,1) _ assms(3)] assms(4) show False by simp
  qed
  from exclude_loop_ok[OF assms(1-3) this, of "[]"] show ?thesis
    by (simp add: excludeAddresses1_def)
qed

lemma overlaps_nested:
  assumes "canonical x" "canonical y" "overlaps x y"
  shows "subnetOf x y \<or> subnetOf y x"
  using assms canonical_wf[OF assms(1)] canonical_wf[OF assms(2)]
  by (auto simp: overlaps_def subnetOf_def contains_iff ip_wf_def split: if_splits)

lemma exclude_pass_ok:
  assumes "canonical ex" "list_all canonical ips"
  shows "\<exists>rs. exclude_pass ex ips = Some rs \<and> list_all canonical rs \<and>
    covers_list rs = covers_list ips - covers ex \<and> (disjoint_list ips \<longrightarrow> disjoint_list rs)"
  using assms(2)
proof (induction ips)
  case Nil
  then show ?case by simp
next
  case (Cons ip ips)
  then obtain rs where rs: "exclude_pass ex ips = Some rs" "list_all canonical rs"
    "covers_list rs = covers_list ips - covers ex" "disjoint_list ips \<longrightarrow> disjoint_list rs"
    by auto
  have c: "canonical ip" using Cons.prems by simp
  note wf = canonical_wf[OF c] canonical_wf[OF assms(1)]
  show ?case
  proof (cases "overlaps ip ex")
    case False
    then have "covers ip \<inter> covers ex = {}" using overlaps_iff[OF wf] by simp
    with False rs c show ?thesis by auto
  next
    case True
    show ?thesis
    proof (cases "subnetOf ex ip \<and> ex \<noteq> ip")
      case sub: True
      then obtain r where r: "excludeAddresses1 ip ex = Some r" "range_difference ip ex r"
        using excludeAddresses1_ok[OF c assms(1)] by blast
      with True sub rs show ?thesis by (auto simp: range_difference_def)
    next
      case nsub: False
      then have "covers ip \<subseteq> covers ex"
        using overlaps_nested[OF c assms(1) True] subnetOf_covers[OF wf] by auto
      with True nsub rs show ?thesis by auto
    qed
  qed
qed

lemma excludeAddresses_ok:
  assumes "list_all canonical src" "list_all canonical exs"
  shows "\<exists>rs. excludeAddresses src exs = Some rs \<and> list_all canonical rs \<and>
    covers_list rs = covers_list src - covers_list exs \<and> (disjoint_list src \<longrightarrow> disjoint_list rs)"
  using assms
proof (induction exs arbitrary: src)
  case Nil
  then show ?case by simp
next
  case (Cons ex exs)
  then obtain m where m: "exclude_pass ex src = Some m" "list_all canonical m"
    "covers_list m = covers_list src - covers ex" "disjoint_list src \<longrightarrow> disjoint_list m"
    using exclude_pass_ok[of ex src] by auto
  with Cons.IH[of m] Cons.prems show ?case by auto
qed

section \<open>Masks\<close>

lemma length_memset [simp]: "off + n \<le> length bs \<Longrightarrow> length (memset bs off v n) = length bs"
  by (simp add: memset_def)

lemma nth_memset:
  "off + n \<le> length bs \<Longrightarrow> k < length bs \<Longrightarrow>
   memset bs off v n ! k = (if off \<le> k \<and> k < off + n then v else bs ! k)"
  by (auto simp: memset_def nth_append min_def)

lemma bit_high_ones: "j < 8 \<Longrightarrow> bit (0xFF XOR drop_bit r (0xFF :: quint8)) (7 - j) \<longleftrightarrow> j < r"
  unfolding ones8 bit_xor_iff bit_drop_mask by auto

lemma bit_low_ones: "j < 8 \<Longrightarrow> bit (drop_bit r (0xFF :: quint8)) (7 - j) \<longleftrightarrow> r \<le> j"
  unfolding ones8 bit_drop_mask by auto

lemma bit_ones8: "bit (0xFF :: quint8) (7 - j)"
  unfolding ones8 by (simp add: less_Suc_eq_le)

lemma div_mod_less_iff:
  fixes i p :: nat
  shows "i < p \<longleftrightarrow> i div 8 < p div 8 \<or> i div 8 = p div 8 \<and> i mod 8 < p mod 8"
proof -
  have "i = 8 * (i div 8) + i mod 8" "p = 8 * (p div 8) + p mod 8" "i mod 8 < 8" "p mod 8 < 8"
    by simp_all
  then show ?thesis by linarith
qed

lemma ceil_div8: "(p + 7) div 8 = (if p mod 8 = 0 then p div 8 else Suc (p div 8))" for p :: nat
  by presburger

lemma div8_lt16: "p \<le> 128 \<Longrightarrow> p mod 8 \<noteq> 0 \<Longrightarrow> p div 8 < 16" for p :: nat
  by presburger

lemma netmask_bits:
  assumes "ip_wf ip" "i < width (m_address ip)"
  shows "abit (netmask ip) i \<longleftrightarrow> i < nat (m_prefixLength ip)"
proof (cases "m_address ip")
  case NullAddress
  with assms show ?thesis by simp
next
  case (HostV4 v)
  then have i: "i < 32" and p: "0 \<le> m_prefixLength ip" using assms by (auto simp: ip_wf_def)
  let ?p = "nat (m_prefixLength ip)"
  have b1: "bit (0xffffffff XOR drop_bit ?p (0xffffffff :: quint32)) (31 - i) \<longleftrightarrow> i < ?p"
    unfolding ones32 bit_xor_iff bit_drop_mask using i by auto
  have b2: "bit (0xffffffff :: quint32) (31 - i)" unfolding ones32 using i by simp
  have m: "netmask ip = HostV4 (if m_prefixLength ip < 32
      then 0xffffffff XOR drop_bit ?p 0xffffffff else 0xffffffff)"
    unfolding netmask_def HostV4 Let_def protocol.simps NetworkLayerProtocol.case ..
  show ?thesis
  proof (cases "m_prefixLength ip < 32")
    case True
    then show ?thesis unfolding m by (simp only: abit.simps if_True b1)
  next
    case False
    then have "i < ?p" using i by simp
    with False show ?thesis unfolding m by (simp only: abit.simps if_False b2)
  qed
next
  case (HostV6 bs)
  let ?p = "nat (m_prefixLength ip)"
  have i: "i div 8 < 16" "i mod 8 < 8" and p: "?p \<le> 128" using assms HostV6 by (auto simp: ip_wf_def)
  then have "?p div 8 \<le> 16" by simp
  moreover have "?p mod 8 \<noteq> 0 \<Longrightarrow> ?p div 8 < 16" using p by (rule div8_lt16)
  ultimately show ?thesis
    using HostV6 i unfolding div_mod_less_iff[of i]
    by (auto simp: netmask_def Let_def nth_memset nth_list_update bit_high_ones bit_ones8
        simp del: bit_numeral_word_iff)
qed

lemma hostmask_bits:
  assumes "ip_wf ip" "i < width (m_address ip)"
  shows "abit (hostmask ip) i \<longleftrightarrow> nat (m_prefixLength ip) \<le> i"
proof (cases "m_address ip")
  case NullAddress
  with assms show ?thesis by simp
next
  case (HostV4 v)
  then have i: "i < 32" and p: "0 \<le> m_prefixLength ip" using assms by (auto simp: ip_wf_def)
  have "bit (drop_bit n (0xffffffff :: quint32)) (31 - i) \<longleftrightarrow> n \<le> i" for n
    unfolding ones32 bit_drop_mask using i by auto
  then show ?thesis using HostV4 i p by (auto simp: hostmask_def)
next
  case (HostV6 bs)
  let ?p = "nat (m_prefixLength ip)"
  have i: "i div 8 < 16" "i mod 8 < 8" and p: "?p \<le> 128" using assms HostV6 by (auto simp: ip_wf_def)
  then have "?p div 8 \<le> 16" by simp
  moreover have "?p mod 8 \<noteq> 0 \<Longrightarrow> ?p div 8 < 16" using p by (rule div8_lt16)
  ultimately show ?thesis
    using HostV6 i unfolding not_less[symmetric] div_mod_less_iff[of i]
    by (auto simp: hostmask_def Let_def nth_memset nth_list_update bit_low_ones bit_ones8 ceil_div8
        simp del: bit_numeral_word_iff)
qed

lemma broadcast_bits:
  assumes "ip_wf ip" "i < width (m_address ip)"
  shows "abit (broadcastAddress ip) i \<longleftrightarrow> abit (m_address ip) i \<or> nat (m_prefixLength ip) \<le> i"
proof (cases "m_address ip")
  case NullAddress
  with assms show ?thesis by simp
next
  case (HostV4 v)
  then have i: "i < 32" and p: "0 \<le> m_prefixLength ip" using assms by (auto simp: ip_wf_def)
  have "bit (drop_bit n (0xffffffff :: quint32)) (31 - i) \<longleftrightarrow> n \<le> i" for n
    unfolding ones32 bit_drop_mask using i by auto
  then show ?thesis using HostV4 i p by (auto simp: broadcastAddress_def bit_or_iff)
next
  case (HostV6 bs)
  let ?p = "nat (m_prefixLength ip)"
  have i: "i div 8 < 16" "i mod 8 < 8" and p: "?p \<le> 128" and l: "length bs = 16"
    using assms HostV6 by (auto simp: ip_wf_def)
  then have "?p div 8 \<le> 16" by simp
  moreover have "?p mod 8 \<noteq> 0 \<Longrightarrow> ?p div 8 < 16" using p by (rule div8_lt16)
  ultimately show ?thesis
    using HostV6 i l unfolding not_less[symmetric] div_mod_less_iff[of i]
    by (auto simp: broadcastAddress_def Let_def nth_memset nth_list_update bit_low_ones bit_ones8
        ceil_div8 bit_or_iff simp del: bit_numeral_word_iff)
qed

lemma exclude_loop_stuck:
  assumes "u \<noteq> ip" "v \<noteq> ip" "\<not> subnetOf ip u" "\<not> subnetOf ip v"
  shows "exclude_loop ip [u, v] acc = None"
proof (rule ccontr)
  assume "exclude_loop ip [u, v] acc \<noteq> None"
  then obtain r where r: "exclude_loop ip [u, v] acc = Some r" by blast
  have "\<not> (ip = ip \<and> [u, v] = [u, v])"
    by (rule exclude_loop.raw_induct [where P = "\<lambda>i sn acc r. \<not> (i = ip \<and> sn = [u, v])", OF _ r])
      (use assms in \<open>auto split: if_splits\<close>)
  then show False by simp
qed

section \<open>Properties\<close>

text \<open>
  C8: subtracting the ranges of an exclude list from the ranges of a source list
  terminates and returns canonical ranges that cover exactly the addresses of the source
  list outside the exclude list; ranges that were disjoint stay disjoint.
\<close>

theorem excludeAddresses_correct:
  assumes "list_all canonical src" and "list_all canonical exs"
  shows "\<exists>rs. excludeAddresses src exs = Some rs \<and> list_all canonical rs \<and>
    covers_list rs = covers_list src - covers_list exs \<and> (disjoint_list src \<longrightarrow> disjoint_list rs)"
  using assms by (rule excludeAddresses_ok)

theorem excludeAddresses_correct_witness:
  "\<exists>rs. excludeAddresses [\<lparr>m_address = HostV4 0x0A000000, m_prefixLength = 8\<rparr>]
      [\<lparr>m_address = HostV4 0x0A400000, m_prefixLength = 10\<rparr>] = Some rs \<and>
    covers_list rs = covers \<lparr>m_address = HostV4 0x0A000000, m_prefixLength = 8\<rparr>
      - covers \<lparr>m_address = HostV4 0x0A400000, m_prefixLength = 10\<rparr>"
proof -
  let ?s = "\<lparr>m_address = HostV4 0x0A000000, m_prefixLength = 8\<rparr>"
  let ?e = "\<lparr>m_address = HostV4 0x0A400000, m_prefixLength = 10\<rparr>"
  have "list_all canonical [?s]" "list_all canonical [?e]" by code_simp+
  from excludeAddresses_correct [OF this] obtain rs where
    "excludeAddresses [?s] [?e] = Some rs" "covers_list rs = covers_list [?s] - covers_list [?e]"
    by blast
  then show ?thesis by (intro exI [of _ rs]) (simp only: covers_list_simps Un_empty_right)
qed

text \<open>
  The loop that removes one canonical range from a larger one terminates, and it
  returns one range per prefix bit between the two, pairwise disjoint, that cover the
  difference exactly.
\<close>

theorem excludeAddresses1_terminates:
  assumes "canonical s" and "canonical ip" and "subnetOf ip s" and "ip \<noteq> s"
  shows "\<exists>rs. excludeAddresses1 s ip = Some rs \<and> disjoint_list rs \<and>
    covers_list rs = covers s - covers ip \<and>
    int (length rs) = m_prefixLength ip - m_prefixLength s"
  using excludeAddresses1_ok [OF assms] by (auto simp: range_difference_def)

theorem excludeAddresses1_terminates_witness:
  "\<exists>rs. excludeAddresses1 \<lparr>m_address = HostV4 0, m_prefixLength = 0\<rparr>
      \<lparr>m_address = HostV4 0xC0A80001, m_prefixLength = 32\<rparr> = Some rs \<and> length rs = 32"
proof -
  let ?s = "\<lparr>m_address = HostV4 0, m_prefixLength = 0\<rparr>"
  let ?e = "\<lparr>m_address = HostV4 0xC0A80001, m_prefixLength = 32\<rparr>"
  have "canonical ?s" "canonical ?e" "subnetOf ?e ?s" "?e \<noteq> ?s" by code_simp+
  from excludeAddresses1_terminates [OF this] show ?thesis by auto
qed

text \<open>
  \<open>contains\<close>, which compares whole bytes and then the remaining bits, holds exactly for
  the addresses of the same family that agree with the range on every bit of its prefix.
\<close>

theorem contains_prefix_bits:
  assumes "ip_wf ip" and "addr_wf a"
  shows "contains ip a \<longleftrightarrow> protocol a = protocol (m_address ip) \<and>
    (\<forall>i < nat (m_prefixLength ip). abit (m_address ip) i = abit a i)"
  using assms by (rule contains_iff)

theorem contains_prefix_bits_witness:
  "abit (HostV4 0xAC100000) 11 = abit (HostV4 0xAC1F0101) 11"
proof -
  let ?ip = "\<lparr>m_address = HostV4 0xAC100000, m_prefixLength = 12\<rparr>"
  have "ip_wf ?ip" "addr_wf (HostV4 0xAC1F0101)" "contains ?ip (HostV4 0xAC1F0101)" by code_simp+
  with contains_prefix_bits [of ?ip "HostV4 0xAC1F0101"] show ?thesis by simp
qed

text \<open>
  Two ranges overlap exactly when they share an address, and a canonical range is a
  subnet of another exactly when its addresses are among the other's.
\<close>

theorem overlaps_subnetOf_sets:
  assumes "canonical x" and "ip_wf y"
  shows "(overlaps x y \<longleftrightarrow> covers x \<inter> covers y \<noteq> {}) \<and> (subnetOf x y \<longleftrightarrow> covers x \<subseteq> covers y)"
  using overlaps_iff [OF canonical_wf [OF assms(1)] assms(2)] subnetOf_iff [OF assms] by simp

theorem overlaps_subnetOf_sets_witness:
  "covers \<lparr>m_address = HostV4 0x0A400000, m_prefixLength = 10\<rparr> \<subseteq>
   covers \<lparr>m_address = HostV4 0x0A000000, m_prefixLength = 8\<rparr>"
proof -
  let ?x = "\<lparr>m_address = HostV4 0x0A400000, m_prefixLength = 10\<rparr>"
  let ?y = "\<lparr>m_address = HostV4 0x0A000000, m_prefixLength = 8\<rparr>"
  have "canonical ?x" "ip_wf ?y" "subnetOf ?x ?y" by code_simp+
  with overlaps_subnetOf_sets [of ?x ?y] show ?thesis by simp
qed

text \<open>
  In both families the netmask has ones on the prefix, the host mask has ones after
  it, and the broadcast address keeps the address and sets every bit after the prefix.
\<close>

theorem masks_bits:
  assumes "ip_wf ip" and "i < width (m_address ip)"
  shows "(abit (netmask ip) i \<longleftrightarrow> i < nat (m_prefixLength ip)) \<and>
    (abit (hostmask ip) i \<longleftrightarrow> nat (m_prefixLength ip) \<le> i) \<and>
    (abit (broadcastAddress ip) i \<longleftrightarrow> abit (m_address ip) i \<or> nat (m_prefixLength ip) \<le> i)"
  using netmask_bits [OF assms] hostmask_bits [OF assms] broadcast_bits [OF assms] by simp

theorem masks_bits_witness:
  "abit (netmask \<lparr>m_address = HostV6 (replicate 16 0), m_prefixLength = 61\<rparr>) 60 \<and>
   abit (hostmask \<lparr>m_address = HostV6 (replicate 16 0), m_prefixLength = 61\<rparr>) 61"
proof -
  let ?ip = "\<lparr>m_address = HostV6 (replicate 16 0), m_prefixLength = 61\<rparr>"
  have wf: "ip_wf ?ip" by code_simp
  show ?thesis using masks_bits [OF wf, of 60] masks_bits [OF wf, of 61] by simp
qed

text \<open>
  C34: the loop relies on canonical ranges. When the range to remove is a direct half of
  the source by prefix length but its address equals neither half, which a source with
  host bits set produces, the loop never returns in a release build.
\<close>

theorem exclude_spins_on_host_bits:
  assumes "subnets s = [u, v]" and "u \<noteq> ip" and "v \<noteq> ip" and "subnetOf ip u"
    and "m_prefixLength ip = m_prefixLength u" and "ip_wf u"
    and "m_prefixLength u < int (width (m_address u))"
  shows "excludeAddresses1 s ip = None"
proof -
  obtain b where b: "subnets u = [\<lparr>m_address = m_address u, m_prefixLength = m_prefixLength u + 1\<rparr>,
      \<lparr>m_address = b, m_prefixLength = m_prefixLength u + 1\<rparr>]"
    using subnets_split [OF assms(6,7)] by metis
  have "excludeAddresses1 s ip = exclude_loop ip (subnets u) ([] @ [v])"
    unfolding excludeAddresses1_def assms(1) using assms(2-4) by (rule exclude_loop_steps(3))
  also have "\<dots> = None"
    unfolding b by (rule exclude_loop_stuck) (use assms(5) in \<open>auto simp: subnetOf_def\<close>)
  finally show ?thesis .
qed

theorem exclude_spins_on_host_bits_witness:
  "excludeAddresses1 \<lparr>m_address = HostV4 0x0A000001, m_prefixLength = 8\<rparr>
     \<lparr>m_address = HostV4 0x0A000000, m_prefixLength = 9\<rparr> = None"
  by (rule exclude_spins_on_host_bits
        [of _ "\<lparr>m_address = HostV4 0x0A000001, m_prefixLength = 9\<rparr>"
              "\<lparr>m_address = HostV4 0x0A800001, m_prefixLength = 9\<rparr>"]) code_simp+

end
