(* ===== verification/Qt_Values.thy ===== *)
theory Qt_Values
  imports Prelude "HOL-Library.Sublist"
begin

text \<open>
  The Qt value types that the sources pass around: strings and byte arrays (lists of
  Latin-1 code units), decimal numbers, JSON values and objects, and the variants kept in
  the settings store. Only the accessors the sources call are defined.
\<close>

type_synonym QString = string
type_synonym QByteArray = string

section \<open>Strings\<close>

definition isSpace :: "char \<Rightarrow> bool" where
  "isSpace c = (let n = (of_char c :: nat) in (9 \<le> n \<and> n \<le> 13) \<or> n = 32 \<or> n = 133 \<or> n = 160)"

definition trimmed :: "QString \<Rightarrow> QString" where
  "trimmed s = rev (dropWhile isSpace (rev (dropWhile isSpace s)))"

definition toLower :: "QString \<Rightarrow> QString" where
  "toLower s = map (\<lambda>c. let n = (of_char c :: nat) in
     if (65 \<le> n \<and> n \<le> 90) \<or> (192 \<le> n \<and> n \<le> 222 \<and> n \<noteq> 215) then char_of (n + 32) else c) s"

definition isDigit :: "char \<Rightarrow> bool" where
  "isDigit c = (let n = (of_char c :: nat) in 48 \<le> n \<and> n \<le> 57)"

definition digitValue :: "char \<Rightarrow> nat" where
  "digitValue c = of_char c - 48"

definition digitChar :: "nat \<Rightarrow> char" where
  "digitChar d = char_of (48 + d)"

fun number :: "nat \<Rightarrow> QString" where
  "number n = (if n < 10 then [digitChar n] else number (n div 10) @ [digitChar (n mod 10)])"

declare number.simps [simp del]

definition digits_value :: "QString \<Rightarrow> nat" where
  "digits_value s = foldl (\<lambda>acc c. 10 * acc + digitValue c) 0 s"

definition toInt :: "QString \<Rightarrow> int option" where
  "toInt s =
     (let t = trimmed s;
          (neg, ds) = (case t of c # cs \<Rightarrow> if c = CHR ''-'' then (True, cs)
                                           else if c = CHR ''+'' then (False, cs) else (False, t)
                               | [] \<Rightarrow> (False, []));
          v = (if neg then - int (digits_value ds) else int (digits_value ds))
      in if ds \<noteq> [] \<and> list_all isDigit ds \<and> - 2147483648 \<le> v \<and> v \<le> 2147483647
         then Some v else None)"

lemma dropWhile_hd_not: "xs = [] \<or> \<not> P (hd xs) \<Longrightarrow> dropWhile P xs = xs"
  by (cases xs) auto

lemma trimmed_idem [simp]: "trimmed (trimmed s) = trimmed s"
proof -
  define d where "d = dropWhile isSpace s"
  define e where "e = dropWhile isSpace (rev d)"
  have d0: "d = [] \<or> \<not> isSpace (hd d)"
    unfolding d_def using hd_dropWhile by blast
  have e0: "e = [] \<or> \<not> isSpace (hd e)"
    unfolding e_def using hd_dropWhile by blast
  have t: "trimmed s = rev e" by (simp add: trimmed_def d_def e_def)
  have "rev e = [] \<or> \<not> isSpace (hd (rev e))"
  proof (cases "e = []")
    case False
    obtain zs where "rev d = zs @ e" unfolding e_def by (metis takeWhile_dropWhile_id)
    then have "d = rev e @ rev zs" by (metis rev_append rev_rev_ident)
    with False d0 show ?thesis by auto
  qed simp
  then have "dropWhile isSpace (rev e) = rev e" by (rule dropWhile_hd_not)
  moreover from e0 have "dropWhile isSpace e = e" by (rule dropWhile_hd_not)
  ultimately show ?thesis unfolding t by (simp add: trimmed_def)
qed

lemma digits_value_snoc [simp]: "digits_value (s @ [c]) = 10 * digits_value s + digitValue c"
  by (simp add: digits_value_def)

lemma digitValue_digitChar: "d < 10 \<Longrightarrow> digitValue (digitChar d) = d"
  by (simp add: digitValue_def digitChar_def)

lemma digits_value_number [simp]: "digits_value (number n) = n"
proof (induction n rule: number.induct)
  case (1 n)
  show ?case
  proof (cases "n < 10")
    case True
    then show ?thesis
      by (subst number.simps) (simp add: digits_value_def digitValue_digitChar)
  next
    case False
    then show ?thesis using 1
      by (subst number.simps) (simp add: digitValue_digitChar)
  qed
qed

lemma number_inject [simp]: "number m = number n \<longleftrightarrow> m = n"
  by (metis digits_value_number)

section \<open>JSON\<close>

datatype QJsonValue =
    JUndefined | JNull | JBool bool | JDouble rat | JString QString
  | JArray "QJsonValue list" | JObject "(QString \<times> QJsonValue) list"

type_synonym QJsonObject = "(QString \<times> QJsonValue) list"

fun json_toString :: "QJsonValue \<Rightarrow> QString" where
  "json_toString (JString s) = s"
| "json_toString _ = ''''"

fun json_toBool :: "QJsonValue \<Rightarrow> bool" where
  "json_toBool (JBool b) = b"
| "json_toBool _ = False"

fun json_toInt :: "int \<Rightarrow> QJsonValue \<Rightarrow> int" where
  "json_toInt d (JDouble x) =
     (if x = of_int \<lfloor>x\<rfloor> \<and> - 2147483648 \<le> \<lfloor>x\<rfloor> \<and> \<lfloor>x\<rfloor> \<le> 2147483647 then \<lfloor>x\<rfloor> else d)"
| "json_toInt d _ = d"

fun json_toDouble :: "QJsonValue \<Rightarrow> rat" where
  "json_toDouble (JDouble x) = x"
| "json_toDouble _ = 0"

text \<open>
  The conversion of a floating point number to a signed integer of a width: it truncates, and
  C++ does not say what it gives outside the range.
\<close>

definition cast_signed :: "nat \<Rightarrow> (rat \<Rightarrow> int) \<Rightarrow> rat \<Rightarrow> int" where
  "cast_signed bits overflow x =
     (let t = (if x < 0 then \<lceil>x\<rceil> else \<lfloor>x\<rfloor>)
      in if - (2 ^ (bits - 1)) \<le> t \<and> t < 2 ^ (bits - 1) then t else overflow x)"

fun json_toArray :: "QJsonValue \<Rightarrow> QJsonValue list" where
  "json_toArray (JArray xs) = xs"
| "json_toArray _ = []"

fun json_toObject :: "QJsonValue \<Rightarrow> QJsonObject" where
  "json_toObject (JObject kvs) = kvs"
| "json_toObject _ = []"

fun isString :: "QJsonValue \<Rightarrow> bool" where
  "isString (JString s) = True"
| "isString _ = False"

fun isDouble :: "QJsonValue \<Rightarrow> bool" where
  "isDouble (JDouble x) = True"
| "isDouble _ = False"

fun isBool :: "QJsonValue \<Rightarrow> bool" where
  "isBool (JBool b) = True"
| "isBool _ = False"

fun isArray :: "QJsonValue \<Rightarrow> bool" where
  "isArray (JArray xs) = True"
| "isArray _ = False"

fun isObject :: "QJsonValue \<Rightarrow> bool" where
  "isObject (JObject kvs) = True"
| "isObject _ = False"

definition obj_value :: "QJsonObject \<Rightarrow> QString \<Rightarrow> QJsonValue" where
  "obj_value obj k = (case map_of obj k of None \<Rightarrow> JUndefined | Some v \<Rightarrow> v)"

definition obj_contains :: "QJsonObject \<Rightarrow> QString \<Rightarrow> bool" where
  "obj_contains obj k = (map_of obj k \<noteq> None)"

definition obj_insert :: "QString \<Rightarrow> QJsonValue \<Rightarrow> QJsonObject \<Rightarrow> QJsonObject" where
  "obj_insert k v obj = AList.update k v obj"

definition obj_remove :: "QString \<Rightarrow> QJsonObject \<Rightarrow> QJsonObject" where
  "obj_remove k obj = AList.delete k obj"

lemma obj_value_insert [simp]:
  "obj_value (obj_insert k v obj) k' = (if k' = k then v else obj_value obj k')"
  by (simp add: obj_value_def obj_insert_def update_conv')

lemma obj_value_remove [simp]:
  "obj_value (obj_remove k obj) k' = (if k' = k then JUndefined else obj_value obj k')"
  by (simp add: obj_value_def obj_remove_def delete_conv')

lemma obj_contains_insert [simp]:
  "obj_contains (obj_insert k v obj) k' \<longleftrightarrow> k' = k \<or> obj_contains obj k'"
  by (simp add: obj_contains_def obj_insert_def update_conv')

lemma obj_contains_remove [simp]:
  "obj_contains (obj_remove k obj) k' \<longleftrightarrow> k' \<noteq> k \<and> obj_contains obj k'"
  by (simp add: obj_contains_def obj_remove_def delete_conv')

lemma obj_remove_absent: "k \<notin> fst ` set obj \<Longrightarrow> obj_remove k obj = obj"
  by (simp add: obj_remove_def)

lemma obj_remove_insert [simp]: "obj_remove k (obj_insert k v obj) = obj_remove k obj"
  unfolding obj_remove_def obj_insert_def by (induction obj) auto

lemma obj_remove_idem [simp]: "obj_remove k (obj_remove k obj) = obj_remove k obj"
  by (simp add: obj_remove_def delete_idem)

section \<open>Variants of the settings store\<close>

datatype QVariant =
    VInvalid | VBool bool | VInt int | VString QString | VByteArray QByteArray
  | VStringList "QString list" | VMap "(QString \<times> QVariant) list" | VJsonArray "QJsonValue list"

definition int_number :: "int \<Rightarrow> QString" where
  "int_number i = (if i < 0 then CHR ''-'' # number (nat (- i)) else number (nat i))"

fun variant_toString :: "QVariant \<Rightarrow> QString" where
  "variant_toString VInvalid = ''''"
| "variant_toString (VBool b) = (if b then ''true'' else ''false'')"
| "variant_toString (VInt i) = int_number i"
| "variant_toString (VString s) = s"
| "variant_toString (VByteArray b) = b"
| "variant_toString (VStringList l) = (case l of [t] \<Rightarrow> t | _ \<Rightarrow> '''')"
| "variant_toString _ = ''''"

fun variant_toByteArray :: "QVariant \<Rightarrow> QByteArray" where
  "variant_toByteArray (VStringList l) = ''''"
| "variant_toByteArray v = variant_toString v"

fun variant_toInt :: "QVariant \<Rightarrow> int" where
  "variant_toInt VInvalid = 0"
| "variant_toInt (VBool b) = (if b then 1 else 0)"
| "variant_toInt (VInt i) = i"
| "variant_toInt (VString s) = (case toInt s of None \<Rightarrow> 0 | Some i \<Rightarrow> i)"
| "variant_toInt (VByteArray b) = (case toInt b of None \<Rightarrow> 0 | Some i \<Rightarrow> i)"
| "variant_toInt _ = 0"

text \<open>A string is false when it is empty, \<open>0\<close> or \<open>false\<close> in any case.\<close>

fun variant_toBool :: "QVariant \<Rightarrow> bool" where
  "variant_toBool VInvalid = False"
| "variant_toBool (VBool b) = b"
| "variant_toBool (VInt i) = (i \<noteq> 0)"
| "variant_toBool (VString t) = (toLower t \<notin> {'''', ''0'', ''false''})"
| "variant_toBool (VByteArray t) = (toLower t \<notin> {'''', ''0'', ''false''})"
| "variant_toBool _ = False"

text \<open>A single string is a list of one element.\<close>

fun variant_toStringList :: "QVariant \<Rightarrow> QString list" where
  "variant_toStringList (VStringList l) = l"
| "variant_toStringList (VString t) = [t]"
| "variant_toStringList _ = []"

fun variant_toMap :: "QVariant \<Rightarrow> (QString \<times> QVariant) list" where
  "variant_toMap (VMap kvs) = kvs"
| "variant_toMap _ = []"

fun variant_toJsonArray :: "QVariant \<Rightarrow> QJsonValue list" where
  "variant_toJsonArray (VJsonArray vs) = vs"
| "variant_toJsonArray _ = []"

end
