(* ===== verification/Settings_Store.thy ===== *)
theory Settings_Store
  imports Qt_Values
begin

text \<open>
  \<open>SecureQSettings\<close> (\<^verbatim>\<open>client/secureQSettings.cpp\<close>): the settings file with a read cache in
  front of it, and the two keys whose values are encrypted at rest with a key and an IV
  kept in the system key chain. The cipher, the \<open>QDataStream\<close> coding, the random source
  and the key chain are parameters (the record \<open>settings_env\<close>); the mutex is not modelled.
  The locale \<open>settings_store\<close> is what the repositories rely on.
\<close>

section \<open>State\<close>

record settings_env =
  encryptAes256Cbc :: "QByteArray \<Rightarrow> QByteArray \<Rightarrow> QByteArray \<Rightarrow> QByteArray"
  decryptAes256Cbc :: "QByteArray \<Rightarrow> QByteArray \<Rightarrow> QByteArray \<Rightarrow> QByteArray"
  ds_write :: "QVariant \<Rightarrow> QByteArray"
  ds_read :: "QByteArray \<Rightarrow> QVariant"
  generateRandomBytes :: "QString \<Rightarrow> QByteArray"
  keychain_write :: "(QString \<Rightarrow> QByteArray) \<Rightarrow> QString \<Rightarrow> QByteArray \<Rightarrow> (QString \<Rightarrow> QByteArray)"
  os_linux :: bool

record SecureQSettings =
  m_settings :: "(QString \<times> QVariant) list"
  m_cache :: "QString \<rightharpoonup> QVariant"
  m_key :: QByteArray
  m_iv :: QByteArray
  keychain :: "QString \<Rightarrow> QByteArray"
  m_encryptionEnabled :: bool

definition encryptedKeys :: "QString list" where
  "encryptedKeys = [''Servers/serversList'', ''TunnelCore/accessToken'']"

definition magicString :: QByteArray where
  "magicString = ''EncData''"

definition settingsKeyTag :: QString where
  "settingsKeyTag = ''settingsKeyTag''"

definition settingsIvTag :: QString where
  "settingsIvTag = ''settingsIvTag''"

section \<open>Operations\<close>

definition encryptionRequired :: "'e settings_env_scheme \<Rightarrow> SecureQSettings \<Rightarrow> bool" where
  "encryptionRequired env s =
     (if \<not> m_encryptionEnabled s then False else if os_linux env then False else True)"

definition getEncKey ::
  "'e settings_env_scheme \<Rightarrow> SecureQSettings \<Rightarrow> QByteArray \<times> SecureQSettings" where
  "getEncKey env s =
     (if m_key s \<noteq> [] then (m_key s, s)
      else
        let s1 = s\<lparr>m_key := keychain s settingsKeyTag\<rparr> in
        if m_key s1 = [] then
          let key = generateRandomBytes env settingsKeyTag;
              kc = keychain_write env (keychain s1) settingsKeyTag key;
              s2 = s1\<lparr>keychain := kc, m_key := kc settingsKeyTag\<rparr>
          in if key \<noteq> m_key s2 then ([], s2) else (m_key s2, s2)
        else (m_key s1, s1))"

definition getEncIv ::
  "'e settings_env_scheme \<Rightarrow> SecureQSettings \<Rightarrow> QByteArray \<times> SecureQSettings" where
  "getEncIv env s =
     (if m_iv s \<noteq> [] then (m_iv s, s)
      else
        let s1 = s\<lparr>m_iv := keychain s settingsIvTag\<rparr> in
        if m_iv s1 = [] then
          let iv = generateRandomBytes env settingsIvTag;
              kc = keychain_write env (keychain s1) settingsIvTag iv;
              s2 = s1\<lparr>keychain := kc, m_iv := kc settingsIvTag\<rparr>
          in if iv \<noteq> m_iv s2 then ([], s2) else (m_iv s2, s2)
        else (m_iv s1, s1))"

definition encryptText ::
  "'e settings_env_scheme \<Rightarrow> QByteArray \<Rightarrow> SecureQSettings \<Rightarrow> QByteArray \<times> SecureQSettings" where
  "encryptText env v s =
     (let (k, s1) = getEncKey env s; (iv, s2) = getEncIv env s1
      in (encryptAes256Cbc env v k iv, s2))"

definition decryptText ::
  "'e settings_env_scheme \<Rightarrow> QByteArray \<Rightarrow> SecureQSettings \<Rightarrow> QByteArray \<times> SecureQSettings" where
  "decryptText env ba s =
     (let (k, s1) = getEncKey env s; (iv, s2) = getEncIv env s1
      in (decryptAes256Cbc env ba k iv, s2))"

fun has_magic :: "QVariant \<Rightarrow> bool" where
  "has_magic (VByteArray b) = (take (length magicString) b = magicString)"
| "has_magic _ = False"

definition settings_value ::
  "'e settings_env_scheme \<Rightarrow> QString \<Rightarrow> QVariant \<Rightarrow> SecureQSettings \<Rightarrow> QVariant \<times> SecureQSettings" where
  "settings_value env key defaultValue s =
     (case m_cache s key of
        Some v \<Rightarrow> (v, s)
      | None \<Rightarrow>
          (case map_of (m_settings s) key of
             None \<Rightarrow> (defaultValue, s)
           | Some retVal \<Rightarrow>
               if has_magic retVal then
                 let (k, s1) = getEncKey env s in
                 if k = [] then (VInvalid, s1)
                 else
                   let (iv, s2) = getEncIv env s1 in
                   if iv = [] then (VInvalid, s2)
                   else
                     let (dec, s3) =
                           decryptText env (drop (length magicString) (variant_toByteArray retVal)) s2;
                         v = ds_read env dec
                     in (v, s3\<lparr>m_cache := (m_cache s3)(key \<mapsto> v)\<rparr>)
               else (retVal, s\<lparr>m_cache := (m_cache s)(key \<mapsto> retVal)\<rparr>)))"

definition setValue ::
  "'e settings_env_scheme \<Rightarrow> QString \<Rightarrow> QVariant \<Rightarrow> SecureQSettings \<Rightarrow> SecureQSettings" where
  "setValue env key v s =
     (if encryptionRequired env s \<and> key \<in> set encryptedKeys then
        let (k, s1) = getEncKey env s in
        if k = [] then s1
        else
          let (iv, s2) = getEncIv env s1 in
          if iv = [] then s2
          else
            let (enc, s3) = encryptText env (ds_write env v) s2
            in s3\<lparr>m_settings := AList.update key (VByteArray (magicString @ enc)) (m_settings s3),
                  m_cache := (m_cache s3)(key \<mapsto> v)\<rparr>
      else s\<lparr>m_settings := AList.update key v (m_settings s), m_cache := (m_cache s)(key \<mapsto> v)\<rparr>)"

text \<open>\<open>QSettings::remove\<close> also removes the children of the key; the cache entry is the key's own.\<close>

definition settings_remove :: "QString \<Rightarrow> SecureQSettings \<Rightarrow> SecureQSettings" where
  "settings_remove key s =
     s\<lparr>m_settings := filter (\<lambda>(k, v). k \<noteq> key \<and> \<not> prefix (key @ ''/'') k) (m_settings s),
       m_cache := (m_cache s)(key := None)\<rparr>"

definition clearSettings :: "SecureQSettings \<Rightarrow> SecureQSettings" where
  "clearSettings s = s\<lparr>m_settings := [], m_cache := Map.empty\<rparr>"

text \<open>
  The constructor opens the file with an empty cache; a store written by a version
  without encryption has its protected values rewritten in encrypted form.
\<close>

definition rewrite_encrypted ::
  "'e settings_env_scheme \<Rightarrow> QString \<Rightarrow> SecureQSettings \<Rightarrow> SecureQSettings" where
  "rewrite_encrypted env key s =
     (if key \<in> set encryptedKeys
      then let (v, s1) = settings_value env key VInvalid s in setValue env key v s1
      else s)"

definition open_settings ::
  "'e settings_env_scheme \<Rightarrow> bool \<Rightarrow> (QString \<Rightarrow> QByteArray) \<Rightarrow> (QString \<times> QVariant) list \<Rightarrow> SecureQSettings" where
  "open_settings env enableEncryption kc file =
     (let s = \<lparr>m_settings = file, m_cache = Map.empty, m_key = [], m_iv = [], keychain = kc,
               m_encryptionEnabled = enableEncryption\<rparr>;
          encrypted = (case map_of file ''Conf/encrypted'' of None \<Rightarrow> False | Some v \<Rightarrow> variant_toBool v)
      in if encryptionRequired env s \<and> \<not> encrypted then
           let s1 = fold (rewrite_encrypted env) (map fst file) s
           in s1\<lparr>m_settings := AList.update ''Conf/encrypted'' (VBool True) (m_settings s1)\<rparr>
         else s)"

text \<open>
  Backup and restore. The conversions between variants and JSON values and the JSON text
  itself are Qt's; the backup object and the parsed object are what the code builds and reads.
\<close>

definition m_fieldsToBackup :: "QString list" where
  "m_fieldsToBackup = [''Conf/'', ''Servers/'']"

definition needToBackup :: "QString \<Rightarrow> bool" where
  "needToBackup key =
     list_ex (\<lambda>item. key \<noteq> ''Conf/installationUuid'' \<and> prefix item key) m_fieldsToBackup"

fun backup_entries ::
  "'e settings_env_scheme \<Rightarrow> (QVariant \<Rightarrow> QJsonValue) \<Rightarrow> QString list \<Rightarrow> QJsonObject \<Rightarrow> SecureQSettings
   \<Rightarrow> QJsonObject \<times> SecureQSettings" where
  "backup_entries env fromVariant [] cfg s = (cfg, s)"
| "backup_entries env fromVariant (key # keys) cfg s =
     (if \<not> needToBackup key then backup_entries env fromVariant keys cfg s
      else let (v, s1) = settings_value env key VInvalid s
           in backup_entries env fromVariant keys (obj_insert key (fromVariant v) cfg) s1)"

definition backupAppConfig ::
  "'e settings_env_scheme \<Rightarrow> (QVariant \<Rightarrow> QJsonValue) \<Rightarrow> SecureQSettings
   \<Rightarrow> QJsonObject \<times> SecureQSettings" where
  "backupAppConfig env fromVariant s = backup_entries env fromVariant (map fst (m_settings s)) [] s"

definition restoreAppConfig ::
  "'e settings_env_scheme \<Rightarrow> (QJsonValue \<Rightarrow> QVariant) \<Rightarrow> QJsonObject \<Rightarrow> SecureQSettings
   \<Rightarrow> bool \<times> SecureQSettings" where
  "restoreAppConfig env toVariant cfg s =
     (if cfg = [] then (False, s)
      else (True, fold (\<lambda>(key, v) s. if key = ''Conf/installationUuid'' then s
                                     else setValue env key (toVariant v) s) cfg s))"

section \<open>The interface of the store\<close>

text \<open>
  What a client may rely on: a value that was written is held from then on, other writes
  keep it, and reading a held value returns it and leaves the store as it is.
\<close>

locale settings_store =
  fixes get :: "'s \<Rightarrow> QString \<Rightarrow> QVariant \<Rightarrow> QVariant \<times> 's"
    and put :: "'s \<Rightarrow> QString \<Rightarrow> QVariant \<Rightarrow> 's"
    and holds :: "'s \<Rightarrow> QString \<Rightarrow> QVariant \<Rightarrow> bool"
    and ok :: "'s \<Rightarrow> bool"
  assumes put_ok: "ok s \<Longrightarrow> ok (put s k v)"
    and put_holds: "ok s \<Longrightarrow> holds (put s k v) k v"
    and put_keeps: "holds s k' v' \<Longrightarrow> k' \<noteq> k \<Longrightarrow> holds (put s k v) k' v'"
    and get_holds: "holds s k v \<Longrightarrow> get s k d = (v, s)"
begin

lemma get_put: "ok s \<Longrightarrow> get (put s k v) k d = (v, put s k v)"
  by (simp add: put_holds get_holds)

lemma put_put_holds:
  "ok s \<Longrightarrow> k \<noteq> k' \<Longrightarrow> holds (put (put s k v) k' v') k v \<and> holds (put (put s k v) k' v') k' v'"
  by (simp add: put_holds put_keeps put_ok)

lemma put_list_keeps:
  "holds s k v \<Longrightarrow> k \<notin> fst ` set kvs \<Longrightarrow> holds (fold (\<lambda>(k, v) s. put s k v) kvs s) k v"
  by (induction kvs arbitrary: s) (auto simp: put_keeps)

end

definition keys_usable :: "'e settings_env_scheme \<Rightarrow> SecureQSettings \<Rightarrow> bool" where
  "keys_usable env s =
     (let (k, s1) = getEncKey env s in k \<noteq> [] \<and> fst (getEncIv env s1) \<noteq> [])"

definition store_ok :: "'e settings_env_scheme \<Rightarrow> SecureQSettings \<Rightarrow> bool" where
  "store_ok env s = (\<not> encryptionRequired env s \<or> keys_usable env s)"

definition store_holds :: "SecureQSettings \<Rightarrow> QString \<Rightarrow> QVariant \<Rightarrow> bool" where
  "store_holds s k v = (m_cache s k = Some v)"

lemma getEncKey_key: "getEncKey env s = (k, t) \<Longrightarrow> k \<noteq> [] \<Longrightarrow> m_key t = k"
  by (auto simp: getEncKey_def Let_def split: if_splits)

lemma getEncIv_iv: "getEncIv env s = (k, t) \<Longrightarrow> k \<noteq> [] \<Longrightarrow> m_iv t = k"
  by (auto simp: getEncIv_def Let_def split: if_splits)

lemma getEncKey_frame:
  "getEncKey env s = (k, t) \<Longrightarrow> m_settings t = m_settings s \<and> m_cache t = m_cache s \<and>
     m_iv t = m_iv s \<and> m_encryptionEnabled t = m_encryptionEnabled s"
  by (auto simp: getEncKey_def Let_def split: if_splits)

lemma getEncIv_frame:
  "getEncIv env s = (k, t) \<Longrightarrow> m_settings t = m_settings s \<and> m_cache t = m_cache s \<and>
     m_key t = m_key s \<and> m_encryptionEnabled t = m_encryptionEnabled s"
  by (auto simp: getEncIv_def Let_def split: if_splits)

lemma getEncKey_loaded: "m_key s \<noteq> [] \<Longrightarrow> getEncKey env s = (m_key s, s)"
  by (simp add: getEncKey_def)

lemma getEncIv_loaded: "m_iv s \<noteq> [] \<Longrightarrow> getEncIv env s = (m_iv s, s)"
  by (simp add: getEncIv_def)

lemma keys_usableE:
  assumes "keys_usable env s"
  obtains k s1 iv s2 where
    "getEncKey env s = (k, s1)" "k \<noteq> []" "getEncIv env s1 = (iv, s2)" "iv \<noteq> []"
    "m_key s2 = k" "m_iv s2 = iv" "m_settings s2 = m_settings s" "m_cache s2 = m_cache s"
    "m_encryptionEnabled s2 = m_encryptionEnabled s"
proof -
  obtain k s1 where k: "getEncKey env s = (k, s1)" by fastforce
  obtain iv s2 where iv: "getEncIv env s1 = (iv, s2)" by fastforce
  have "k \<noteq> []" "iv \<noteq> []" using assms k iv by (auto simp: keys_usable_def)
  with k iv getEncKey_key[OF k] getEncIv_iv[OF iv] getEncKey_frame[OF k] getEncIv_frame[OF iv]
  show ?thesis by (intro that[OF k _ iv]) auto
qed

lemma setValue_encrypted:
  assumes "encryptionRequired env s" "key \<in> set encryptedKeys"
    and "getEncKey env s = (k, s1)" "k \<noteq> []" "getEncIv env s1 = (iv, s2)" "iv \<noteq> []"
    and "m_key s2 = k" "m_iv s2 = iv"
  shows "setValue env key v s =
    s2\<lparr>m_settings := AList.update key
         (VByteArray (magicString @ encryptAes256Cbc env (ds_write env v) k iv)) (m_settings s2),
       m_cache := (m_cache s2)(key \<mapsto> v)\<rparr>"
  using assms by (simp add: setValue_def encryptText_def getEncKey_loaded getEncIv_loaded)

lemma setValue_plain:
  assumes "\<not> (encryptionRequired env s \<and> key \<in> set encryptedKeys)"
  shows "setValue env key v s =
    s\<lparr>m_settings := AList.update key v (m_settings s), m_cache := (m_cache s)(key \<mapsto> v)\<rparr>"
  using assms by (auto simp: setValue_def)

lemma keys_usable_update [simp]:
  "keys_usable env (s\<lparr>m_settings := f, m_cache := c\<rparr>) = keys_usable env s"
  by (auto simp: keys_usable_def getEncKey_def getEncIv_def Let_def)

lemma encryptionRequired_update [simp]:
  "encryptionRequired env (s\<lparr>m_settings := f, m_cache := c\<rparr>) = encryptionRequired env s"
  by (simp add: encryptionRequired_def)

lemma store_ok_setValue:
  assumes "store_ok env s"
  shows "store_ok env (setValue env key v s) \<and> m_cache (setValue env key v s) = (m_cache s)(key \<mapsto> v)"
proof (cases "encryptionRequired env s \<and> key \<in> set encryptedKeys")
  case False
  then show ?thesis using assms by (simp add: setValue_plain store_ok_def)
next
  case True
  then have "keys_usable env s" using assms by (simp add: store_ok_def)
  then obtain k s1 iv s2 where h:
    "getEncKey env s = (k, s1)" "k \<noteq> []" "getEncIv env s1 = (iv, s2)" "iv \<noteq> []"
    "m_key s2 = k" "m_iv s2 = iv" "m_settings s2 = m_settings s" "m_cache s2 = m_cache s"
    by (rule keys_usableE)
  have "keys_usable env s2"
    using h by (simp add: keys_usable_def getEncKey_loaded getEncIv_loaded)
  with True h setValue_encrypted[OF _ _ h(1-6), of key v] show ?thesis
    by (simp add: store_ok_def)
qed

lemma cache_getEnc [simp]:
  "m_cache (snd (getEncKey env s)) = m_cache s" "m_cache (snd (getEncIv env s)) = m_cache s"
  by (simp_all add: getEncKey_def getEncIv_def Let_def)

lemma setValue_keeps:
  assumes "store_holds s k' v'" "k' \<noteq> key"
  shows "store_holds (setValue env key v s) k' v'"
  using assms
  by (simp add: setValue_def encryptText_def store_holds_def Let_def case_prod_beta)

interpretation sqs: settings_store
  "\<lambda>s k d. settings_value env k d s" "\<lambda>s k v. setValue env k v s" store_holds "store_ok env"
  for env :: "'e settings_env_scheme"
proof unfold_locales
  fix s k v k' v' d
  show "store_ok env s \<Longrightarrow> store_ok env (setValue env k v s)"
    by (simp add: store_ok_setValue)
  show "store_ok env s \<Longrightarrow> store_holds (setValue env k v s) k v"
    by (simp add: store_ok_setValue store_holds_def)
  show "store_holds s k' v' \<Longrightarrow> k' \<noteq> k \<Longrightarrow> store_holds (setValue env k v s) k' v'"
    by (rule setValue_keeps)
  show "store_holds s k v \<Longrightarrow> settings_value env k d s = (v, s)"
    by (simp add: store_holds_def settings_value_def)
qed

definition key_synced :: "SecureQSettings \<Rightarrow> bool" where
  "key_synced s =
     ((m_key s = [] \<or> keychain s settingsKeyTag = m_key s) \<and>
      (m_iv s = [] \<or> keychain s settingsIvTag = m_iv s))"

definition keychain_stores :: "'e settings_env_scheme \<Rightarrow> bool" where
  "keychain_stores env = (\<forall>kc t b. keychain_write env kc t b = kc(t := b))"

lemma settings_getEnc:
  "m_settings (snd (getEncKey env s)) = m_settings s" "m_settings (snd (getEncIv env s)) = m_settings s"
  by (simp_all add: getEncKey_def getEncIv_def Let_def)

lemma settings_setValue_other:
  "k' \<noteq> key \<Longrightarrow> map_of (m_settings (setValue env key v s)) k' = map_of (m_settings s) k'"
  by (simp add: setValue_def encryptText_def Let_def case_prod_beta update_conv' settings_getEnc)

lemma tags_distinct [simp]: "settingsKeyTag \<noteq> settingsIvTag" "settingsIvTag \<noteq> settingsKeyTag"
  by (simp_all add: settingsKeyTag_def settingsIvTag_def)

lemma getEncKey_synced:
  "keychain_stores env \<Longrightarrow> key_synced s \<Longrightarrow> getEncKey env s = (k, t) \<Longrightarrow> key_synced t"
  by (auto simp: getEncKey_def key_synced_def keychain_stores_def Let_def split: if_splits)

lemma getEncIv_synced:
  "keychain_stores env \<Longrightarrow> key_synced s \<Longrightarrow> getEncIv env s = (k, t) \<Longrightarrow> key_synced t"
  by (auto simp: getEncIv_def key_synced_def keychain_stores_def Let_def split: if_splits)

lemma key_synced_update [simp]:
  "key_synced (s\<lparr>m_settings := f, m_cache := c\<rparr>) = key_synced s"
  by (simp add: key_synced_def)

lemma setValue_synced:
  assumes "keychain_stores env" "key_synced s" "store_ok env s"
  shows "key_synced (setValue env key v s)"
proof (cases "encryptionRequired env s \<and> key \<in> set encryptedKeys")
  case False
  then show ?thesis using assms(2) by (simp add: setValue_plain)
next
  case True
  then have "keys_usable env s" using assms by (simp add: store_ok_def)
  then obtain k s1 iv s2 where h:
    "getEncKey env s = (k, s1)" "k \<noteq> []" "getEncIv env s1 = (iv, s2)" "iv \<noteq> []"
    "m_key s2 = k" "m_iv s2 = iv"
    by (rule keys_usableE)
  have "key_synced s2"
    using getEncIv_synced[OF assms(1) getEncKey_synced[OF assms(1,2) h(1)] h(3)] .
  with True setValue_encrypted[OF _ _ h, of key v] show ?thesis by simp
qed

lemma take_magic [simp]: "take (length magicString) (magicString @ x) = magicString"
  by simp

lemma open_settings_flagged:
  assumes "os_linux env \<or> \<not> e \<or> (\<exists>v. map_of file ''Conf/encrypted'' = Some v \<and> variant_toBool v)"
  shows "open_settings env e kc file =
    \<lparr>m_settings = file, m_cache = Map.empty, m_key = [], m_iv = [], keychain = kc,
     m_encryptionEnabled = e\<rparr>"
  using assms by (auto simp: open_settings_def encryptionRequired_def Let_def)

section \<open>What a later process reads\<close>

text \<open>
  \<open>on_disk\<close> says what the file and the key chain alone determine about a key: the entry is
  the value itself, or the marker and a text that the stored key and IV decrypt to it.
\<close>

definition reopen :: "'e settings_env_scheme \<Rightarrow> SecureQSettings \<Rightarrow> SecureQSettings" where
  "reopen env s = open_settings env (m_encryptionEnabled s) (keychain s) (m_settings s)"

definition flagged :: "'e settings_env_scheme \<Rightarrow> SecureQSettings \<Rightarrow> bool" where
  "flagged env s =
     (encryptionRequired env s \<longrightarrow> map_of (m_settings s) ''Conf/encrypted'' = Some (VBool True))"

definition on_disk :: "'e settings_env_scheme \<Rightarrow> SecureQSettings \<Rightarrow> QString \<Rightarrow> QVariant \<Rightarrow> bool" where
  "on_disk env s k v =
     (map_of (m_settings s) k = Some v \<and> \<not> has_magic v \<or>
      (\<exists>enc. map_of (m_settings s) k = Some (VByteArray (magicString @ enc)) \<and>
         keychain s settingsKeyTag \<noteq> [] \<and> keychain s settingsIvTag \<noteq> [] \<and>
         ds_read env (decryptAes256Cbc env enc (keychain s settingsKeyTag) (keychain s settingsIvTag)) = v))"

definition coding_ok :: "'e settings_env_scheme \<Rightarrow> QVariant \<Rightarrow> bool" where
  "coding_ok env v =
     (ds_read env (ds_write env v) = v \<and> \<not> has_magic v \<and>
      (\<forall>k iv. k \<noteq> [] \<longrightarrow> iv \<noteq> [] \<longrightarrow>
         decryptAes256Cbc env (encryptAes256Cbc env (ds_write env v) k iv) k iv = ds_write env v))"

lemma setValue_on_disk:
  assumes "keychain_stores env" "key_synced s" "store_ok env s" "coding_ok env v"
  shows "on_disk env (setValue env key v s) key v"
proof (cases "encryptionRequired env s \<and> key \<in> set encryptedKeys")
  case False
  then show ?thesis using assms(4) by (simp add: setValue_plain on_disk_def coding_ok_def update_conv')
next
  case True
  then have "keys_usable env s" using assms(3) by (simp add: store_ok_def)
  then obtain k s1 iv s2 where h:
    "getEncKey env s = (k, s1)" "k \<noteq> []" "getEncIv env s1 = (iv, s2)" "iv \<noteq> []"
    "m_key s2 = k" "m_iv s2 = iv"
    by (rule keys_usableE)
  have t: "setValue env key v s = s2\<lparr>m_settings := AList.update key
         (VByteArray (magicString @ encryptAes256Cbc env (ds_write env v) k iv)) (m_settings s2),
       m_cache := (m_cache s2)(key \<mapsto> v)\<rparr>"
    using True setValue_encrypted[OF _ _ h] by blast
  have "key_synced (setValue env key v s)" using assms(1-3) by (rule setValue_synced)
  then have "keychain (setValue env key v s) settingsKeyTag = k"
      "keychain (setValue env key v s) settingsIvTag = iv"
    using h by (auto simp: t key_synced_def)
  then show ?thesis using assms(4) h(2,4) by (simp add: t on_disk_def coding_ok_def update_conv')
qed

lemma getEnc_keychain:
  assumes "keychain_stores env" "keychain s tag \<noteq> []"
  shows "keychain (snd (getEncKey env s)) tag = keychain s tag"
    "keychain (snd (getEncIv env s)) tag = keychain s tag"
  using assms by (auto simp: getEncKey_def getEncIv_def keychain_stores_def Let_def)

lemma setValue_keychain:
  "keychain_stores env \<Longrightarrow> keychain s tag \<noteq> [] \<Longrightarrow> keychain (setValue env key v s) tag = keychain s tag"
  by (simp add: setValue_def encryptText_def Let_def case_prod_beta getEnc_keychain)

lemma setValue_keeps_disk:
  "keychain_stores env \<Longrightarrow> on_disk env s k v \<Longrightarrow> k \<noteq> key \<Longrightarrow> on_disk env (setValue env key w s) k v"
  by (auto simp: on_disk_def settings_setValue_other setValue_keychain)

lemma encryptionEnabled_getEnc [simp]:
  "m_encryptionEnabled (snd (getEncKey env s)) = m_encryptionEnabled s"
  "m_encryptionEnabled (snd (getEncIv env s)) = m_encryptionEnabled s"
  by (simp_all add: getEncKey_def getEncIv_def Let_def)

lemma encryptionEnabled_setValue [simp]:
  "m_encryptionEnabled (setValue env key v s) = m_encryptionEnabled s"
  by (simp add: setValue_def encryptText_def Let_def case_prod_beta)

lemma encryptionRequired_setValue [simp]:
  "encryptionRequired env (setValue env key v s) = encryptionRequired env s"
  by (simp add: encryptionRequired_def)

lemma flagged_setValue: "flagged env s \<Longrightarrow> key \<noteq> ''Conf/encrypted'' \<Longrightarrow> flagged env (setValue env key v s)"
  by (simp add: flagged_def settings_setValue_other)

lemma reopen_flagged:
  assumes "flagged env s"
  shows "reopen env s = \<lparr>m_settings = m_settings s, m_cache = Map.empty, m_key = [], m_iv = [],
    keychain = keychain s, m_encryptionEnabled = m_encryptionEnabled s\<rparr>"
  unfolding reopen_def
  by (rule open_settings_flagged) (use assms in \<open>auto simp: flagged_def encryptionRequired_def\<close>)

text \<open>Reading a value that is on disk returns it and leaves every other key as it was.\<close>

definition same_disk :: "SecureQSettings \<Rightarrow> SecureQSettings \<Rightarrow> bool" where
  "same_disk s t = (m_settings t = m_settings s \<and> keychain t = keychain s \<and> key_synced t)"

lemma getEnc_synced_loaded:
  assumes "key_synced t" "keychain t settingsKeyTag \<noteq> []" "keychain t settingsIvTag \<noteq> []"
  shows "getEncKey env t = (keychain t settingsKeyTag, t\<lparr>m_key := keychain t settingsKeyTag\<rparr>)"
    "getEncIv env t = (keychain t settingsIvTag, t\<lparr>m_iv := keychain t settingsIvTag\<rparr>)"
  using assms by (auto simp: getEncKey_def getEncIv_def key_synced_def Let_def)

lemma read_on_disk:
  assumes "on_disk env s k v" "same_disk s t" "m_cache t k = None"
  obtains t' where "settings_value env k d t = (v, t')" "same_disk s t'" "m_cache t' = (m_cache t)(k \<mapsto> v)"
proof (cases "map_of (m_settings s) k = Some v \<and> \<not> has_magic v")
  case True
  then show ?thesis using assms(2,3) that[of "t\<lparr>m_cache := (m_cache t)(k \<mapsto> v)\<rparr>"]
    by (auto simp: settings_value_def same_disk_def key_synced_def)
next
  case False
  let ?key = "keychain t settingsKeyTag" and ?iv = "keychain t settingsIvTag"
  obtain enc where e: "map_of (m_settings t) k = Some (VByteArray (magicString @ enc))"
      "?key \<noteq> []" "?iv \<noteq> []" "ds_read env (decryptAes256Cbc env enc ?key ?iv) = v"
    using False assms(1,2) by (auto simp: on_disk_def same_disk_def)
  have syn: "key_synced t" using assms(2) by (simp add: same_disk_def)
  then have syn': "key_synced (t\<lparr>m_key := ?key\<rparr>)" by (simp add: key_synced_def)
  have iv: "getEncIv env (t\<lparr>m_key := ?key\<rparr>) = (?iv, t\<lparr>m_key := ?key, m_iv := ?iv\<rparr>)"
    using getEnc_synced_loaded(2)[OF syn'] e(2,3) by simp
  have "settings_value env k d t
      = (v, t\<lparr>m_key := ?key, m_iv := ?iv, m_cache := (m_cache t)(k \<mapsto> v)\<rparr>)"
    using e assms(3) getEnc_synced_loaded(1)[OF syn e(2,3), of env] iv
    by (simp add: settings_value_def decryptText_def getEncKey_loaded getEncIv_loaded)
  then show ?thesis by (rule that) (use assms(2) in \<open>simp_all add: same_disk_def key_synced_def\<close>)
qed

lemma same_disk_reopen: "flagged env s \<Longrightarrow> same_disk s (reopen env s) \<and> m_cache (reopen env s) = Map.empty"
  by (simp add: reopen_flagged same_disk_def key_synced_def)

text \<open>
  A value is saved when both the running process and a later one read it. Writing saves the
  value, and neither writes nor reads of other keys lose it.
\<close>

definition saved_value :: "'e settings_env_scheme \<Rightarrow> SecureQSettings \<Rightarrow> QString \<Rightarrow> QVariant \<Rightarrow> bool" where
  "saved_value env s k v = (on_disk env s k v \<and> store_holds s k v)"

definition disk_ready :: "'e settings_env_scheme \<Rightarrow> SecureQSettings \<Rightarrow> bool" where
  "disk_ready env s = (keychain_stores env \<and> key_synced s \<and> store_ok env s \<and> flagged env s)"

lemma disk_ready_setValue:
  "disk_ready env s \<Longrightarrow> k \<noteq> ''Conf/encrypted'' \<Longrightarrow> disk_ready env (setValue env k v s)"
  by (simp add: disk_ready_def setValue_synced store_ok_setValue flagged_setValue)

lemma saved_setValue:
  "disk_ready env s \<Longrightarrow> coding_ok env v \<Longrightarrow> saved_value env (setValue env k v s) k v"
  by (simp add: disk_ready_def saved_value_def setValue_on_disk sqs.put_holds)

lemma saved_keeps:
  "disk_ready env s \<Longrightarrow> saved_value env s k v \<Longrightarrow> k \<noteq> k' \<Longrightarrow> saved_value env (setValue env k' w s) k v"
  by (simp add: disk_ready_def saved_value_def setValue_keeps_disk sqs.put_keeps)

lemma disk_ready_cache [simp]: "disk_ready env (s\<lparr>m_cache := c\<rparr>) = disk_ready env s"
  by (auto simp: disk_ready_def key_synced_def store_ok_def flagged_def encryptionRequired_def
      keys_usable_def getEncKey_def getEncIv_def Let_def)

lemma saved_cache: "saved_value env s k v \<Longrightarrow> c k = m_cache s k \<Longrightarrow> saved_value env (s\<lparr>m_cache := c\<rparr>) k v"
  by (auto simp: saved_value_def on_disk_def store_holds_def)

lemma keys_usable_getEnc:
  assumes "keychain_stores env" "keys_usable env s"
  shows "keys_usable env (snd (getEncKey env s))" "keys_usable env (snd (getEncIv env s))"
proof -
  obtain k s1 iv s2 where h:
    "getEncKey env s = (k, s1)" "k \<noteq> []" "getEncIv env s1 = (iv, s2)" "iv \<noteq> []"
    using assms(2) by (rule keys_usableE)
  have "getEncKey env s1 = (k, s1)" using getEncKey_key[OF h(1,2)] h(2) by (simp add: getEncKey_def)
  then show "keys_usable env (snd (getEncKey env s))" using h by (simp add: keys_usable_def)
  have iv: "fst (getEncIv env s) = iv"
    using h(1,3) assms(1) by (auto simp: getEncKey_def getEncIv_def keychain_stores_def Let_def split: if_splits)
  obtain t where t: "getEncIv env s = (iv, t)" using iv by (metis prod.collapse)
  have "fst (getEncKey env t) = k"
    using h(1) t assms(1) by (auto simp: getEncKey_def getEncIv_def keychain_stores_def Let_def split: if_splits)
  moreover have "m_iv (snd (getEncKey env t)) = iv"
    using getEncIv_iv[OF t h(4)] by (simp add: getEncKey_def Let_def)
  ultimately show "keys_usable env (snd (getEncIv env s))"
    using t h(2,4) by (simp add: keys_usable_def case_prod_beta getEncIv_loaded)
qed

lemma disk_ready_getEnc:
  assumes "disk_ready env s"
  shows "disk_ready env (snd (getEncKey env s))" "disk_ready env (snd (getEncIv env s))"
  using assms keys_usable_getEnc[of env s] getEncKey_synced[OF _ _ prod.collapse [symmetric], of env s]
      getEncIv_synced[OF _ _ prod.collapse [symmetric], of env s]
  by (auto simp: disk_ready_def store_ok_def flagged_def encryptionRequired_def settings_getEnc)

lemma saved_getEnc:
  assumes "keychain_stores env" "saved_value env s k v"
  shows "saved_value env (snd (getEncKey env s)) k v" "saved_value env (snd (getEncIv env s)) k v"
  using assms by (auto simp: saved_value_def on_disk_def store_holds_def settings_getEnc getEnc_keychain)

lemma settings_value_frame:
  assumes "disk_ready env s"
  shows "disk_ready env (snd (settings_value env k d s))"
    "saved_value env s k' v' \<Longrightarrow> k' \<noteq> k \<Longrightarrow> saved_value env (snd (settings_value env k d s)) k' v'"
  using assms
  by (simp_all add: settings_value_def decryptText_def Let_def case_prod_beta disk_ready_getEnc
      saved_getEnc saved_cache disk_ready_def [of env s] split: option.split)

section \<open>Properties\<close>

text \<open>A concrete environment and store for the witnesses below.\<close>

definition example_env :: settings_env where
  "example_env =
     \<lparr>encryptAes256Cbc = (\<lambda>x k iv. rev x), decryptAes256Cbc = (\<lambda>x k iv. rev x),
       ds_write = variant_toString, ds_read = VString, generateRandomBytes = (\<lambda>t. ''k''),
       keychain_write = (\<lambda>kc t b. kc(t := b)), os_linux = False\<rparr>"

definition example_store :: SecureQSettings where
  "example_store =
     \<lparr>m_settings = [(''Conf/encrypted'', VBool True)], m_cache = Map.empty, m_key = [],
      m_iv = [], keychain = (\<lambda>t. []), m_encryptionEnabled = True\<rparr>"

lemmas example_defs = example_env_def example_store_def settingsKeyTag_def settingsIvTag_def





text \<open>
  Restoring a backup succeeds on every non-empty object, and each entry other than the
  installation id reads back as its restored value; the installation id is never overwritten.
\<close>

theorem restore_reads_back:
  assumes "store_ok env s" and "distinct (map fst cfg)" and "(key, v) \<in> set cfg"
  shows "fst (restoreAppConfig env toVariant cfg s) \<and>
    (key \<noteq> ''Conf/installationUuid'' \<longrightarrow>
       fst (settings_value env key d (snd (restoreAppConfig env toVariant cfg s))) = toVariant v) \<and>
    m_cache (snd (restoreAppConfig env toVariant cfg s)) ''Conf/installationUuid''
      = m_cache s ''Conf/installationUuid'' \<and>
    map_of (m_settings (snd (restoreAppConfig env toVariant cfg s))) ''Conf/installationUuid''
      = map_of (m_settings s) ''Conf/installationUuid''"
proof -
  let ?inst = "''Conf/installationUuid''"
  let ?step = "\<lambda>(key, v) s. if key = ?inst then s else setValue env key (toVariant v) s"
  have inst: "m_cache (fold ?step xs t) ?inst = m_cache t ?inst \<and>
      map_of (m_settings (fold ?step xs t)) ?inst = map_of (m_settings t) ?inst" if "store_ok env t" for xs t
    using that
  proof (induction xs arbitrary: t)
    case (Cons x xs)
    then show ?case by (cases x) (simp add: store_ok_setValue settings_setValue_other)
  qed simp
  have keep: "store_holds (fold ?step xs t) k w"
    if "store_holds t k w" "k \<notin> fst ` set xs" for xs t k w
    using that by (induction xs arbitrary: t) (auto simp: sqs.put_keeps)
  have "store_holds (fold ?step cfg s) key (toVariant v)" if "key \<noteq> ?inst"
    using assms that
  proof (induction cfg arbitrary: s)
    case (Cons x xs)
    obtain k w where x: "x = (k, w)" by fastforce
    show ?case
    proof (cases "(key, v) = x")
      case True
      then show ?thesis using Cons.prems x
        by (auto intro!: keep simp: sqs.put_holds)
    next
      case False
      then show ?thesis using Cons.IH[of "?step x s"] Cons.prems x
        by (auto simp: store_ok_setValue)
    qed
  qed simp
  moreover have "cfg \<noteq> []" using assms(3) by auto
  ultimately show ?thesis
    using inst[OF assms(1)] by (auto simp: restoreAppConfig_def sqs.get_holds)
qed

theorem restore_reads_back_witness:
  "fst (settings_value example_env ''Conf/dns'' VInvalid
      (snd (restoreAppConfig example_env (\<lambda>j. VString (json_toString j))
        [(''Conf/dns'', JString ''1.1.1.1'')] example_store))) = VString ''1.1.1.1''"
proof -
  have "store_ok example_env example_store"
    by (simp add: store_ok_def keys_usable_def getEncKey_def getEncIv_def Let_def example_defs)
  from restore_reads_back [OF this, of "[(''Conf/dns'', JString ''1.1.1.1'')]" "''Conf/dns''"
    "JString ''1.1.1.1''" "\<lambda>j. VString (json_toString j)" VInvalid] show ?thesis by simp
qed

end
