(* ===== verification/Server_Config.thy ===== *)
theory Server_Config
  imports Qt_Values
begin

text \<open>
  Server configurations as the application stores them: the classification of a
  configuration object (\<^verbatim>\<open>client/core/utils/serverConfigUtils.cpp\<close>) and the five
  configuration classes that the repository builds from it (their \<open>fromJson\<close>), with the
  display name each of them derives. Members with a class of their own (containers, the
  default container, the API and authentication data) are kept as the JSON value that class
  is built from; the operations modelled here do not look inside them.
\<close>

section \<open>Configuration types\<close>

datatype ConfigType =
    AmneziaFreeV2 | AmneziaFreeV3 | AmneziaPremiumV1 | AmneziaPremiumV2 | SelfHosted
  | ExternalPremium | SelfHostedAdmin | SelfHostedUser | Native | Invalid

record SelfHostedAdminServerConfig =
  admin_description :: QString
  admin_displayName :: QString
  admin_hostName :: QString
  admin_containers :: "QJsonValue list"
  admin_defaultContainer :: QString
  admin_dns1 :: QString
  admin_dns2 :: QString
  admin_userName :: QString
  admin_password :: QString
  admin_port :: int

definition SelfHostedAdmin_fromJson :: "QJsonObject \<Rightarrow> SelfHostedAdminServerConfig" where
  "SelfHostedAdmin_fromJson json =
     (let description = json_toString (obj_value json ''description'');
          hostName = json_toString (obj_value json ''hostName'')
      in \<lparr>admin_description = description,
          admin_displayName = (if description = '''' then hostName else description),
          admin_hostName = hostName,
          admin_containers = json_toArray (obj_value json ''containers''),
          admin_defaultContainer = json_toString (obj_value json ''defaultContainer''),
          admin_dns1 = json_toString (obj_value json ''dns1''),
          admin_dns2 = json_toString (obj_value json ''dns2''),
          admin_userName = json_toString (obj_value json ''userName''),
          admin_password = json_toString (obj_value json ''password''),
          admin_port = (if obj_contains json ''port'' then json_toInt 0 (obj_value json ''port'') else 0)\<rparr>)"

definition hasCredentials :: "SelfHostedAdminServerConfig \<Rightarrow> bool" where
  "hasCredentials cfg = (admin_userName cfg \<noteq> '''' \<and> admin_password cfg \<noteq> '''' \<and> admin_port cfg > 0)"

definition hasThirdPartyConfig :: "QJsonObject \<Rightarrow> bool" where
  "hasThirdPartyConfig json =
     list_ex (\<lambda>val. list_ex (\<lambda>(key, v).
         if key = ''container'' then False
         else let protocolObj = json_toObject v in
              obj_contains protocolObj ''isThirdPartyConfig'' \<and>
              json_toBool (obj_value protocolObj ''isThirdPartyConfig''))
       (json_toObject val))
     (json_toArray (obj_value json ''containers''))"

definition config_version :: "QJsonObject \<Rightarrow> int" where
  "config_version json = json_toInt 0 (obj_value json ''config_version'')"

definition isServerFromApi :: "QJsonObject \<Rightarrow> bool" where
  "isServerFromApi json = (config_version json = 1 \<or> config_version json = 2)"

definition telegram_type :: "QString \<Rightarrow> QString \<Rightarrow> QJsonObject \<Rightarrow> ConfigType option" where
  "telegram_type freeV2Endpoint premiumV1Endpoint json =
     (let apiEndpointValue = json_toString (obj_value json ''api_endpoint'') in
      if sublist premiumV1Endpoint apiEndpointValue then Some AmneziaPremiumV1
      else if sublist freeV2Endpoint apiEndpointValue then Some AmneziaFreeV2
      else None)"

definition gateway_type :: "QJsonObject \<Rightarrow> ConfigType option" where
  "gateway_type json =
     (let serviceTypeStr =
            json_toString (obj_value (json_toObject (obj_value json ''api_config'')) ''service_type'') in
      if serviceTypeStr = ''amnezia-premium'' then Some AmneziaPremiumV2
      else if serviceTypeStr = ''amnezia-free'' then Some AmneziaFreeV3
      else if serviceTypeStr = ''external-premium'' then Some ExternalPremium
      else None)"

definition configTypeFromJson :: "QString \<Rightarrow> QString \<Rightarrow> QJsonObject \<Rightarrow> ConfigType" where
  "configTypeFromJson freeV2Endpoint premiumV1Endpoint json =
     (let api =
            (if config_version json = 1 then
               (case telegram_type freeV2Endpoint premiumV1Endpoint json of
                  Some t \<Rightarrow> Some t
                | None \<Rightarrow> gateway_type json)
             else if config_version json = 2 then gateway_type json
             else None)
      in case api of
           Some t \<Rightarrow> t
         | None \<Rightarrow>
             if hasThirdPartyConfig json then Native
             else if hasCredentials (SelfHostedAdmin_fromJson json) then SelfHostedAdmin
             else SelfHostedUser)"

definition isLegacyApiSubscription :: "ConfigType \<Rightarrow> bool" where
  "isLegacyApiSubscription t = (t = AmneziaPremiumV1 \<or> t = AmneziaFreeV2)"

fun isApiV2Subscription :: "ConfigType \<Rightarrow> bool" where
  "isApiV2Subscription AmneziaPremiumV2 = True"
| "isApiV2Subscription AmneziaFreeV3 = True"
| "isApiV2Subscription ExternalPremium = True"
| "isApiV2Subscription _ = False"

section \<open>The other configuration classes\<close>

record SelfHostedUserServerConfig =
  user_description :: QString
  user_displayName :: QString
  user_hostName :: QString
  user_containers :: "QJsonValue list"
  user_defaultContainer :: QString
  user_dns1 :: QString
  user_dns2 :: QString

definition SelfHostedUser_fromJson :: "QJsonObject \<Rightarrow> SelfHostedUserServerConfig" where
  "SelfHostedUser_fromJson json =
     (let description = json_toString (obj_value json ''description'');
          hostName = json_toString (obj_value json ''hostName'')
      in \<lparr>user_description = description,
          user_displayName = (if description = '''' then hostName else description),
          user_hostName = hostName,
          user_containers = json_toArray (obj_value json ''containers''),
          user_defaultContainer = json_toString (obj_value json ''defaultContainer''),
          user_dns1 = json_toString (obj_value json ''dns1''),
          user_dns2 = json_toString (obj_value json ''dns2'')\<rparr>)"

record NativeServerConfig =
  native_description :: QString
  native_displayName :: QString
  native_hostName :: QString
  native_containers :: "QJsonValue list"
  native_defaultContainer :: QString
  native_dns1 :: QString
  native_dns2 :: QString
  managedProfileId :: QString
  managedProfileKey :: QString
  managedObfuscationMode :: QString
  managedObfuscationProfile :: QString

definition Native_fromJson :: "QJsonObject \<Rightarrow> NativeServerConfig" where
  "Native_fromJson json =
     (let description = json_toString (obj_value json ''description'');
          hostName = json_toString (obj_value json ''hostName'')
      in \<lparr>native_description = description,
          native_displayName = (if description = '''' then hostName else description),
          native_hostName = hostName,
          native_containers = json_toArray (obj_value json ''containers''),
          native_defaultContainer = json_toString (obj_value json ''defaultContainer''),
          native_dns1 = json_toString (obj_value json ''dns1''),
          native_dns2 = json_toString (obj_value json ''dns2''),
          managedProfileId = json_toString (obj_value json ''managedProfileId''),
          managedProfileKey = json_toString (obj_value json ''managedProfileKey''),
          managedObfuscationMode = json_toString (obj_value json ''managedObfuscationMode''),
          managedObfuscationProfile = json_toString (obj_value json ''managedObfuscationProfile'')\<rparr>)"

record ApiV2ServerConfig =
  apiV2_name :: QString
  apiV2_nameOverriddenByUser :: bool
  apiV2_description :: QString
  apiV2_displayName :: QString
  apiV2_configVersion :: int
  apiV2_hostName :: QString
  apiV2_containers :: "QJsonValue list"
  apiV2_defaultContainer :: QString
  apiV2_dns1 :: QString
  apiV2_dns2 :: QString
  apiV2_sendPayload :: "QJsonValue list"
  apiV2_crc :: int
  apiV2_apiConfig :: QJsonObject
  apiV2_authData :: QJsonObject

definition ApiV2_fromJson :: "QJsonObject \<Rightarrow> ApiV2ServerConfig" where
  "ApiV2_fromJson json =
     (let name = json_toString (obj_value json ''name'');
          description = json_toString (obj_value json ''description'')
      in \<lparr>apiV2_name = name,
          apiV2_nameOverriddenByUser = json_toBool (obj_value json ''nameOverriddenByUser''),
          apiV2_description = description,
          apiV2_displayName = (if name = '''' then description else name),
          apiV2_configVersion = json_toInt 2 (obj_value json ''config_version''),
          apiV2_hostName = json_toString (obj_value json ''hostName''),
          apiV2_containers = json_toArray (obj_value json ''containers''),
          apiV2_defaultContainer = json_toString (obj_value json ''defaultContainer''),
          apiV2_dns1 = json_toString (obj_value json ''dns1''),
          apiV2_dns2 = json_toString (obj_value json ''dns2''),
          apiV2_sendPayload = json_toArray (obj_value json ''send_payload''),
          apiV2_crc = json_toInt 0 (obj_value json ''crc''),
          apiV2_apiConfig = json_toObject (obj_value json ''api_config''),
          apiV2_authData = json_toObject (obj_value json ''auth_data'')\<rparr>)"

text \<open>
  \<open>LegacyApiServerConfig::fromJson\<close> reads neither a name nor containers nor DNS servers;
  those members keep their initial values.
\<close>

record LegacyApiServerConfig =
  legacy_name :: QString
  legacy_description :: QString
  legacy_displayName :: QString
  legacy_hostName :: QString
  legacy_crc :: int
  legacy_configVersion :: int
  legacy_apiEndpoint :: QString

definition LegacyApi_fromJson :: "QJsonObject \<Rightarrow> LegacyApiServerConfig" where
  "LegacyApi_fromJson json =
     (let name = ''''; description = json_toString (obj_value json ''description'')
      in \<lparr>legacy_name = name,
          legacy_description = description,
          legacy_displayName = (if name = '''' then description else name),
          legacy_hostName = json_toString (obj_value json ''hostName''),
          legacy_crc = json_toInt 0 (obj_value json ''crc''),
          legacy_configVersion = json_toInt 1 (obj_value json ''config_version''),
          legacy_apiEndpoint = json_toString (obj_value json ''api_endpoint'')\<rparr>)"

section \<open>The classification\<close>

text \<open>The classification reads these members of the configuration object only.\<close>

definition classified_keys :: "QString list" where
  "classified_keys = [''config_version'', ''api_endpoint'', ''api_config'', ''containers'',
     ''userName'', ''password'', ''port'']"

lemma configTypeFromJson_cong:
  assumes "list_all (\<lambda>k. map_of json k = map_of json' k) classified_keys"
  shows "configTypeFromJson f p json = configTypeFromJson f p json'"
  using assms
  unfolding classified_keys_def list.pred_inject configTypeFromJson_def config_version_def
    telegram_type_def gateway_type_def hasThirdPartyConfig_def hasCredentials_def
    SelfHostedAdmin_fromJson_def obj_value_def obj_contains_def
  by (simp only: Let_def SelfHostedAdminServerConfig.simps)

lemma configTypeFromJson_insert [simp]:
  "k \<notin> set classified_keys \<Longrightarrow>
   configTypeFromJson f p (obj_insert k v json) = configTypeFromJson f p json"
  by (rule configTypeFromJson_cong) (auto simp: list_all_iff obj_insert_def update_conv')

lemma configTypeFromJson_remove [simp]:
  "k \<notin> set classified_keys \<Longrightarrow>
   configTypeFromJson f p (obj_remove k json) = configTypeFromJson f p json"
  by (rule configTypeFromJson_cong) (auto simp: list_all_iff obj_remove_def delete_conv')

lemma telegram_type_range:
  "telegram_type f p json = None \<or> isLegacyApiSubscription (the (telegram_type f p json))"
  by (simp add: telegram_type_def isLegacyApiSubscription_def Let_def)

lemma gateway_type_range:
  "gateway_type json = None \<or> isApiV2Subscription (the (gateway_type json))"
  by (simp add: gateway_type_def Let_def)

lemma configTypeFromJson_cases:
  obtains (legacy) t where "configTypeFromJson f p json = t" "isLegacyApiSubscription t"
      "config_version json = 1"
  | (api) t where "configTypeFromJson f p json = t" "isApiV2Subscription t" "isServerFromApi json"
  | (own) "configTypeFromJson f p json =
       (if hasThirdPartyConfig json then Native
        else if hasCredentials (SelfHostedAdmin_fromJson json) then SelfHostedAdmin
        else SelfHostedUser)"
  using telegram_type_range [of f p json] gateway_type_range [of json]
  unfolding configTypeFromJson_def isServerFromApi_def
  by (cases "telegram_type f p json"; cases "gateway_type json";
      cases "config_version json = 1"; cases "config_version json = 2") auto

lemma configTypeFromJson_not_api:
  "\<not> isServerFromApi json \<Longrightarrow> configTypeFromJson f p json =
     (if hasThirdPartyConfig json then Native
      else if hasCredentials (SelfHostedAdmin_fromJson json) then SelfHostedAdmin
      else SelfHostedUser)"
  by (simp add: configTypeFromJson_def isServerFromApi_def)

lemma configTypeFromJson_not_Invalid [simp]: "configTypeFromJson f p json \<noteq> Invalid"
  by (cases rule: configTypeFromJson_cases [of f p json]) (auto simp: isLegacyApiSubscription_def)

section \<open>Properties\<close>

text \<open>
  C28: every configuration object has exactly one kind, never \<open>Invalid\<close> and never the
  obsolete \<open>SelfHosted\<close>; the API kinds occur only for configuration versions 1 and 2, a
  legacy kind only for version 1, and the admin kind exactly when the object is no API or
  third-party configuration and carries complete credentials.
\<close>

theorem configTypeFromJson_sound:
  shows "configTypeFromJson f p json \<notin> {Invalid, SelfHosted} \<and>
    (isLegacyApiSubscription (configTypeFromJson f p json) \<longrightarrow> config_version json = 1) \<and>
    (isApiV2Subscription (configTypeFromJson f p json) \<longrightarrow> isServerFromApi json) \<and>
    (configTypeFromJson f p json = SelfHostedAdmin \<longrightarrow>
       hasCredentials (SelfHostedAdmin_fromJson json) \<and> \<not> hasThirdPartyConfig json) \<and>
    (\<not> isServerFromApi json \<longrightarrow> configTypeFromJson f p json =
       (if hasThirdPartyConfig json then Native
        else if hasCredentials (SelfHostedAdmin_fromJson json) then SelfHostedAdmin
        else SelfHostedUser))"
proof (cases rule: configTypeFromJson_cases [of f p json])
  case own
  then show ?thesis
    using configTypeFromJson_not_api [of json f p] by (auto simp: isLegacyApiSubscription_def)
qed (use configTypeFromJson_not_api [of json f p] in
     \<open>auto simp: isLegacyApiSubscription_def isServerFromApi_def\<close>)

theorem configTypeFromJson_sound_witness:
  "configTypeFromJson ''free'' ''prem''
     [(''userName'', JString ''root''), (''password'', JString ''pw''), (''port'', JDouble 22)]
   = SelfHostedAdmin"
proof -
  let ?j = "[(''userName'', JString ''root''), (''password'', JString ''pw''), (''port'', JDouble 22)]"
  have "\<not> isServerFromApi ?j" "\<not> hasThirdPartyConfig ?j"
    "hasCredentials (SelfHostedAdmin_fromJson ?j)"
    by (simp_all add: isServerFromApi_def config_version_def obj_value_def obj_contains_def
        hasThirdPartyConfig_def hasCredentials_def SelfHostedAdmin_fromJson_def)
  with configTypeFromJson_sound [of "''free''" "''prem''" ?j] show ?thesis by metis
qed

end
