(* ===== verification/Servers_Repository.thy ===== *)
theory Servers_Repository
  imports Settings_Store Server_Config
begin

text \<open>
  \<open>SecureServersRepository\<close> (\<^verbatim>\<open>client/core/repositories/secureServersRepository.cpp\<close>): the
  ordered list of servers, their configuration objects by id, and the default server, kept
  in memory and written through to the settings store. Random UUIDs are arguments of the
  operations that draw them; the JSON text coding and the endpoints fixed at build time
  are members of the environment. Signals are returned as a list.
\<close>

section \<open>State\<close>

record repo_env = settings_env +
  json_toBytes :: "QJsonValue list \<Rightarrow> QByteArray"
  json_fromBytes :: "QByteArray \<Rightarrow> QJsonValue list"
  freeV2Endpoint :: QString
  premiumV1Endpoint :: QString
  tr_Server :: QString

record SecureServersRepository =
  repo_settings :: SecureQSettings
  m_serverJsonById :: "QString \<rightharpoonup> QJsonObject"
  m_orderedServerIds :: "QString list"
  m_defaultServerId :: QString

datatype repo_signal =
    serverAdded QString | serverEdited QString | serverRemoved QString int
  | defaultServerChanged QString

abbreviation "kindOf env json \<equiv> configTypeFromJson (freeV2Endpoint env) (premiumV1Endpoint env) json"

section \<open>Helpers\<close>

definition storageServerId :: QString where
  "storageServerId = ''storageServerId''"

definition readStorageServerId :: "QJsonObject \<Rightarrow> QString" where
  "readStorageServerId json = trimmed (json_toString (obj_value json storageServerId))"

definition withoutStorageServerId :: "QJsonObject \<Rightarrow> QJsonObject" where
  "withoutStorageServerId json = obj_remove storageServerId json"

definition embedStorageServerId :: "QString \<Rightarrow> QJsonObject \<Rightarrow> QJsonObject" where
  "embedStorageServerId serverId payloadSansId = obj_insert storageServerId (JString serverId) payloadSansId"

definition clearServerStateMaps :: "SecureServersRepository \<Rightarrow> SecureServersRepository" where
  "clearServerStateMaps r = r\<lparr>m_serverJsonById := Map.empty, m_orderedServerIds := []\<rparr>"

definition normalizedOrGeneratedServerId :: "QString \<Rightarrow> QString \<Rightarrow> SecureServersRepository \<Rightarrow> QString" where
  "normalizedOrGeneratedServerId uuid candidateId r =
     (let t = trimmed candidateId in
      if t \<noteq> '''' \<and> m_serverJsonById r t = None then t else uuid)"

text \<open>\<open>QVector::indexOf\<close>: the first position, or -1.\<close>

fun list_indexOf :: "'a list \<Rightarrow> 'a \<Rightarrow> int" where
  "list_indexOf [] x = -1"
| "list_indexOf (y # ys) x = (if y = x then 0 else (let i = list_indexOf ys x in if i < 0 then -1 else i + 1))"

definition indexOfServerId :: "QString \<Rightarrow> SecureServersRepository \<Rightarrow> int" where
  "indexOfServerId serverId r = list_indexOf (m_orderedServerIds r) serverId"

definition defaultServerIndex :: "SecureServersRepository \<Rightarrow> int" where
  "defaultServerIndex r =
     (if m_orderedServerIds r = [] then 0
      else let idx = list_indexOf (m_orderedServerIds r) (m_defaultServerId r)
           in if idx \<ge> 0 then idx else 0)"

section \<open>Loading and storing\<close>

definition updateDefaultServerFromStorage ::
  "'e repo_env_scheme \<Rightarrow> SecureServersRepository \<Rightarrow> SecureServersRepository" where
  "updateDefaultServerFromStorage env r =
     (let (v, s1) = settings_value env ''Servers/defaultServerId'' (VString '''') (repo_settings r);
          storedDefaultId = variant_toString v;
          r1 = r\<lparr>repo_settings := s1\<rparr>
      in if storedDefaultId \<noteq> '''' \<and> m_serverJsonById r1 storedDefaultId \<noteq> None
         then r1\<lparr>m_defaultServerId := storedDefaultId\<rparr>
         else
           let (w, s2) = settings_value env ''Servers/defaultServerIndex'' (VInt 0) s1;
               storedDefaultIndex = variant_toInt w;
               r2 = r1\<lparr>repo_settings := s2\<rparr>
           in if storedDefaultIndex \<ge> 0 \<and> storedDefaultIndex < int (length (m_orderedServerIds r2))
              then r2\<lparr>m_defaultServerId := m_orderedServerIds r2 ! nat storedDefaultIndex\<rparr>
              else if m_orderedServerIds r2 \<noteq> []
              then r2\<lparr>m_defaultServerId := hd (m_orderedServerIds r2)\<rparr>
              else r2\<lparr>m_defaultServerId := ''''\<rparr>)"

definition persistDefaultServerFields ::
  "'e repo_env_scheme \<Rightarrow> SecureServersRepository \<Rightarrow> SecureServersRepository" where
  "persistDefaultServerFields env r =
     (let r1 = (if m_orderedServerIds r = [] then r\<lparr>m_defaultServerId := ''''\<rparr>
                else if m_defaultServerId r \<notin> set (m_orderedServerIds r)
                then r\<lparr>m_defaultServerId := hd (m_orderedServerIds r)\<rparr>
                else r)
      in r1\<lparr>repo_settings :=
              setValue env ''Servers/defaultServerId'' (VString (m_defaultServerId r1)) (repo_settings r1)\<rparr>)"

text \<open>The loop of \<open>loadFromStorage\<close>; \<open>uuids i\<close> is the UUID drawn for entry \<open>i\<close>, when one is.\<close>

fun load_entries ::
  "'e repo_env_scheme \<Rightarrow> (nat \<Rightarrow> QString) \<Rightarrow> nat \<Rightarrow> QJsonValue list \<Rightarrow> SecureServersRepository
   \<Rightarrow> SecureServersRepository" where
  "load_entries env uuids i [] r = r"
| "load_entries env uuids i (val # vals) r =
     (let json = json_toObject val;
          serverId = normalizedOrGeneratedServerId (uuids i) (readStorageServerId json) r;
          strippedJson = withoutStorageServerId json
      in if m_serverJsonById r serverId \<noteq> None \<or> kindOf env strippedJson = Invalid
         then load_entries env uuids (Suc i) vals r
         else load_entries env uuids (Suc i) vals
                (r\<lparr>m_serverJsonById := (m_serverJsonById r)(serverId \<mapsto> embedStorageServerId serverId strippedJson),
                   m_orderedServerIds := m_orderedServerIds r @ [serverId]\<rparr>))"

definition loadFromStorage ::
  "'e repo_env_scheme \<Rightarrow> (nat \<Rightarrow> QString) \<Rightarrow> SecureServersRepository \<Rightarrow> SecureServersRepository" where
  "loadFromStorage env uuids r =
     (let r0 = clearServerStateMaps r;
          (v, s1) = settings_value env ''Servers/serversList'' (VByteArray []) (repo_settings r0);
          serversArray = json_fromBytes env (variant_toByteArray v)
      in updateDefaultServerFromStorage env
           (load_entries env uuids 0 serversArray (r0\<lparr>repo_settings := s1\<rparr>)))"

definition servers_array :: "SecureServersRepository \<Rightarrow> QJsonValue list" where
  "servers_array r =
     map (\<lambda>serverId. JObject (the (m_serverJsonById r serverId)))
       (filter (\<lambda>serverId. m_serverJsonById r serverId \<noteq> None) (m_orderedServerIds r))"

definition syncToStorage ::
  "'e repo_env_scheme \<Rightarrow> SecureServersRepository \<Rightarrow> SecureServersRepository" where
  "syncToStorage env r =
     persistDefaultServerFields env
       (r\<lparr>repo_settings := setValue env ''Servers/serversList''
            (VByteArray (json_toBytes env (servers_array r))) (repo_settings r)\<rparr>)"

definition new_repository ::
  "'e repo_env_scheme \<Rightarrow> (nat \<Rightarrow> QString) \<Rightarrow> SecureQSettings \<Rightarrow> SecureServersRepository" where
  "new_repository env uuids settings =
     persistDefaultServerFields env (loadFromStorage env uuids
       \<lparr>repo_settings = settings, m_serverJsonById = Map.empty, m_orderedServerIds = [],
        m_defaultServerId = ''''\<rparr>)"

definition invalidateCache ::
  "'e repo_env_scheme \<Rightarrow> (nat \<Rightarrow> QString) \<Rightarrow> SecureServersRepository \<Rightarrow> SecureServersRepository" where
  "invalidateCache env uuids r = loadFromStorage env uuids r"

definition clearServers ::
  "'e repo_env_scheme \<Rightarrow> SecureServersRepository \<Rightarrow> SecureServersRepository" where
  "clearServers env r = syncToStorage env ((clearServerStateMaps r)\<lparr>m_defaultServerId := ''''\<rparr>)"

section \<open>Changing the list of servers\<close>

definition addServer ::
  "'e repo_env_scheme \<Rightarrow> QString \<Rightarrow> QString \<Rightarrow> QJsonObject \<Rightarrow> ConfigType \<Rightarrow> SecureServersRepository
   \<Rightarrow> QString \<times> SecureServersRepository \<times> repo_signal list" where
  "addServer env uuid serverId serverJson kind r =
     (let id = normalizedOrGeneratedServerId uuid serverId r in
      if m_serverJsonById r id \<noteq> None \<or> kind = Invalid then (id, r, [])
      else
        let strippedJson = withoutStorageServerId serverJson in
        if kindOf env strippedJson \<noteq> kind then (id, r, [])
        else
          let r1 = r\<lparr>m_serverJsonById := (m_serverJsonById r)(id \<mapsto> embedStorageServerId id strippedJson),
                     m_orderedServerIds := m_orderedServerIds r @ [id]\<rparr>;
              r2 = (if m_defaultServerId r1 = '''' then r1\<lparr>m_defaultServerId := id\<rparr> else r1)
          in (id, syncToStorage env r2, [serverAdded id]))"

definition editServer ::
  "'e repo_env_scheme \<Rightarrow> QString \<Rightarrow> QJsonObject \<Rightarrow> ConfigType \<Rightarrow> SecureServersRepository
   \<Rightarrow> SecureServersRepository \<times> repo_signal list" where
  "editServer env serverId serverJson kind r =
     (if indexOfServerId serverId r < 0 \<or> kind = Invalid then (r, [])
      else case m_serverJsonById r serverId of
        None \<Rightarrow> (r, [])
      | Some oldJson \<Rightarrow>
          let oldKind = kindOf env (withoutStorageServerId oldJson);
              r1 = r\<lparr>m_serverJsonById := (m_serverJsonById r)(serverId := None)\<rparr>;
              strippedNew = withoutStorageServerId serverJson
          in if kindOf env strippedNew \<noteq> kind then
               let strippedOld = withoutStorageServerId oldJson in
               if oldKind \<noteq> Invalid \<and> kindOf env strippedOld = oldKind
               then (r1\<lparr>m_serverJsonById :=
                       (m_serverJsonById r1)(serverId \<mapsto> embedStorageServerId serverId strippedOld)\<rparr>, [])
               else (r1, [])
             else
               (syncToStorage env (r1\<lparr>m_serverJsonById :=
                  (m_serverJsonById r1)(serverId \<mapsto> embedStorageServerId serverId strippedNew)\<rparr>),
                [serverEdited serverId]))"

definition list_removeAt :: "nat \<Rightarrow> 'a list \<Rightarrow> 'a list" where
  "list_removeAt i xs = take i xs @ drop (Suc i) xs"

definition removeServer ::
  "'e repo_env_scheme \<Rightarrow> QString \<Rightarrow> SecureServersRepository \<Rightarrow> SecureServersRepository \<times> repo_signal list" where
  "removeServer env serverId r =
     (let removedIndex = indexOfServerId serverId r in
      if removedIndex < 0 then (r, [])
      else if m_serverJsonById r serverId = None then (r, [])
      else
        let previousDefaultId = m_defaultServerId r;
            previousDefaultIndex = defaultServerIndex r;
            r1 = r\<lparr>m_serverJsonById := (m_serverJsonById r)(serverId := None),
                   m_orderedServerIds := list_removeAt (nat removedIndex) (m_orderedServerIds r)\<rparr>;
            ids = m_orderedServerIds r1;
            r2 = (if ids = [] then r1\<lparr>m_defaultServerId := ''''\<rparr>
                  else if m_defaultServerId r1 = serverId
                  then r1\<lparr>m_defaultServerId := ids ! nat (min removedIndex (int (length ids) - 1))\<rparr>
                  else if m_defaultServerId r1 \<notin> set ids
                  then r1\<lparr>m_defaultServerId := hd ids\<rparr>
                  else r1);
            changed = (previousDefaultId \<noteq> m_defaultServerId r2 \<or>
                       previousDefaultIndex \<noteq> defaultServerIndex r2)
        in (syncToStorage env r2,
            (if changed then [defaultServerChanged (m_defaultServerId r2)] else [])
            @ [serverRemoved serverId removedIndex]))"

definition setDefaultServer ::
  "'e repo_env_scheme \<Rightarrow> QString \<Rightarrow> SecureServersRepository \<Rightarrow> SecureServersRepository \<times> repo_signal list" where
  "setDefaultServer env serverId r =
     (if m_orderedServerIds r = [] then (r, [])
      else if m_serverJsonById r serverId = None then (r, [])
      else if indexOfServerId serverId r < 0 then (r, [])
      else if m_defaultServerId r = serverId then (r, [])
      else
        let r1 = persistDefaultServerFields env (r\<lparr>m_defaultServerId := serverId\<rparr>)
        in (r1, [defaultServerChanged (m_defaultServerId r1)]))"

section \<open>Queries\<close>

definition serverKind :: "'e repo_env_scheme \<Rightarrow> QString \<Rightarrow> SecureServersRepository \<Rightarrow> ConfigType" where
  "serverKind env serverId r =
     (case m_serverJsonById r serverId of
        None \<Rightarrow> Invalid
      | Some json \<Rightarrow> kindOf env (withoutStorageServerId json))"

definition selfHostedAdminConfig ::
  "'e repo_env_scheme \<Rightarrow> QString \<Rightarrow> SecureServersRepository \<Rightarrow> SelfHostedAdminServerConfig option" where
  "selfHostedAdminConfig env serverId r =
     (case m_serverJsonById r serverId of
        None \<Rightarrow> None
      | Some json \<Rightarrow>
          let strippedJson = withoutStorageServerId json in
          if kindOf env strippedJson \<noteq> SelfHostedAdmin then None
          else Some (SelfHostedAdmin_fromJson strippedJson))"

definition selfHostedUserConfig ::
  "'e repo_env_scheme \<Rightarrow> QString \<Rightarrow> SecureServersRepository \<Rightarrow> SelfHostedUserServerConfig option" where
  "selfHostedUserConfig env serverId r =
     (case m_serverJsonById r serverId of
        None \<Rightarrow> None
      | Some json \<Rightarrow>
          let strippedJson = withoutStorageServerId json in
          if kindOf env strippedJson \<noteq> SelfHostedUser then None
          else Some (SelfHostedUser_fromJson strippedJson))"

definition nativeConfig ::
  "'e repo_env_scheme \<Rightarrow> QString \<Rightarrow> SecureServersRepository \<Rightarrow> NativeServerConfig option" where
  "nativeConfig env serverId r =
     (case m_serverJsonById r serverId of
        None \<Rightarrow> None
      | Some json \<Rightarrow>
          let strippedJson = withoutStorageServerId json in
          if kindOf env strippedJson \<noteq> Native then None
          else Some (Native_fromJson strippedJson))"

definition apiV2Config ::
  "'e repo_env_scheme \<Rightarrow> QString \<Rightarrow> SecureServersRepository \<Rightarrow> ApiV2ServerConfig option" where
  "apiV2Config env serverId r =
     (case m_serverJsonById r serverId of
        None \<Rightarrow> None
      | Some json \<Rightarrow>
          let strippedJson = withoutStorageServerId json in
          if \<not> isApiV2Subscription (kindOf env strippedJson) then None
          else Some (ApiV2_fromJson strippedJson))"

definition legacyApiConfig ::
  "'e repo_env_scheme \<Rightarrow> QString \<Rightarrow> SecureServersRepository \<Rightarrow> LegacyApiServerConfig option" where
  "legacyApiConfig env serverId r =
     (case m_serverJsonById r serverId of
        None \<Rightarrow> None
      | Some json \<Rightarrow>
          let strippedJson = withoutStorageServerId json in
          if \<not> isLegacyApiSubscription (kindOf env strippedJson) then None
          else Some (LegacyApi_fromJson strippedJson))"

definition serversCount :: "SecureServersRepository \<Rightarrow> int" where
  "serversCount r = int (length (m_orderedServerIds r))"

definition serverIdAt :: "int \<Rightarrow> SecureServersRepository \<Rightarrow> QString" where
  "serverIdAt index r =
     (if index < 0 \<or> index \<ge> int (length (m_orderedServerIds r)) then ''''
      else m_orderedServerIds r ! nat index)"

definition name_or_empty :: "('c \<Rightarrow> QString) \<Rightarrow> 'c option \<Rightarrow> QString" where
  "name_or_empty displayName cfg = (case cfg of None \<Rightarrow> '''' | Some c \<Rightarrow> displayName c)"

definition storedServerDisplayName ::
  "'e repo_env_scheme \<Rightarrow> QString \<Rightarrow> SecureServersRepository \<Rightarrow> QString" where
  "storedServerDisplayName env serverId r =
     (case serverKind env serverId r of
        SelfHostedAdmin \<Rightarrow> name_or_empty admin_displayName (selfHostedAdminConfig env serverId r)
      | SelfHostedUser \<Rightarrow> name_or_empty user_displayName (selfHostedUserConfig env serverId r)
      | Native \<Rightarrow> name_or_empty native_displayName (nativeConfig env serverId r)
      | AmneziaPremiumV2 \<Rightarrow> name_or_empty apiV2_displayName (apiV2Config env serverId r)
      | AmneziaFreeV3 \<Rightarrow> name_or_empty apiV2_displayName (apiV2Config env serverId r)
      | ExternalPremium \<Rightarrow> name_or_empty apiV2_displayName (apiV2Config env serverId r)
      | AmneziaPremiumV1 \<Rightarrow> name_or_empty legacy_displayName (legacyApiConfig env serverId r)
      | AmneziaFreeV2 \<Rightarrow> name_or_empty legacy_displayName (legacyApiConfig env serverId r)
      | _ \<Rightarrow> '''')"

definition server_name :: "'e repo_env_scheme \<Rightarrow> nat \<Rightarrow> QString" where
  "server_name env i = tr_Server env @ '' '' @ number i"

definition usedNames :: "'e repo_env_scheme \<Rightarrow> SecureServersRepository \<Rightarrow> QString list" where
  "usedNames env r =
     filter (\<lambda>displayName. displayName \<noteq> '''')
       (map (\<lambda>serverId. storedServerDisplayName env serverId r) (m_orderedServerIds r))"

lemma server_name_inject [simp]: "server_name env i = server_name env j \<longleftrightarrow> i = j"
  by (simp add: server_name_def)

lemma finite_later_names: "finite {j. i < j \<and> server_name env j \<in> set used}"
proof (rule finite_subset)
  show "{j. i < j \<and> server_name env j \<in> set used} \<subseteq> server_name env -` set used" by auto
  show "finite (server_name env -` set used)" by (rule finite_vimageI) (auto intro: injI)
qed

function next_name :: "'e repo_env_scheme \<Rightarrow> QString list \<Rightarrow> nat \<Rightarrow> QString" where
  "next_name env used i =
     (let j = Suc i; candidate = server_name env j
      in if candidate \<in> set used then next_name env used j else candidate)"
  by pat_completeness auto

termination
proof (relation "measure (\<lambda>(env, used, i). card {j. i < j \<and> server_name env j \<in> set used})")
  fix env :: "'e repo_env_scheme" and used :: "QString list" and i j :: nat and candidate :: QString
  assume h: "j = Suc i" "candidate = server_name env j" "candidate \<in> set used"
  have "{l. j < l \<and> server_name env l \<in> set used} \<subset> {l. i < l \<and> server_name env l \<in> set used}"
    using h by auto
  then have "card {l. j < l \<and> server_name env l \<in> set used} < card {l. i < l \<and> server_name env l \<in> set used}"
    by (rule psubset_card_mono [OF finite_later_names])
  then show "((env, used, j), (env, used, i)) \<in>
      measure (\<lambda>(env, used, i). card {j. i < j \<and> server_name env j \<in> set used})"
    by simp
qed simp

declare next_name.simps [simp del]

definition nextAvailableServerName :: "'e repo_env_scheme \<Rightarrow> SecureServersRepository \<Rightarrow> QString" where
  "nextAvailableServerName env r = next_name env (usedNames env r) 0"

section \<open>The invariant\<close>

text \<open>
  Ids are distinct and name exactly the stored objects; each is a non-empty trimmed string
  and is embedded in its object. The default server is one of them, or empty when there is none.
\<close>

definition entry_ok :: "SecureServersRepository \<Rightarrow> QString \<Rightarrow> bool" where
  "entry_ok r serverId =
     (serverId \<noteq> '''' \<and> trimmed serverId = serverId \<and>
      embedStorageServerId serverId (withoutStorageServerId (the (m_serverJsonById r serverId)))
        = the (m_serverJsonById r serverId))"

definition entries_ok :: "SecureServersRepository \<Rightarrow> bool" where
  "entries_ok r =
     (distinct (m_orderedServerIds r) \<and> set (m_orderedServerIds r) = dom (m_serverJsonById r) \<and>
      list_all (entry_ok r) (m_orderedServerIds r))"

definition default_ok :: "SecureServersRepository \<Rightarrow> bool" where
  "default_ok r =
     (if m_orderedServerIds r = [] then m_defaultServerId r = ''''
      else m_defaultServerId r \<in> set (m_orderedServerIds r))"

definition registry_ok :: "SecureServersRepository \<Rightarrow> bool" where
  "registry_ok r = (entries_ok r \<and> default_ok r)"

definition uuid_ok :: "QString \<Rightarrow> bool" where
  "uuid_ok u = (u \<noteq> '''' \<and> trimmed u = u)"

lemma embed_without [simp]:
  "withoutStorageServerId (embedStorageServerId i json) = withoutStorageServerId json"
  "withoutStorageServerId (withoutStorageServerId json) = withoutStorageServerId json"
  by (simp_all add: embedStorageServerId_def withoutStorageServerId_def)

lemma read_embed [simp]: "readStorageServerId (embedStorageServerId i json) = trimmed i"
  by (simp add: readStorageServerId_def embedStorageServerId_def)

lemma storageServerId_not_classified [simp]: "storageServerId \<notin> set classified_keys"
  by (simp add: storageServerId_def classified_keys_def)

lemma kindOf_stripped [simp]:
  "configTypeFromJson f p (withoutStorageServerId json) = configTypeFromJson f p json"
  "configTypeFromJson f p (embedStorageServerId i json) = configTypeFromJson f p json"
  by (simp_all add: withoutStorageServerId_def embedStorageServerId_def)

lemma normalized_ok:
  "uuid_ok u \<Longrightarrow> uuid_ok (normalizedOrGeneratedServerId u c r)"
  by (simp add: uuid_ok_def normalizedOrGeneratedServerId_def Let_def)

lemma normalized_stored:
  "uuid_ok c \<Longrightarrow> m_serverJsonById r c = None \<Longrightarrow> normalizedOrGeneratedServerId u c r = c"
  by (simp add: uuid_ok_def normalizedOrGeneratedServerId_def)

lemma persist_frame [simp]:
  "m_serverJsonById (persistDefaultServerFields env r) = m_serverJsonById r"
  "m_orderedServerIds (persistDefaultServerFields env r) = m_orderedServerIds r"
  by (simp_all add: persistDefaultServerFields_def Let_def)

lemma sync_frame [simp]:
  "m_serverJsonById (syncToStorage env r) = m_serverJsonById r"
  "m_orderedServerIds (syncToStorage env r) = m_orderedServerIds r"
  by (simp_all add: syncToStorage_def)

lemma entries_ok_cong:
  "m_serverJsonById r = m_serverJsonById r' \<Longrightarrow> m_orderedServerIds r = m_orderedServerIds r' \<Longrightarrow>
   entries_ok r = entries_ok r'"
  by (simp add: entries_ok_def entry_ok_def [abs_def])

lemma entries_ok_update [simp]:
  "entries_ok (r\<lparr>repo_settings := s\<rparr>) = entries_ok r"
  "entries_ok (r\<lparr>m_defaultServerId := d\<rparr>) = entries_ok r"
  "entries_ok (persistDefaultServerFields env r) = entries_ok r"
  "entries_ok (syncToStorage env r) = entries_ok r"
  by (rule entries_ok_cong; simp)+

lemma default_ok_persist [simp]:
  "default_ok (persistDefaultServerFields env r)" "default_ok (syncToStorage env r)"
  by (auto simp: default_ok_def syncToStorage_def persistDefaultServerFields_def Let_def)

lemma default_persist [simp]:
  assumes "default_ok r"
  shows "m_defaultServerId (persistDefaultServerFields env r) = m_defaultServerId r"
    "m_defaultServerId (syncToStorage env r) = m_defaultServerId r"
  using assms
  by (auto simp: default_ok_def syncToStorage_def persistDefaultServerFields_def Let_def split: if_splits)

lemma entries_ok_clear [simp]: "entries_ok (clearServerStateMaps r)"
  by (simp add: clearServerStateMaps_def entries_ok_def)

lemma entries_ok_append:
  assumes "entries_ok r" "uuid_ok i" "m_serverJsonById r i = None"
  shows "entries_ok (r\<lparr>m_serverJsonById := (m_serverJsonById r)(i \<mapsto> embedStorageServerId i (withoutStorageServerId json)),
      m_orderedServerIds := m_orderedServerIds r @ [i]\<rparr>)"
  using assms by (auto simp: entries_ok_def entry_ok_def uuid_ok_def list_all_iff)

lemma entries_ok_replace:
  assumes "entries_ok r" "i \<in> set (m_orderedServerIds r)"
  shows "entries_ok (r\<lparr>m_serverJsonById :=
      (m_serverJsonById r)(i \<mapsto> embedStorageServerId i (withoutStorageServerId json))\<rparr>)"
  using assms by (auto simp: entries_ok_def entry_ok_def list_all_iff)

lemma indexOf_nonneg: "0 \<le> list_indexOf xs x \<longleftrightarrow> x \<in> set xs"
  by (induction xs) (auto simp: Let_def)

lemma indexOf_neg: "list_indexOf xs x < 0 \<longleftrightarrow> x \<notin> set xs"
  using indexOf_nonneg[of xs x] by linarith

lemma indexOf_nth: "x \<in> set xs \<Longrightarrow> nat (list_indexOf xs x) < length xs \<and> xs ! nat (list_indexOf xs x) = x"
proof (induction xs)
  case (Cons y ys)
  show ?case
  proof (cases "y = x")
    case False
    then have x: "x \<in> set ys" using Cons.prems by simp
    then have "0 \<le> list_indexOf ys x" by (simp add: indexOf_nonneg)
    then show ?thesis using False Cons.IH[OF x] by (simp add: Let_def nat_add_distrib)
  qed simp
qed simp

lemma removeAt_indexOf:
  assumes "distinct xs" "x \<in> set xs"
  shows "list_removeAt (nat (list_indexOf xs x)) xs = filter (\<lambda>y. y \<noteq> x) xs"
  using assms
proof (induction xs)
  case (Cons y ys)
  show ?case
  proof (cases "y = x")
    case True
    then show ?thesis using Cons.prems by (auto simp: list_removeAt_def intro!: filter_True [symmetric])
  next
    case False
    then have x: "x \<in> set ys" using Cons.prems by simp
    then have "0 \<le> list_indexOf ys x" by (simp add: indexOf_nonneg)
    then show ?thesis using False Cons x
      by (simp add: list_removeAt_def Let_def nat_add_distrib)
  qed
qed simp

lemma entries_ok_remove:
  assumes "entries_ok r" "i \<in> set (m_orderedServerIds r)"
  shows "entries_ok (r\<lparr>m_serverJsonById := (m_serverJsonById r)(i := None),
      m_orderedServerIds := list_removeAt (nat (list_indexOf (m_orderedServerIds r) i)) (m_orderedServerIds r)\<rparr>)"
  using assms by (auto simp: entries_ok_def entry_ok_def list_all_iff removeAt_indexOf)

section \<open>Every operation keeps the invariant\<close>

lemma load_entries_ok:
  "entries_ok r \<Longrightarrow> (\<And>i. uuid_ok (uuids i)) \<Longrightarrow> entries_ok (load_entries env uuids i vals r)"
proof (induction vals arbitrary: i r)
  case (Cons val vals)
  then show ?case by (auto simp: Let_def intro!: Cons.IH entries_ok_append normalized_ok)
qed simp

lemma update_default_frame [simp]:
  "m_serverJsonById (updateDefaultServerFromStorage env r) = m_serverJsonById r"
  "m_orderedServerIds (updateDefaultServerFromStorage env r) = m_orderedServerIds r"
  by (simp_all add: updateDefaultServerFromStorage_def Let_def case_prod_beta)

lemma update_default_ok:
  assumes "entries_ok r"
  shows "registry_ok (updateDefaultServerFromStorage env r)"
proof -
  have "entries_ok (updateDefaultServerFromStorage env r)"
    using assms entries_ok_cong[of "updateDefaultServerFromStorage env r" r] by simp
  moreover have "default_ok (updateDefaultServerFromStorage env r)"
    using assms
    by (auto simp: default_ok_def updateDefaultServerFromStorage_def Let_def case_prod_beta entries_ok_def)
  ultimately show ?thesis by (simp add: registry_ok_def)
qed

lemma loadFromStorage_ok: "(\<And>i. uuid_ok (uuids i)) \<Longrightarrow> registry_ok (loadFromStorage env uuids r)"
  by (simp add: loadFromStorage_def Let_def case_prod_beta update_default_ok load_entries_ok)

lemma new_repository_ok: "(\<And>i. uuid_ok (uuids i)) \<Longrightarrow> registry_ok (new_repository env uuids settings)"
  by (simp add: new_repository_def registry_ok_def loadFromStorage_ok [unfolded registry_ok_def])

lemma addServer_ok:
  assumes "registry_ok r" "uuid_ok uuid"
  shows "registry_ok (fst (snd (addServer env uuid i json kind r)))"
  using assms
  by (auto simp: addServer_def registry_ok_def Let_def entries_ok_append normalized_ok)

lemma entry_of:
  "entries_ok r \<Longrightarrow> m_serverJsonById r i = Some json \<Longrightarrow>
   i \<in> set (m_orderedServerIds r) \<and> uuid_ok i \<and> embedStorageServerId i (withoutStorageServerId json) = json"
  unfolding entries_ok_def entry_ok_def uuid_ok_def list_all_iff by (metis domI option.sel)

lemma editServer_cases:
  assumes "registry_ok r"
  shows "editServer env i json kind r =
    (if i \<notin> set (m_orderedServerIds r) \<or> kind = Invalid \<or> kindOf env json \<noteq> kind then (r, [])
     else (syncToStorage env (r\<lparr>m_serverJsonById := (m_serverJsonById r)
             (i \<mapsto> embedStorageServerId i (withoutStorageServerId json))\<rparr>), [serverEdited i]))"
proof (cases "m_serverJsonById r i")
  case None
  then show ?thesis using assms
    by (auto simp: editServer_def registry_ok_def entries_ok_def)
next
  case (Some old)
  then show ?thesis using assms entry_of[of r i old]
    by (auto simp: editServer_def registry_ok_def Let_def indexOfServerId_def indexOf_neg fun_upd_idem)
qed

lemma editServer_ok:
  assumes "registry_ok r"
  shows "registry_ok (fst (editServer env i json kind r))"
  using assms by (auto simp: editServer_cases registry_ok_def entries_ok_replace)

lemma removeServer_ok:
  assumes "registry_ok r"
  shows "registry_ok (fst (removeServer env i r))"
  using assms entries_ok_remove[of r i]
  by (auto simp: removeServer_def registry_ok_def Let_def indexOfServerId_def indexOf_neg)

lemma setDefaultServer_ok:
  assumes "registry_ok r"
  shows "registry_ok (fst (setDefaultServer env i r))"
  using assms by (auto simp: setDefaultServer_def registry_ok_def Let_def)

lemma clearServers_ok: "registry_ok (clearServers env r)"
  by (simp add: clearServers_def registry_ok_def)

text \<open>
  The public operations that change the object, as a datatype, and the states of a
  repository object: its constructor followed by any sequence of operations.
\<close>

datatype repo_op =
    AddServer QString QString QJsonObject ConfigType
  | EditServer QString QJsonObject ConfigType
  | RemoveServer QString
  | SetDefaultServer QString
  | ClearServers
  | InvalidateCache "nat \<Rightarrow> QString"

fun repo_apply ::
  "'e repo_env_scheme \<Rightarrow> repo_op \<Rightarrow> SecureServersRepository \<Rightarrow> SecureServersRepository" where
  "repo_apply env (AddServer uuid i json kind) r = fst (snd (addServer env uuid i json kind r))"
| "repo_apply env (EditServer i json kind) r = fst (editServer env i json kind r)"
| "repo_apply env (RemoveServer i) r = fst (removeServer env i r)"
| "repo_apply env (SetDefaultServer i) r = fst (setDefaultServer env i r)"
| "repo_apply env ClearServers r = clearServers env r"
| "repo_apply env (InvalidateCache uuids) r = invalidateCache env uuids r"

fun op_uuids_ok :: "repo_op \<Rightarrow> bool" where
  "op_uuids_ok (AddServer uuid i json kind) = uuid_ok uuid"
| "op_uuids_ok (InvalidateCache uuids) = (\<forall>i. uuid_ok (uuids i))"
| "op_uuids_ok _ = True"

inductive repo_reachable :: "'e repo_env_scheme \<Rightarrow> SecureServersRepository \<Rightarrow> bool" for env where
  construct: "(\<And>i. uuid_ok (uuids i)) \<Longrightarrow> repo_reachable env (new_repository env uuids settings)"
| operate: "repo_reachable env r \<Longrightarrow> op_uuids_ok op \<Longrightarrow> repo_reachable env (repo_apply env op r)"

lemma repo_apply_ok: "registry_ok r \<Longrightarrow> op_uuids_ok op \<Longrightarrow> registry_ok (repo_apply env op r)"
  by (cases op)
    (simp_all add: addServer_ok editServer_ok removeServer_ok setDefaultServer_ok
      clearServers_ok invalidateCache_def loadFromStorage_ok)

lemma reachable_registry_ok: "repo_reachable env r \<Longrightarrow> registry_ok r"
  by (induction rule: repo_reachable.induct) (simp_all add: new_repository_ok repo_apply_ok)

section \<open>Loading what was stored\<close>

lemma servers_array_ok:
  "entries_ok r \<Longrightarrow>
   servers_array r = map (\<lambda>i. JObject (the (m_serverJsonById r i))) (m_orderedServerIds r)"
  by (auto simp: servers_array_def entries_ok_def intro!: arg_cong [of _ _ "map _"] filter_True)

lemma load_entries_settings [simp]:
  "repo_settings (load_entries env uuids n vals r) = repo_settings r"
  by (induction vals arbitrary: n r) (simp_all add: Let_def)

lemma load_entries_stored:
  assumes "entries_ok r" "m_orderedServerIds r = pre @ post"
    and "m_serverJsonById r0 = m_serverJsonById r |` set pre" "m_orderedServerIds r0 = pre"
  shows "m_serverJsonById (load_entries env uuids n (map (\<lambda>i. JObject (the (m_serverJsonById r i))) post) r0)
      = m_serverJsonById r \<and>
    m_orderedServerIds (load_entries env uuids n (map (\<lambda>i. JObject (the (m_serverJsonById r i))) post) r0)
      = m_orderedServerIds r"
  using assms(2-4)
proof (induction post arbitrary: pre n r0)
  case Nil
  then show ?case using assms(1) by (auto simp: entries_ok_def restrict_map_def domIff fun_eq_iff)
next
  case (Cons i post)
  have d: "distinct (pre @ i # post)" "set (pre @ i # post) = dom (m_serverJsonById r)"
    using assms(1) Cons.prems(1) by (simp_all add: entries_ok_def)
  then obtain json where j: "m_serverJsonById r i = Some json" by auto
  note e = entry_of[OF assms(1) j]
  have "readStorageServerId json = i"
    using e read_embed[of i "withoutStorageServerId json"] by (simp add: uuid_ok_def)
  moreover have fresh: "m_serverJsonById r0 i = None"
    using Cons.prems(2) d(1) by (simp add: restrict_map_def)
  ultimately have nid: "normalizedOrGeneratedServerId (uuids n) (readStorageServerId json) r0 = i"
    using e normalized_stored by blast
  let ?r1 = "r0\<lparr>m_serverJsonById := (m_serverJsonById r0)(i \<mapsto> json),
               m_orderedServerIds := m_orderedServerIds r0 @ [i]\<rparr>"
  have "m_serverJsonById ?r1 = m_serverJsonById r |` set (pre @ [i])"
    using Cons.prems(2) j by (auto simp: restrict_map_def fun_eq_iff)
  from Cons.IH[of "pre @ [i]" ?r1 "Suc n", OF _ this] show ?case
    using Cons.prems j nid fresh e by simp
qed

section \<open>What is saved\<close>

text \<open>A repository is saved when its array of servers and its default server are.\<close>

definition repo_saved :: "'e repo_env_scheme \<Rightarrow> SecureServersRepository \<Rightarrow> bool" where
  "repo_saved env r =
     (saved_value env (repo_settings r) ''Servers/serversList''
        (VByteArray (json_toBytes env (servers_array r))) \<and>
      saved_value env (repo_settings r) ''Servers/defaultServerId'' (VString (m_defaultServerId r)))"

definition codec_ok :: "'e repo_env_scheme \<Rightarrow> SecureServersRepository \<Rightarrow> bool" where
  "codec_ok env r =
     (json_fromBytes env (json_toBytes env (servers_array r)) = servers_array r \<and>
      coding_ok env (VByteArray (json_toBytes env (servers_array r))) \<and>
      coding_ok env (VString (m_defaultServerId r)))"

lemma persist_settings:
  "repo_settings (persistDefaultServerFields env r)
     = setValue env ''Servers/defaultServerId''
         (VString (m_defaultServerId (persistDefaultServerFields env r))) (repo_settings r)"
  by (simp add: persistDefaultServerFields_def Let_def)

lemma servers_array_cong:
  "m_serverJsonById r = m_serverJsonById r' \<Longrightarrow> m_orderedServerIds r = m_orderedServerIds r' \<Longrightarrow>
   servers_array r = servers_array r'"
  by (simp add: servers_array_def)

lemma servers_array_frame [simp]:
  "servers_array (r\<lparr>repo_settings := s\<rparr>) = servers_array r"
  "servers_array (r\<lparr>m_defaultServerId := d\<rparr>) = servers_array r"
  "servers_array (persistDefaultServerFields env r) = servers_array r"
  "servers_array (syncToStorage env r) = servers_array r"
  by (rule servers_array_cong; simp)+

lemma persist_saved:
  assumes "disk_ready env (repo_settings r)"
    and "saved_value env (repo_settings r) ''Servers/serversList'' (VByteArray (json_toBytes env (servers_array r)))"
    and "codec_ok env (persistDefaultServerFields env r)"
  shows "repo_saved env (persistDefaultServerFields env r) \<and>
    disk_ready env (repo_settings (persistDefaultServerFields env r))"
proof -
  let ?r = "persistDefaultServerFields env r"
  have "coding_ok env (VString (m_defaultServerId ?r))" using assms(3) by (simp add: codec_ok_def)
  then show ?thesis
    unfolding repo_saved_def persist_settings servers_array_frame
    using assms(1,2) by (simp add: saved_setValue saved_keeps disk_ready_setValue)
qed

lemma sync_saved:
  assumes "disk_ready env (repo_settings r)" "codec_ok env (syncToStorage env r)"
  shows "repo_saved env (syncToStorage env r) \<and> disk_ready env (repo_settings (syncToStorage env r))"
proof -
  let ?r1 = "r\<lparr>repo_settings := setValue env ''Servers/serversList''
            (VByteArray (json_toBytes env (servers_array r))) (repo_settings r)\<rparr>"
  have "coding_ok env (VByteArray (json_toBytes env (servers_array r)))"
    using assms(2) by (simp add: codec_ok_def)
  then show ?thesis unfolding syncToStorage_def
    using assms persist_saved[of env ?r1] by (simp add: syncToStorage_def saved_setValue disk_ready_setValue)
qed

text \<open>The parts of a repository that its clients see.\<close>

definition same_servers :: "SecureServersRepository \<Rightarrow> SecureServersRepository \<Rightarrow> bool" where
  "same_servers r r' =
     (m_orderedServerIds r' = m_orderedServerIds r \<and> m_serverJsonById r' = m_serverJsonById r \<and>
      m_defaultServerId r' = m_defaultServerId r)"

lemma load_array:
  assumes "entries_ok r" "json_fromBytes env (json_toBytes env (servers_array r)) = servers_array r"
    and "settings_value env ''Servers/serversList'' (VByteArray []) (repo_settings r0)
      = (VByteArray (json_toBytes env (servers_array r)), t)"
  obtains r1 where "loadFromStorage env uuids r0 = updateDefaultServerFromStorage env r1"
    "m_serverJsonById r1 = m_serverJsonById r" "m_orderedServerIds r1 = m_orderedServerIds r"
    "repo_settings r1 = t"
proof -
  let ?r0 = "(clearServerStateMaps r0)\<lparr>repo_settings := t\<rparr>"
  have frame: "repo_settings (clearServerStateMaps r0) = repo_settings r0"
    "m_serverJsonById ?r0 = m_serverJsonById r |` set []" "m_orderedServerIds ?r0 = []"
    by (simp_all add: clearServerStateMaps_def)
  show ?thesis
    by (rule that[of "load_entries env uuids 0 (servers_array r) ?r0"])
      (use assms frame load_entries_stored[OF assms(1) _ frame(2,3), of "m_orderedServerIds r" env uuids 0]
        in \<open>simp_all add: loadFromStorage_def servers_array_ok\<close>)
qed

lemma load_default:
  assumes "registry_ok r" "m_serverJsonById r1 = m_serverJsonById r" "m_orderedServerIds r1 = m_orderedServerIds r"
    and "settings_value env ''Servers/defaultServerId'' (VString []) (repo_settings r1)
      = (VString (m_defaultServerId r), t)"
  shows "same_servers r (updateDefaultServerFromStorage env r1) \<and>
    (repo_settings (updateDefaultServerFromStorage env r1) = t \<or>
     (\<exists>d. repo_settings (updateDefaultServerFromStorage env r1)
       = snd (settings_value env ''Servers/defaultServerIndex'' d t)))"
proof (cases "m_orderedServerIds r = []")
  case True
  then have "m_defaultServerId r = []" using assms(1) by (simp add: registry_ok_def default_ok_def)
  with True assms(2-4) show ?thesis
    by (auto simp: same_servers_def updateDefaultServerFromStorage_def Let_def case_prod_beta)
next
  case False
  then have "m_defaultServerId r \<in> set (m_orderedServerIds r)"
    using assms(1) by (simp add: registry_ok_def default_ok_def)
  moreover from this have "m_defaultServerId r \<noteq> []" "m_serverJsonById r (m_defaultServerId r) \<noteq> None"
    using assms(1) by (auto simp: registry_ok_def entries_ok_def entry_ok_def list_all_iff)
  ultimately show ?thesis using assms(2-4)
    by (auto simp: same_servers_def updateDefaultServerFromStorage_def)
qed

lemma reload_saved:
  assumes "registry_ok r" "disk_ready env (repo_settings r)" "repo_saved env r" "codec_ok env r"
  shows "same_servers r (loadFromStorage env uuids r) \<and> repo_saved env (loadFromStorage env uuids r) \<and>
    disk_ready env (repo_settings (loadFromStorage env uuids r))"
proof -
  let ?s = "repo_settings r"
  have sv: "saved_value env ?s ''Servers/serversList'' (VByteArray (json_toBytes env (servers_array r)))"
    "saved_value env ?s ''Servers/defaultServerId'' (VString (m_defaultServerId r))"
    using assms(3) by (simp_all add: repo_saved_def)
  have "settings_value env ''Servers/serversList'' (VByteArray []) ?s
      = (VByteArray (json_toBytes env (servers_array r)), ?s)"
    using sv(1) by (simp add: saved_value_def sqs.get_holds)
  with assms(1,4) obtain r1 where r1:
    "loadFromStorage env uuids r = updateDefaultServerFromStorage env r1"
    "m_serverJsonById r1 = m_serverJsonById r" "m_orderedServerIds r1 = m_orderedServerIds r"
    "repo_settings r1 = ?s"
    using load_array[of r env r ?s uuids] by (auto simp: registry_ok_def codec_ok_def)
  have "settings_value env ''Servers/defaultServerId'' (VString []) (repo_settings r1)
      = (VString (m_defaultServerId r), ?s)"
    using sv(2) r1(4) by (simp add: saved_value_def sqs.get_holds)
  note ld = load_default[OF assms(1) r1(2,3) this]
  let ?l = "updateDefaultServerFromStorage env r1"
  have arr: "servers_array ?l = servers_array r" using r1 by (intro servers_array_cong) simp_all
  have "disk_ready env (repo_settings ?l) \<and> repo_saved env ?l"
    using ld sv assms(2) settings_value_frame[OF assms(2)]
    unfolding repo_saved_def arr by (auto simp: same_servers_def)
  with ld show ?thesis by (simp add: r1(1))
qed

lemma restart_saved:
  assumes "registry_ok r" "flagged env (repo_settings r)" "repo_saved env r" "codec_ok env r"
  shows "same_servers r (new_repository env uuids (reopen env (repo_settings r)))"
proof -
  let ?s = "repo_settings r"
  have od: "on_disk env ?s ''Servers/serversList'' (VByteArray (json_toBytes env (servers_array r)))"
    "on_disk env ?s ''Servers/defaultServerId'' (VString (m_defaultServerId r))"
    using assms(3) by (simp_all add: repo_saved_def saved_value_def)
  define r0 where "r0 = \<lparr>repo_settings = reopen env ?s, m_serverJsonById = Map.empty,
    m_orderedServerIds = [], m_defaultServerId = ''''\<rparr>"
  note fresh = same_disk_reopen[OF assms(2)]
  then have "same_disk ?s (reopen env ?s)" "m_cache (reopen env ?s) ''Servers/serversList'' = None"
    by simp_all
  with od(1) obtain t where t:
    "settings_value env ''Servers/serversList'' (VByteArray []) (reopen env ?s)
      = (VByteArray (json_toBytes env (servers_array r)), t)" "same_disk ?s t"
    "m_cache t = (m_cache (reopen env ?s))
      (''Servers/serversList'' \<mapsto> VByteArray (json_toBytes env (servers_array r)))"
    by (rule read_on_disk)
  have "m_cache t ''Servers/defaultServerId'' = None" using t(3) fresh by simp
  with od(2) t(2) obtain t' where t':
    "settings_value env ''Servers/defaultServerId'' (VString []) t = (VString (m_defaultServerId r), t')"
    by (rule read_on_disk)
  obtain r1 where r1:
    "loadFromStorage env uuids r0 = updateDefaultServerFromStorage env r1"
    "m_serverJsonById r1 = m_serverJsonById r" "m_orderedServerIds r1 = m_orderedServerIds r"
    "repo_settings r1 = t"
    using load_array[of r env r0 t uuids] assms(1,4) t(1)
    by (auto simp: r0_def registry_ok_def codec_ok_def)
  have ss: "same_servers r (loadFromStorage env uuids r0)"
    using load_default[OF assms(1) r1(2,3), of env t'] t' r1(1,4) by simp
  then have "default_ok (loadFromStorage env uuids r0)"
    using assms(1) by (simp add: registry_ok_def default_ok_def same_servers_def)
  with ss show ?thesis by (simp add: new_repository_def same_servers_def flip: r0_def)
qed

lemma sync_or_same_saved:
  assumes "disk_ready env (repo_settings r)" "repo_saved env r" "codec_ok env r'"
    and "r' = r \<or> (\<exists>r2. repo_settings r2 = repo_settings r \<and> r' = syncToStorage env r2)"
  shows "repo_saved env r' \<and> disk_ready env (repo_settings r')"
  using assms sync_saved[of env] by metis

lemma addServer_form:
  "fst (snd (addServer env uuid i json kind r)) = r \<or>
   (\<exists>r2. repo_settings r2 = repo_settings r \<and> fst (snd (addServer env uuid i json kind r)) = syncToStorage env r2)"
proof -
  define j where "j = normalizedOrGeneratedServerId uuid i r"
  define r1 where "r1 = r\<lparr>m_serverJsonById := (m_serverJsonById r)
      (j \<mapsto> embedStorageServerId j (withoutStorageServerId json)),
    m_orderedServerIds := m_orderedServerIds r @ [j]\<rparr>"
  define r2 where "r2 = (if m_defaultServerId r1 = '''' then r1\<lparr>m_defaultServerId := j\<rparr> else r1)"
  have "repo_settings r2 = repo_settings r" by (simp add: r2_def r1_def)
  moreover have "fst (snd (addServer env uuid i json kind r)) \<in> {r, syncToStorage env r2}"
    unfolding addServer_def Let_def j_def [symmetric] r1_def [symmetric] r2_def [symmetric] by simp
  ultimately show ?thesis by blast
qed

lemma removeServer_form:
  "fst (removeServer env i r) = r \<or>
   (\<exists>r2. repo_settings r2 = repo_settings r \<and> fst (removeServer env i r) = syncToStorage env r2)"
proof -
  define r1 where "r1 = r\<lparr>m_serverJsonById := (m_serverJsonById r)(i := None),
    m_orderedServerIds := list_removeAt (nat (indexOfServerId i r)) (m_orderedServerIds r)\<rparr>"
  define ids where "ids = m_orderedServerIds r1"
  define r2 where "r2 = (if ids = [] then r1\<lparr>m_defaultServerId := ''''\<rparr>
    else if m_defaultServerId r1 = i
    then r1\<lparr>m_defaultServerId := ids ! nat (min (indexOfServerId i r) (int (length ids) - 1))\<rparr>
    else if m_defaultServerId r1 \<notin> set ids then r1\<lparr>m_defaultServerId := hd ids\<rparr> else r1)"
  have "repo_settings r2 = repo_settings r" by (simp add: r2_def r1_def)
  moreover have "fst (removeServer env i r) \<in> {r, syncToStorage env r2}"
    unfolding removeServer_def Let_def r1_def [symmetric] ids_def [symmetric] r2_def [symmetric] by simp
  ultimately show ?thesis by blast
qed

lemma repo_apply_saved:
  assumes "registry_ok r" "disk_ready env (repo_settings r)" "repo_saved env r" "codec_ok env r"
    and "codec_ok env (repo_apply env op r)"
  shows "repo_saved env (repo_apply env op r) \<and> disk_ready env (repo_settings (repo_apply env op r))"
proof (cases op)
  case (AddServer uuid i json kind)
  then show ?thesis
    using sync_or_same_saved[OF assms(2,3,5)] addServer_form[of env uuid i json kind r] by simp
next
  case (EditServer i json kind)
  then show ?thesis using assms
      sync_saved[of env "r\<lparr>m_serverJsonById := (m_serverJsonById r)
        (i \<mapsto> embedStorageServerId i (withoutStorageServerId json))\<rparr>"]
    by (auto simp: editServer_cases split: if_splits)
next
  case (RemoveServer i)
  then show ?thesis using sync_or_same_saved[OF assms(2,3,5)] removeServer_form[of env i r] by simp
next
  case (SetDefaultServer i)
  then show ?thesis using assms persist_saved[of env "r\<lparr>m_defaultServerId := i\<rparr>"]
    by (auto simp: setDefaultServer_def Let_def repo_saved_def [of env r])
next
  case ClearServers
  then show ?thesis
    using assms sync_saved[of env "(clearServerStateMaps r)\<lparr>m_defaultServerId := ''''\<rparr>"]
    by (simp add: clearServers_def clearServerStateMaps_def)
next
  case (InvalidateCache uuids)
  then show ?thesis using reload_saved[OF assms(1-4), of uuids] by (simp add: invalidateCache_def)
qed

section \<open>Names and views\<close>

lemma next_name_spec:
  "next_name env used i \<notin> set used \<and>
   (\<exists>n > i. next_name env used i = server_name env n \<and> (\<forall>m. i < m \<and> m < n \<longrightarrow> server_name env m \<in> set used))"
proof (induction env used i rule: next_name.induct)
  case (1 env used i)
  show ?case
  proof (cases "server_name env (Suc i) \<in> set used")
    case True
    then have eq: "next_name env used i = next_name env used (Suc i)"
      by (subst next_name.simps) (simp add: Let_def)
    from 1[OF refl refl True] obtain n where n: "n > Suc i"
        "next_name env used (Suc i) = server_name env n" "next_name env used (Suc i) \<notin> set used"
        "\<And>m. Suc i < m \<Longrightarrow> m < n \<Longrightarrow> server_name env m \<in> set used" by blast
    have "server_name env m \<in> set used" if "i < m" "m < n" for m
      using that True n(4) by (cases "m = Suc i") auto
    with n eq show ?thesis by (auto intro!: exI[of _ n])
  next
    case False
    then have "next_name env used i = server_name env (Suc i)"
      by (subst next_name.simps) (simp add: Let_def)
    with False show ?thesis by (auto intro!: exI[of _ "Suc i"])
  qed
qed

definition typed_views :: "'e repo_env_scheme \<Rightarrow> QString \<Rightarrow> SecureServersRepository \<Rightarrow> bool list" where
  "typed_views env i r =
     [selfHostedAdminConfig env i r \<noteq> None, selfHostedUserConfig env i r \<noteq> None,
      nativeConfig env i r \<noteq> None, apiV2Config env i r \<noteq> None, legacyApiConfig env i r \<noteq> None]"

section \<open>Sequences of operations\<close>

fun repo_run :: "'e repo_env_scheme \<Rightarrow> repo_op list \<Rightarrow> SecureServersRepository \<Rightarrow> SecureServersRepository" where
  "repo_run env [] r = r"
| "repo_run env (op # ops) r = repo_run env ops (repo_apply env op r)"

fun run_codec_ok :: "'e repo_env_scheme \<Rightarrow> repo_op list \<Rightarrow> SecureServersRepository \<Rightarrow> bool" where
  "run_codec_ok env [] r = codec_ok env r"
| "run_codec_ok env (op # ops) r = (codec_ok env r \<and> run_codec_ok env ops (repo_apply env op r))"

lemma run_codec_ok_first: "run_codec_ok env ops r \<Longrightarrow> codec_ok env r"
  by (cases ops) simp_all

lemma repo_run_saved:
  assumes "registry_ok r" "disk_ready env (repo_settings r)" "repo_saved env r"
    and "list_all op_uuids_ok ops" "run_codec_ok env ops r"
  shows "registry_ok (repo_run env ops r) \<and> disk_ready env (repo_settings (repo_run env ops r)) \<and>
    repo_saved env (repo_run env ops r) \<and> codec_ok env (repo_run env ops r)"
  using assms
proof (induction ops arbitrary: r)
  case (Cons op ops)
  from Cons.prems have "codec_ok env (repo_apply env op r)"
    by (auto dest: run_codec_ok_first)
  with Cons repo_apply_saved[of r env op] repo_apply_ok[of r op env] show ?case by simp
qed simp

section \<open>Properties\<close>

text \<open>
  A concrete environment for the witnesses: a JSON coding that inverts on the arrays that
  occur, a cipher that reverses, and a tagged stream coding.
\<close>

definition example_json :: QJsonObject where
  "example_json = [(''hostName'', JString ''h''), (''userName'', JString ''u''),
     (''password'', JString ''p''), (''port'', JDouble 22)]"

definition example_stored :: QJsonObject where
  "example_stored = embedStorageServerId ''a'' example_json"

definition example_repo_env :: repo_env where
  "example_repo_env =
     \<lparr>encryptAes256Cbc = (\<lambda>x k iv. rev x), decryptAes256Cbc = (\<lambda>x k iv. rev x),
      ds_write = (\<lambda>v. case v of VByteArray b \<Rightarrow> CHR ''B'' # b | _ \<Rightarrow> CHR ''S'' # variant_toString v),
      ds_read = (\<lambda>b. if hd b = CHR ''B'' then VByteArray (tl b) else VString (tl b)),
      generateRandomBytes = (\<lambda>t. ''k''),
      keychain_write = (\<lambda>kc t b. kc(t := b)), os_linux = False,
      json_toBytes = (\<lambda>xs. if xs = [] then ''[]'' else ''[1]''),
      json_fromBytes = (\<lambda>b. if b = ''[1]'' then [JObject example_stored] else []),
      freeV2Endpoint = ''free'', premiumV1Endpoint = ''prem'', tr_Server = ''Server''\<rparr>"

definition example_repo :: SecureServersRepository where
  "example_repo =
     \<lparr>repo_settings = example_store, m_serverJsonById = [''a'' \<mapsto> example_stored],
      m_orderedServerIds = [''a''], m_defaultServerId = ''a''\<rparr>"

lemma example_kind: "kindOf example_repo_env example_json = SelfHostedAdmin"
proof -
  have "\<not> isServerFromApi example_json" "\<not> hasThirdPartyConfig example_json"
    "hasCredentials (SelfHostedAdmin_fromJson example_json)"
    by (simp_all add: example_json_def isServerFromApi_def config_version_def obj_value_def
        obj_contains_def hasThirdPartyConfig_def hasCredentials_def SelfHostedAdmin_fromJson_def Let_def)
  then show ?thesis by (simp add: configTypeFromJson_not_api)
qed

lemma example_trimmed: "uuid_ok ''a''" "uuid_ok ''b''"
  by (code_simp)+

lemma example_without: "withoutStorageServerId example_json = example_json"
  by (simp add: withoutStorageServerId_def example_json_def storageServerId_def obj_remove_absent)

lemma example_stored_simps:
  "withoutStorageServerId example_stored = example_json"
  "embedStorageServerId ''a'' example_json = example_stored"
  by (simp_all add: example_stored_def example_without)

lemma example_registry_ok: "registry_ok example_repo"
  using example_trimmed(1)
  by (simp add: registry_ok_def entries_ok_def entry_ok_def default_ok_def example_repo_def
      example_stored_simps uuid_ok_def)

lemma example_disk_ready: "disk_ready example_repo_env (repo_settings example_repo)"
  by (simp add: disk_ready_def keychain_stores_def key_synced_def store_ok_def keys_usable_def
      flagged_def getEncKey_def getEncIv_def Let_def example_repo_env_def example_repo_def example_defs)

text \<open>
  C7: in every state a repository object can reach, by its constructor on any stored
  settings and any sequence of its operations, the ids are distinct and name exactly the
  stored objects, every object embeds its own id, and the default server is one of them,
  at the position the object reports.
\<close>

theorem repository_invariant:
  assumes "repo_reachable env r"
  shows "registry_ok r \<and>
    (serversCount r > 0 \<longrightarrow> serverIdAt (defaultServerIndex r) r = m_defaultServerId r)"
proof -
  have ok: "registry_ok r" using assms by (rule reachable_registry_ok)
  have "serverIdAt (defaultServerIndex r) r = m_defaultServerId r" if "m_orderedServerIds r \<noteq> []"
    using that ok indexOf_nth[of "m_defaultServerId r" "m_orderedServerIds r"]
      indexOf_nonneg[of "m_orderedServerIds r" "m_defaultServerId r"]
    by (simp add: registry_ok_def default_ok_def serverIdAt_def defaultServerIndex_def Let_def nat_less_iff)
  with ok show ?thesis by (auto simp: serversCount_def)
qed

theorem repository_invariant_witness:
  "registry_ok (repo_apply example_repo_env (AddServer ''b'' ''a'' example_json SelfHostedAdmin)
     (new_repository example_repo_env (\<lambda>i. ''b'') example_store))"
  by (rule conjunct1 [OF repository_invariant [of example_repo_env]])
    (intro repo_reachable.intros; simp add: example_trimmed)

text \<open>
  C6: nothing the user does to the list of servers is lost: from a repository whose content
  is saved, after any sequence of additions, edits, removals, changes of the default server,
  clearing and reloading, a new process that opens the same file and key chain builds a
  repository with the same servers in the same order, the same objects and the same default.
  The JSON, stream and cipher codings are assumed to invert on the arrays that are written.
\<close>

theorem servers_survive_restart:
  assumes "registry_ok r" and "disk_ready env (repo_settings r)" and "repo_saved env r"
    and "list_all op_uuids_ok ops" and "run_codec_ok env ops r"
  shows "same_servers (repo_run env ops r)
    (new_repository env uuids (reopen env (repo_settings (repo_run env ops r))))"
  using repo_run_saved[OF assms] by (intro restart_saved) (simp_all add: disk_ready_def)

theorem servers_survive_restart_witness:
  "same_servers (clearServers example_repo_env (syncToStorage example_repo_env example_repo))
    (new_repository example_repo_env (\<lambda>i. ''b'') (reopen example_repo_env
      (repo_settings (clearServers example_repo_env (syncToStorage example_repo_env example_repo)))))"
proof -
  let ?r = "syncToStorage example_repo_env example_repo"
  have arr: "servers_array ?r = [JObject example_stored]" "m_defaultServerId ?r = ''a''"
    "servers_array (clearServers example_repo_env ?r) = []"
    "m_defaultServerId (clearServers example_repo_env ?r) = ''''"
    using example_registry_ok
    by (simp_all add: registry_ok_def clearServers_def clearServerStateMaps_def default_ok_def)
      (simp_all add: example_repo_def servers_array_def)
  have cod: "codec_ok example_repo_env ?r" "codec_ok example_repo_env (clearServers example_repo_env ?r)"
    unfolding codec_ok_def arr by (simp_all add: coding_ok_def example_repo_env_def magicString_def)
  have "registry_ok ?r" using example_registry_ok by (simp add: registry_ok_def)
  with servers_survive_restart [of ?r example_repo_env "[ClearServers]" "\<lambda>i. ''b''"]
    sync_saved[OF example_disk_ready cod(1)] cod
  show ?thesis by simp
qed

text \<open>
  Adding a server. It is stored under the requested id when that is usable and new, and
  otherwise under a generated one; it is appended at the end with the declared kind, becomes
  the default only if it is the first, and changes nothing else. An object whose kind is not
  the declared one changes nothing and emits nothing.
\<close>

theorem addServer_spec:
  assumes "registry_ok r" and "uuid_ok uuid" and "addServer env uuid i json kind r = (j, r', sig)"
  shows "if m_serverJsonById r j = None \<and> kind \<noteq> Invalid \<and> kindOf env json = kind
    then sig = [serverAdded j] \<and> m_orderedServerIds r' = m_orderedServerIds r @ [j] \<and>
      serverKind env j r' = kind \<and> (\<forall>k. k \<noteq> j \<longrightarrow> m_serverJsonById r' k = m_serverJsonById r k) \<and>
      m_defaultServerId r' = (if m_orderedServerIds r = [] then j else m_defaultServerId r) \<and>
      j = (if uuid_ok (trimmed i) \<and> m_serverJsonById r (trimmed i) = None then trimmed i else uuid)
    else r' = r \<and> sig = []"
proof (cases "m_serverJsonById r j = None \<and> kind \<noteq> Invalid \<and> kindOf env json = kind")
  case False
  then show ?thesis using assms(3) by (auto simp: addServer_def Let_def split: if_splits)
next
  case True
  define r1 where "r1 = r\<lparr>m_serverJsonById := (m_serverJsonById r)
      (j \<mapsto> embedStorageServerId j (withoutStorageServerId json)),
    m_orderedServerIds := m_orderedServerIds r @ [j]\<rparr>"
  define r2 where "r2 = (if m_defaultServerId r1 = '''' then r1\<lparr>m_defaultServerId := j\<rparr> else r1)"
  have j: "j = normalizedOrGeneratedServerId uuid i r"
    using assms(3) by (auto simp: addServer_def Let_def split: if_splits)
  have r': "r' = syncToStorage env r2" "sig = [serverAdded j]"
    using True assms(3) unfolding addServer_def Let_def j [symmetric] r1_def [symmetric] r2_def [symmetric]
    by simp_all
  have emp: "m_defaultServerId r = '''' \<longleftrightarrow> m_orderedServerIds r = []"
    using assms(1) by (auto simp: registry_ok_def default_ok_def entries_ok_def entry_ok_def list_all_iff)
  then have d: "m_defaultServerId r2 = (if m_orderedServerIds r = [] then j else m_defaultServerId r)"
    by (simp add: r2_def r1_def)
  have m: "m_orderedServerIds r2 = m_orderedServerIds r @ [j]" "m_serverJsonById r2 =
      (m_serverJsonById r)(j \<mapsto> embedStorageServerId j (withoutStorageServerId json))"
    by (simp_all add: r2_def r1_def)
  have "default_ok r2"
    using assms(1) by (simp add: registry_ok_def default_ok_def d m split: if_splits)
  moreover have "j = (if uuid_ok (trimmed i) \<and> m_serverJsonById r (trimmed i) = None then trimmed i else uuid)"
    by (simp add: j normalizedOrGeneratedServerId_def uuid_ok_def Let_def)
  ultimately show ?thesis using True by (simp add: r' d m serverKind_def)
qed

theorem addServer_spec_witness:
  "snd (snd (addServer example_repo_env ''b'' ''a'' example_json SelfHostedAdmin example_repo))
   = [serverAdded ''b'']"
proof -
  obtain j r' sig where e: "addServer example_repo_env ''b'' ''a'' example_json SelfHostedAdmin example_repo
      = (j, r', sig)" by (metis prod_cases3)
  have "trimmed ''a'' = ''a''" using example_trimmed by (simp add: uuid_ok_def)
  then have "j = ''b''" using e
    by (auto simp: addServer_def normalizedOrGeneratedServerId_def Let_def example_repo_def split: if_splits)
  with addServer_spec [OF example_registry_ok example_trimmed(2) e] example_kind
  have "sig = [serverAdded ''b'']" by (simp add: example_repo_def)
  then show ?thesis by (simp add: e)
qed

text \<open>
  Editing a server. An edit whose object does not have the declared kind, or names no
  stored server, leaves the repository exactly as it was and emits nothing, although the
  code takes the old entry out before it checks. An accepted edit replaces that one object,
  under the same id, and keeps the order, the default and every other server.
\<close>

theorem editServer_spec:
  assumes "registry_ok r" and "editServer env i json kind r = (r', sig)"
  shows "if i \<in> set (m_orderedServerIds r) \<and> kind \<noteq> Invalid \<and> kindOf env json = kind
    then sig = [serverEdited i] \<and> m_orderedServerIds r' = m_orderedServerIds r \<and>
      m_defaultServerId r' = m_defaultServerId r \<and> serverKind env i r' = kind \<and>
      map_option withoutStorageServerId (m_serverJsonById r' i) = Some (withoutStorageServerId json) \<and>
      (\<forall>k. k \<noteq> i \<longrightarrow> m_serverJsonById r' k = m_serverJsonById r k)
    else r' = r \<and> sig = []"
proof (cases "i \<in> set (m_orderedServerIds r) \<and> kind \<noteq> Invalid \<and> kindOf env json = kind")
  case True
  let ?r1 = "r\<lparr>m_serverJsonById := (m_serverJsonById r)
      (i \<mapsto> embedStorageServerId i (withoutStorageServerId json))\<rparr>"
  have "r' = syncToStorage env ?r1" "sig = [serverEdited i]"
    using True assms by (auto simp: editServer_cases)
  moreover have "default_ok ?r1" using assms(1) by (simp add: registry_ok_def default_ok_def)
  ultimately show ?thesis using True by (simp add: serverKind_def)
qed (use assms in \<open>auto simp: editServer_cases\<close>)

theorem editServer_spec_witness:
  "editServer example_repo_env ''a'' example_json Native example_repo = (example_repo, [])"
proof -
  obtain r' sig where e: "editServer example_repo_env ''a'' example_json Native example_repo = (r', sig)"
    by (metis surj_pair)
  from editServer_spec [OF example_registry_ok e] show ?thesis by (simp add: e example_kind)
qed

text \<open>The state that \<open>removeServer\<close> writes, when it removes.\<close>

definition removed_default :: "QString \<Rightarrow> QString list \<Rightarrow> SecureServersRepository \<Rightarrow> QString" where
  "removed_default i ids r =
     (if ids = [] then '''' else if m_defaultServerId r = i
      then ids ! nat (min (indexOfServerId i r) (int (length ids) - 1)) else m_defaultServerId r)"

lemma removeServer_stored:
  assumes "registry_ok r" "i \<in> set (m_orderedServerIds r)"
    and ids_def: "ids = filter (\<lambda>j. j \<noteq> i) (m_orderedServerIds r)"
    and d_def: "d = removed_default i ids r"
    and r2_def: "r2 = r\<lparr>m_serverJsonById := (m_serverJsonById r)(i := None), m_orderedServerIds := ids,
      m_defaultServerId := d\<rparr>"
  shows "removeServer env i r =
    (syncToStorage env r2,
     (if m_defaultServerId r \<noteq> d \<or> defaultServerIndex r \<noteq> defaultServerIndex r2
      then [defaultServerChanged d] else []) @ [serverRemoved i (indexOfServerId i r)]) \<and> default_ok r2"
proof -
  have e: "entries_ok r" "default_ok r" using assms(1) by (simp_all add: registry_ok_def)
  have idx: "\<not> indexOfServerId i r < 0" using assms(2) by (simp add: indexOfServerId_def indexOf_neg)
  have ids: "list_removeAt (nat (indexOfServerId i r)) (m_orderedServerIds r) = ids"
    using e(1) assms(2) by (simp add: ids_def indexOfServerId_def removeAt_indexOf entries_ok_def)
  have stored: "m_serverJsonById r i \<noteq> None" using e(1) assms(2) by (auto simp: entries_ok_def)
  have keep: "m_defaultServerId r \<noteq> i \<Longrightarrow> m_defaultServerId r \<in> set ids"
    using e(2) assms(2) by (auto simp: ids_def default_ok_def split: if_splits)
  define r1 where "r1 = r\<lparr>m_serverJsonById := (m_serverJsonById r)(i := None),
    m_orderedServerIds := list_removeAt (nat (indexOfServerId i r)) (m_orderedServerIds r)\<rparr>"
  have r1: "m_orderedServerIds r1 = ids" "m_defaultServerId r1 = m_defaultServerId r"
    by (simp_all add: r1_def ids)
  have r2: "(if ids = [] then r1\<lparr>m_defaultServerId := ''''\<rparr>
      else if m_defaultServerId r = i
      then r1\<lparr>m_defaultServerId := ids ! nat (min (indexOfServerId i r) (int (length ids) - 1))\<rparr>
      else if m_defaultServerId r \<notin> set ids then r1\<lparr>m_defaultServerId := hd ids\<rparr> else r1) = r2"
    using keep unfolding r1_def r2_def d_def removed_default_def ids by simp
  have d: "m_defaultServerId r2 = d" by (simp add: r2_def)
  have "removeServer env i r = (syncToStorage env r2,
     (if m_defaultServerId r \<noteq> d \<or> defaultServerIndex r \<noteq> defaultServerIndex r2
      then [defaultServerChanged d] else []) @ [serverRemoved i (indexOfServerId i r)])"
    unfolding removeServer_def Let_def r1_def [symmetric] r1 r2 d using idx stored by simp
  moreover have "nat (min (indexOfServerId i r) (int (length ids) - 1)) < length ids" if "ids \<noteq> []"
  proof -
    have "nat (min (indexOfServerId i r) (int (length ids) - 1)) \<le> nat (int (length ids) - 1)"
      by (rule nat_mono) simp
    also have "\<dots> < length ids" using that by (simp add: nat_diff_distrib')
    finally show ?thesis .
  qed
  then have "default_ok r2" using keep by (simp add: r2_def d_def removed_default_def default_ok_def)
  ultimately show ?thesis by blast
qed

text \<open>
  C29: removing a server. The others keep their order and objects; if the removed one was
  the default, the server that takes its position becomes the default (the last one, if it
  was the last; none, if no server is left), and otherwise the default stays. The change of
  the default is signalled exactly when its id or its position changes, before the removal.
\<close>

theorem removeServer_spec:
  assumes "registry_ok r" and "i \<in> set (m_orderedServerIds r)" and "removeServer env i r = (r', sig)"
  shows "m_orderedServerIds r' = filter (\<lambda>j. j \<noteq> i) (m_orderedServerIds r) \<and>
    m_serverJsonById r' = (m_serverJsonById r)(i := None) \<and>
    m_defaultServerId r' = removed_default i (m_orderedServerIds r') r \<and>
    sig = (if m_defaultServerId r \<noteq> m_defaultServerId r' \<or> defaultServerIndex r \<noteq> defaultServerIndex r'
           then [defaultServerChanged (m_defaultServerId r')] else [])
          @ [serverRemoved i (indexOfServerId i r)]"
proof -
  define ids where "ids = filter (\<lambda>j. j \<noteq> i) (m_orderedServerIds r)"
  define d where "d = removed_default i ids r"
  define r2 where "r2 = r\<lparr>m_serverJsonById := (m_serverJsonById r)(i := None), m_orderedServerIds := ids,
      m_defaultServerId := d\<rparr>"
  note rm = removeServer_stored[OF assms(1,2) ids_def d_def r2_def, of env]
  then have r': "r' = syncToStorage env r2" using assms(3) by simp
  have m: "m_orderedServerIds r' = ids" "m_serverJsonById r' = (m_serverJsonById r)(i := None)"
      "m_defaultServerId r' = d"
    using rm by (simp_all add: r' r2_def)
  have "defaultServerIndex r' = defaultServerIndex r2"
    by (simp add: defaultServerIndex_def m) (simp add: r2_def)
  then show ?thesis using rm assms(3) m by (simp add: ids_def [symmetric] d_def [symmetric])
qed

theorem removeServer_spec_witness:
  "snd (removeServer example_repo_env ''a'' example_repo)
   = [defaultServerChanged '''', serverRemoved ''a'' 0]"
proof -
  obtain r' sig where e: "removeServer example_repo_env ''a'' example_repo = (r', sig)"
    by (metis surj_pair)
  have "''a'' \<in> set (m_orderedServerIds example_repo)" by (simp add: example_repo_def)
  from removeServer_spec [OF example_registry_ok this e]
  have "sig = [defaultServerChanged '''', serverRemoved ''a'' 0]"
    by (simp add: example_repo_def indexOfServerId_def removed_default_def)
  then show ?thesis by (simp add: e)
qed

text \<open>
  The proposed name for a new server is not the display name of any stored server, and
  it is the first such name of the numbered sequence; the search ends on every repository.
\<close>

theorem nextAvailableServerName_spec:
  "\<exists>n > 0. nextAvailableServerName env r = tr_Server env @ '' '' @ number n \<and>
     nextAvailableServerName env r \<notin> (\<lambda>i. storedServerDisplayName env i r) ` set (m_orderedServerIds r) \<and>
     {m. 0 < m \<and> m < n} \<subseteq> {m. server_name env m \<in> set (usedNames env r)}"
proof -
  obtain n where n: "n > 0" "nextAvailableServerName env r = server_name env n"
      "\<And>m. 0 < m \<Longrightarrow> m < n \<Longrightarrow> server_name env m \<in> set (usedNames env r)"
      "nextAvailableServerName env r \<notin> set (usedNames env r)"
    using next_name_spec[of env "usedNames env r" 0] by (auto simp: nextAvailableServerName_def)
  have "nextAvailableServerName env r \<noteq> ''''" using n(2) by (simp add: server_name_def)
  with n show ?thesis by (intro exI[of _ n]) (auto simp: usedNames_def server_name_def)
qed

text \<open>
  The five typed views of a server are exclusive and exhaustive: a stored server has
  exactly one of them, whatever its object contains, and an unknown id has none.
\<close>

theorem one_typed_view:
  "length (filter id (typed_views env i r)) = (if m_serverJsonById r i = None then 0 else 1)"
proof (cases "m_serverJsonById r i")
  case None
  then show ?thesis
    by (simp add: typed_views_def selfHostedAdminConfig_def selfHostedUserConfig_def nativeConfig_def
        apiV2Config_def legacyApiConfig_def)
next
  case (Some json)
  show ?thesis
    by (cases rule: configTypeFromJson_cases [of "freeV2Endpoint env" "premiumV1Endpoint env" json])
      (use Some in \<open>auto simp: typed_views_def selfHostedAdminConfig_def selfHostedUserConfig_def
        nativeConfig_def apiV2Config_def legacyApiConfig_def isLegacyApiSubscription_def
        elim: isApiV2Subscription.elims\<close>)
qed

section \<open>Lists stored without ids\<close>

definition legacy_env :: repo_env where
  "legacy_env = example_repo_env\<lparr>json_fromBytes := (\<lambda>b. [JObject example_json, JObject example_json])\<rparr>"

definition legacy_store :: SecureQSettings where
  "legacy_store = example_store\<lparr>m_settings :=
     [(''Conf/encrypted'', VBool True), (''Servers/serversList'', VByteArray ''[]'')]\<rparr>"

definition legacy_ids :: "QString \<Rightarrow> nat \<Rightarrow> QString" where
  "legacy_ids p i = p @ replicate i CHR ''1''"

definition legacy_chosen :: SecureServersRepository where
  "legacy_chosen =
     fst (setDefaultServer legacy_env ''x1'' (new_repository legacy_env (legacy_ids ''x'') legacy_store))"

lemma example_json_id: "readStorageServerId example_json = ''''" "trimmed '''' = ''''"
  by code_simp+

definition legacy_loaded :: "QString \<Rightarrow> SecureQSettings \<Rightarrow> QString \<Rightarrow> SecureServersRepository" where
  "legacy_loaded p s d =
     \<lparr>repo_settings = s,
      m_serverJsonById = [p \<mapsto> embedStorageServerId p example_json,
        p @ ''1'' \<mapsto> embedStorageServerId (p @ ''1'') example_json],
      m_orderedServerIds = [p, p @ ''1''], m_defaultServerId = d\<rparr>"

lemma legacy_load:
  "load_entries legacy_env (legacy_ids p) 0 [JObject example_json, JObject example_json]
     \<lparr>repo_settings = s, m_serverJsonById = Map.empty, m_orderedServerIds = [], m_defaultServerId = d\<rparr>
   = legacy_loaded p s d"
  by (simp add: legacy_loaded_def legacy_ids_def example_json_id example_without Let_def
      normalizedOrGeneratedServerId_def)

lemma legacy_json: "json_fromBytes legacy_env b = [JObject example_json, JObject example_json]"
  by (simp add: legacy_env_def)

lemma legacy_array: "json_fromBytes legacy_env b = [JObject example_json, JObject example_json]"
  by (simp add: legacy_env_def)

text \<open>
  Opening a list without ids makes its first server the default, unless the stored default
  is among the ids that are drawn.
\<close>

lemma legacy_new:
  assumes "map_of (m_settings s) ''Servers/serversList'' = Some (VByteArray ''[]'')"
    and "m_cache s = Map.empty"
    and "map_of (m_settings s) ''Servers/defaultServerIndex'' = None"
    and "map_of (m_settings s) ''Servers/defaultServerId'' \<in> {None, Some (VString d)}"
    and "d \<noteq> p" "d \<noteq> p @ ''1''" "p \<noteq> ''''"
  obtains s' where "new_repository legacy_env (legacy_ids p) s = legacy_loaded p s' p"
    "m_settings s' = AList.update ''Servers/defaultServerId'' (VString p) (m_settings s)"
    "keychain s' = keychain s" "m_encryptionEnabled s' = m_encryptionEnabled s"
proof -
  let ?list = "''Servers/serversList''" and ?id = "''Servers/defaultServerId''"
    and ?index = "''Servers/defaultServerIndex''"
  define s1 where "s1 = s\<lparr>m_cache := [?list \<mapsto> VByteArray ''[]'']\<rparr>"
  have l: "settings_value legacy_env ?list (VByteArray []) s = (VByteArray ''[]'', s1)"
    using assms(1,2) by (simp add: settings_value_def s1_def magicString_def)
  define c where "c = (m_cache s1)(?id \<mapsto> VString d)"
  have i: "settings_value legacy_env ?id (VString []) s1 \<in> {(VString [], s1), (VString d, s1\<lparr>m_cache := c\<rparr>)}"
    and c: "c ?index = None"
    using assms(4) by (auto simp: settings_value_def s1_def c_def)
  have x: "settings_value legacy_env ?index (VInt 0) (s1\<lparr>m_cache := c\<rparr>) = (VInt 0, s1\<lparr>m_cache := c\<rparr>)"
      "settings_value legacy_env ?index (VInt 0) s1 = (VInt 0, s1)"
    using assms(3) c by (simp_all add: settings_value_def s1_def)
  define r0 where "r0 = \<lparr>repo_settings = s, m_serverJsonById = Map.empty, m_orderedServerIds = [],
    m_defaultServerId = ''''\<rparr>"
  have "loadFromStorage legacy_env (legacy_ids p) r0
      = updateDefaultServerFromStorage legacy_env (legacy_loaded p s1 '''')"
    using l by (simp add: loadFromStorage_def clearServerStateMaps_def r0_def legacy_json legacy_load
        del: load_entries.simps)
  moreover have "updateDefaultServerFromStorage legacy_env (legacy_loaded p s1 '''')
      \<in> {legacy_loaded p s1 p, legacy_loaded p (s1\<lparr>m_cache := c\<rparr>) p}"
    using i x assms(5,6) by (auto simp: updateDefaultServerFromStorage_def legacy_loaded_def)
  ultimately obtain c' where "loadFromStorage legacy_env (legacy_ids p) r0 = legacy_loaded p (s1\<lparr>m_cache := c'\<rparr>) p"
    by (auto simp: s1_def)
  moreover have "?id \<notin> set encryptedKeys" by (simp add: encryptedKeys_def)
  ultimately show ?thesis
    by (intro that[of "setValue legacy_env ?id (VString p) (s1\<lparr>m_cache := c'\<rparr>)"])
      (simp_all add: new_repository_def persistDefaultServerFields_def legacy_loaded_def setValue_plain s1_def
        flip: r0_def)
qed


end
