(* ===== verification/Installer_Framework.thy ===== *)
theory Installer_Framework
  imports Qt_Values
begin

text \<open>
  What the two scripts under \<^verbatim>\<open>deploy/installer/qif\<close> run on: the parts of the JavaScript
  library they use, the calls they make to the Qt Installer Framework, and the state of a
  script. The framework itself is a parameter, the record \<open>qif\<close>: what a call does to the
  world, what a query reads from it, and what the user or a started program answers.
  Every call of a script is recorded in order, a question to the user with its answer; a
  call that throws is an error value.
\<close>

section \<open>JavaScript strings and numbers\<close>

type_synonym js_string = string

text \<open>White space as \<open>String.prototype.trim\<close> knows it, on Latin-1 characters.\<close>

definition js_isSpace :: "char \<Rightarrow> bool" where
  "js_isSpace c = (let n = (of_char c :: nat) in 9 \<le> n \<and> n \<le> 13 \<or> n = 32 \<or> n = 160)"

definition js_trim :: "js_string \<Rightarrow> js_string" where
  "js_trim s = rev (dropWhile js_isSpace (rev (dropWhile js_isSpace s)))"

text \<open>\<open>str.indexOf(pattern, position)\<close>: the position is clamped to the string.\<close>

definition js_indexOf :: "js_string \<Rightarrow> js_string \<Rightarrow> int \<Rightarrow> int" where
  "js_indexOf str pat pos =
     (let start = nat (max 0 (min pos (int (length str)))) in
      case find (\<lambda>k. take (length pat) (drop k str) = pat) [start ..< Suc (length str - length pat)] of
        None \<Rightarrow> -1
      | Some k \<Rightarrow> int k)"

abbreviation newline :: char where "newline \<equiv> CHR 0x0A"
abbreviation backslash :: char where "backslash \<equiv> CHR 0x5C"
abbreviation quote :: char where "quote \<equiv> CHR 0x27"
abbreviation dquote :: char where "dquote \<equiv> CHR 0x22"

text \<open>\<open>s.split\<close> at runs of newlines.\<close>

function js_split_newlines :: "js_string \<Rightarrow> js_string list" where
  "js_split_newlines s =
     (let rest = dropWhile (\<lambda>c. c \<noteq> newline) s in
      takeWhile (\<lambda>c. c \<noteq> newline) s #
      (if rest = [] then [] else js_split_newlines (dropWhile (\<lambda>c. c = newline) rest)))"
  by pat_completeness auto
termination
proof (relation "measure length")
  fix s rest :: js_string
  assume r: "rest = dropWhile (\<lambda>c. c \<noteq> newline) s" "rest \<noteq> []"
  then have "hd rest = newline" using hd_dropWhile[of "\<lambda>c. c \<noteq> newline" s] by simp
  then have "dropWhile (\<lambda>c. c = newline) rest = dropWhile (\<lambda>c. c = newline) (tl rest)"
    using r(2) by (cases rest) simp_all
  then have "length (dropWhile (\<lambda>c. c = newline) rest) \<le> length (tl rest)"
    using length_dropWhile_le[of _ "tl rest"] by simp
  also have "\<dots> < length rest" using r(2) by simp
  also have "\<dots> \<le> length s" by (simp add: r(1) length_dropWhile_le)
  finally show "(dropWhile (\<lambda>c. c = newline) rest, s) \<in> measure length" by simp
qed simp

declare js_split_newlines.simps [simp del]

text \<open>
  \<open>Number\<close> on strings: white space around a literal is ignored, the empty string is 0,
  decimal literals may have a sign, a fraction and an exponent, and hexadecimal, octal and
  binary ones have none. Values are exact; the rounding to a double, which changes no
  integer below \<open>2\<^sup>5\<^sup>3\<close>, is left out.
\<close>

datatype js_number = NaN | Infinite bool | Finite rat

definition digits_rat :: "js_string \<Rightarrow> rat" where
  "digits_rat ds = of_nat (digits_value ds)"

definition js_exponent :: "js_string \<Rightarrow> int option" where
  "js_exponent s =
     (let (neg, ds) = (case s of c # cs \<Rightarrow> if c = CHR ''-'' then (True, cs)
                                           else if c = CHR ''+'' then (False, cs) else (False, s)
                               | [] \<Rightarrow> (False, []))
      in if ds \<noteq> [] \<and> list_all isDigit ds
         then Some (if neg then - int (digits_value ds) else int (digits_value ds)) else None)"

definition ten_power :: "int \<Rightarrow> rat" where
  "ten_power e = (if 0 \<le> e then 10 ^ nat e else 1 / 10 ^ nat (- e))"

definition js_unsigned :: "js_string \<Rightarrow> js_number" where
  "js_unsigned s =
     (if s = ''Infinity'' then Infinite False
      else
        let ip = takeWhile isDigit s; r1 = dropWhile isDigit s;
            (fp, r2) = (case r1 of c # cs \<Rightarrow> if c = CHR ''.'' then (takeWhile isDigit cs, dropWhile isDigit cs)
                                             else ([], r1)
                                 | [] \<Rightarrow> ([], []));
            m = digits_rat ip + digits_rat fp / 10 ^ length fp
        in if ip = [] \<and> fp = [] then NaN
           else (case r2 of
                   [] \<Rightarrow> Finite m
                 | c # cs \<Rightarrow>
                     if c = CHR ''e'' \<or> c = CHR ''E'' then
                       (case js_exponent cs of None \<Rightarrow> NaN | Some e \<Rightarrow> Finite (m * ten_power e))
                     else NaN))"

definition hex_value :: "char \<Rightarrow> nat option" where
  "hex_value c =
     (let n = (of_char c :: nat) in
      if 48 \<le> n \<and> n \<le> 57 then Some (n - 48)
      else if 97 \<le> n \<and> n \<le> 102 then Some (n - 87)
      else if 65 \<le> n \<and> n \<le> 70 then Some (n - 55) else None)"

definition js_radix :: "nat \<Rightarrow> js_string \<Rightarrow> js_number" where
  "js_radix b ds =
     (if ds \<noteq> [] \<and> list_all (\<lambda>c. case hex_value c of None \<Rightarrow> False | Some v \<Rightarrow> v < b) ds
      then Finite (of_nat (foldl (\<lambda>acc c. b * acc + the (hex_value c)) 0 ds)) else NaN)"

fun js_negate :: "js_number \<Rightarrow> js_number" where
  "js_negate NaN = NaN"
| "js_negate (Infinite b) = Infinite (\<not> b)"
| "js_negate (Finite x) = Finite (- x)"

definition js_Number :: "js_string \<Rightarrow> js_number" where
  "js_Number str =
     (let s = js_trim str in
      if s = [] then Finite 0
      else if take 2 s \<in> {''0x'', ''0X''} then js_radix 16 (drop 2 s)
      else if take 2 s \<in> {''0o'', ''0O''} then js_radix 8 (drop 2 s)
      else if take 2 s \<in> {''0b'', ''0B''} then js_radix 2 (drop 2 s)
      else if hd s = CHR ''-'' then js_negate (js_unsigned (tl s))
      else if hd s = CHR ''+'' then js_unsigned (tl s)
      else js_unsigned s)"

fun js_ge :: "js_number \<Rightarrow> rat \<Rightarrow> bool" where
  "js_ge NaN y = False"
| "js_ge (Infinite neg) y = (\<not> neg)"
| "js_ge (Finite x) y = (y \<le> x)"

fun js_gt :: "js_number \<Rightarrow> rat \<Rightarrow> bool" where
  "js_gt NaN y = False"
| "js_gt (Infinite neg) y = (\<not> neg)"
| "js_gt (Finite x) y = (y < x)"

text \<open>Numbers in string concatenations, with up to 20 decimals and no exponent form.\<close>

primrec fraction_digits :: "nat \<Rightarrow> rat \<Rightarrow> js_string" where
  "fraction_digits 0 x = []"
| "fraction_digits (Suc n) x =
     (if x = 0 then [] else digitChar (nat \<lfloor>10 * x\<rfloor>) # fraction_digits n (10 * x - of_int \<lfloor>10 * x\<rfloor>))"

fun js_number_text :: "js_number \<Rightarrow> js_string" where
  "js_number_text NaN = ''NaN''"
| "js_number_text (Infinite neg) = (if neg then ''-Infinity'' else ''Infinity'')"
| "js_number_text (Finite x) =
     (let a = \<bar>x\<bar>; f = a - of_int \<lfloor>a\<rfloor> in
      (if x < 0 then ''-'' else []) @ number (nat \<lfloor>a\<rfloor>) @ (if f = 0 then [] else CHR ''.'' # fraction_digits 20 f))"

definition js_bool_text :: "bool \<Rightarrow> js_string" where
  "js_bool_text b = (if b then ''true'' else ''false'')"

section \<open>Calls to the framework\<close>

datatype wizard_button = NextButton | FinishButton | CancelButton | CommitButton

datatype msg_button = Ok | Cancel | Retry | Abort | Yes | No

datatype message_box = MessageBox (box_id: js_string) (box_title: js_string) (box_text: js_string)
  (box_buttons: "msg_button list")

text \<open>
  What \<open>installer.execute\<close> returns: an array of the output and the exit code, or an empty
  array when the program could not be started.
\<close>

type_synonym exec_result = "(js_string \<times> int) option"

datatype qif_call =
    Execute "js_string option" "js_string list"
  | ExecuteDetached js_string "js_string list" js_string
  | Ask message_box msg_button
  | SetValue js_string js_string
  | SetDefaultPageVisible js_string bool
  | SetMessageBoxAutomaticAnswer js_string msg_button
  | AutoAcceptMessageBoxes
  | SetCancelled
  | ClickButton wizard_button
  | ConnectSignal js_string js_string
  | DisconnectSignal js_string js_string
  | SetLineEdit js_string
  | HideChild js_string
  | GainAdminRights
  | DropAdminRights
  | DefaultOperations
  | AddOperation "js_string list list"
  | AddElevatedOperation "js_string list list"
  | ConsoleLog js_string

text \<open>
  The framework, on a world \<open>'w\<close> of its own: \<open>perform\<close> is the effect of a call without a
  result, \<open>run\<close>, \<open>answer\<close> and \<open>admin\<close> those of calls with one, \<open>getTime\<close> a reading of the
  clock, and the rest are queries. A path that is still \<open>undefined\<close> is \<open>None\<close>.
\<close>

record 'w qif =
  perform :: "qif_call \<Rightarrow> 'w \<Rightarrow> 'w"
  run :: "js_string option \<Rightarrow> js_string list \<Rightarrow> 'w \<Rightarrow> exec_result \<times> 'w"
  answer :: "message_box \<Rightarrow> 'w \<Rightarrow> msg_button \<times> 'w"
  admin :: "'w \<Rightarrow> bool \<times> 'w"
  getTime :: "'w \<Rightarrow> int \<times> 'w"
  installer_value :: "'w \<Rightarrow> js_string \<Rightarrow> js_string"
  fileExists :: "'w \<Rightarrow> js_string option \<Rightarrow> bool"
  findPath :: "'w \<Rightarrow> js_string \<Rightarrow> js_string list \<Rightarrow> js_string"
  isInstaller :: "'w \<Rightarrow> bool"
  isUpdater :: "'w \<Rightarrow> bool"
  isUninstaller :: "'w \<Rightarrow> bool"
  status_is_Success :: "'w \<Rightarrow> bool"
  targetDirectoryPage :: "'w \<Rightarrow> bool"
  targetDirectoryText :: "'w \<Rightarrow> js_string"
  currentPageWidget :: "'w \<Rightarrow> bool"
  desktopLocation :: "'w \<Rightarrow> js_string"
  prettyProductName :: js_string
  currentCpuArchitecture :: js_string
  kernelType :: js_string

section \<open>Scripts\<close>

datatype js_error = TypeError

text \<open>The global variables of \<^verbatim>\<open>controlscript.js\<close>, the world, and the calls made so far.\<close>

record 'w script =
  requestToQuitFromApp :: bool
  updaterCompleted :: int
  desktopAppProcessRunning :: bool
  appInstalledUninstallerPath :: "js_string option"
  appInstalledUninstallerPath_x86 :: "js_string option"
  world :: 'w
  calls :: "qif_call list"

definition script_start :: "'w \<Rightarrow> 'w script" where
  "script_start w =
     \<lparr>requestToQuitFromApp = False, updaterCompleted = 0, desktopAppProcessRunning = False,
      appInstalledUninstallerPath = None, appInstalledUninstallerPath_x86 = None,
      world = w, calls = []\<rparr>"

definition issue :: "'w qif \<Rightarrow> qif_call \<Rightarrow> 'w script \<Rightarrow> 'w script" where
  "issue q c s = s\<lparr>world := perform q c (world s), calls := calls s @ [c]\<rparr>"

definition issue_all :: "'w qif \<Rightarrow> qif_call list \<Rightarrow> 'w script \<Rightarrow> 'w script" where
  "issue_all q cs s = fold (issue q) cs s"

definition execute :: "'w qif \<Rightarrow> js_string option \<Rightarrow> js_string list \<Rightarrow> 'w script \<Rightarrow> exec_result \<times> 'w script" where
  "execute q program args s =
     (let (r, w) = run q program args (world s)
      in (r, s\<lparr>world := w, calls := calls s @ [Execute program args]\<rparr>))"

definition ask :: "'w qif \<Rightarrow> message_box \<Rightarrow> 'w script \<Rightarrow> msg_button \<times> 'w script" where
  "ask q box s =
     (let (b, w) = answer q box (world s)
      in (b, s\<lparr>world := w, calls := calls s @ [Ask box b]\<rparr>))"

definition gainAdminRights :: "'w qif \<Rightarrow> 'w script \<Rightarrow> bool \<times> 'w script" where
  "gainAdminRights q s =
     (let (b, w) = admin q (world s) in (b, s\<lparr>world := w, calls := calls s @ [GainAdminRights]\<rparr>))"

definition js_getTime :: "'w qif \<Rightarrow> 'w script \<Rightarrow> int \<times> 'w script" where
  "js_getTime q s = (let (t, w) = getTime q (world s) in (t, s\<lparr>world := w\<rparr>))"

section \<open>What a step adds to the calls\<close>

text \<open>
  \<open>adds P s s'\<close>: the step from \<open>s\<close> to \<open>s'\<close> only appends calls that satisfy \<open>P\<close>. The rules
  for the operations of the scripts are collected in \<open>script_calls\<close>.
\<close>

definition adds :: "(qif_call \<Rightarrow> bool) \<Rightarrow> 'w script \<Rightarrow> 'w script \<Rightarrow> bool" where
  "adds P s s' = (\<exists>cs. calls s' = calls s @ cs \<and> list_all P cs)"

lemma adds_refl [simp, script_calls]: "adds P s s"
  by (simp add: adds_def)

lemma adds_trans [trans]: "adds P s t \<Longrightarrow> adds P t u \<Longrightarrow> adds P s u"
  by (auto simp: adds_def)

lemma adds_calls: "calls s' = calls s \<Longrightarrow> adds P s s'"
  by (simp add: adds_def)

lemma adds_one: "calls s' = calls s @ [c] \<Longrightarrow> P c \<Longrightarrow> adds P s s'"
  by (simp add: adds_def)

lemma adds_set: "adds P s s' \<Longrightarrow> c \<in> set (calls s') \<Longrightarrow> c \<notin> set (calls s) \<Longrightarrow> P c"
  by (auto simp: adds_def list_all_iff)

lemma adds_keeps: "adds P s s' \<Longrightarrow> c \<in> set (calls s) \<Longrightarrow> c \<in> set (calls s')"
  by (auto simp: adds_def)

lemma adds_filter: "adds P s s' \<Longrightarrow> (\<And>c. P c \<Longrightarrow> \<not> Q c) \<Longrightarrow> filter Q (calls s') = filter Q (calls s)"
  by (auto simp: adds_def list_all_iff)

lemma calls_issue [simp]: "calls (issue q c s) = calls s @ [c]"
  by (simp add: issue_def)

lemma calls_issue_all [simp]: "calls (issue_all q cs s) = calls s @ cs"
  unfolding issue_all_def by (induction cs arbitrary: s) simp_all

lemma calls_execute [simp]: "calls (snd (execute q p args s)) = calls s @ [Execute p args]"
  by (simp add: execute_def case_prod_beta)

lemma calls_ask [simp]: "calls (snd (ask q box s)) = calls s @ [Ask box (fst (ask q box s))]"
  by (simp add: ask_def case_prod_beta)

lemma calls_getTime [simp]: "calls (snd (js_getTime q s)) = calls s"
  by (simp add: js_getTime_def case_prod_beta)

lemma globals_issue [simp]:
  "requestToQuitFromApp (issue q c s) = requestToQuitFromApp s"
  "desktopAppProcessRunning (issue q c s) = desktopAppProcessRunning s"
  "updaterCompleted (issue q c s) = updaterCompleted s"
  "appInstalledUninstallerPath (issue q c s) = appInstalledUninstallerPath s"
  "appInstalledUninstallerPath_x86 (issue q c s) = appInstalledUninstallerPath_x86 s"
  by (simp_all add: issue_def)

lemma globals_issue_all [simp]:
  "requestToQuitFromApp (issue_all q cs s) = requestToQuitFromApp s"
  "desktopAppProcessRunning (issue_all q cs s) = desktopAppProcessRunning s"
  "appInstalledUninstallerPath (issue_all q cs s) = appInstalledUninstallerPath s"
  "appInstalledUninstallerPath_x86 (issue_all q cs s) = appInstalledUninstallerPath_x86 s"
  unfolding issue_all_def by (induction cs arbitrary: s) simp_all

lemma globals_execute [simp]:
  "requestToQuitFromApp (snd (execute q p args s)) = requestToQuitFromApp s"
  "desktopAppProcessRunning (snd (execute q p args s)) = desktopAppProcessRunning s"
  "appInstalledUninstallerPath (snd (execute q p args s)) = appInstalledUninstallerPath s"
  "appInstalledUninstallerPath_x86 (snd (execute q p args s)) = appInstalledUninstallerPath_x86 s"
  by (simp_all add: execute_def case_prod_beta)

lemma globals_ask [simp]:
  "requestToQuitFromApp (snd (ask q box s)) = requestToQuitFromApp s"
  "appInstalledUninstallerPath (snd (ask q box s)) = appInstalledUninstallerPath s"
  "appInstalledUninstallerPath_x86 (snd (ask q box s)) = appInstalledUninstallerPath_x86 s"
  by (simp_all add: ask_def case_prod_beta)

lemma globals_getTime [simp]:
  "requestToQuitFromApp (snd (js_getTime q s)) = requestToQuitFromApp s"
  "appInstalledUninstallerPath (snd (js_getTime q s)) = appInstalledUninstallerPath s"
  "appInstalledUninstallerPath_x86 (snd (js_getTime q s)) = appInstalledUninstallerPath_x86 s"
  by (simp_all add: js_getTime_def case_prod_beta)

section \<open>Lemmas on the library functions\<close>

lemma js_indexOf_found:
  "js_indexOf str pat pos \<noteq> -1 \<longleftrightarrow>
   (\<exists>k. nat (max 0 (min pos (int (length str)))) \<le> k \<and> k \<le> length str - length pat \<and>
      take (length pat) (drop k str) = pat)"
proof -
  define start where "start = nat (max 0 (min pos (int (length str))))"
  let ?P = "\<lambda>k. take (length pat) (drop k str) = pat"
  let ?ks = "[start ..< Suc (length str - length pat)]"
  have "js_indexOf str pat pos \<noteq> -1 \<longleftrightarrow> find ?P ?ks \<noteq> None"
    by (simp add: js_indexOf_def start_def [symmetric] split: option.split)
  also have "\<dots> \<longleftrightarrow> (\<exists>k \<in> set ?ks. ?P k)"
    by (simp only: find_None_iff Bex_def not_not)
  also have "\<dots> \<longleftrightarrow> (\<exists>k. start \<le> k \<and> k \<le> length str - length pat \<and> ?P k)"
    by (simp only: set_upt atLeastLessThan_iff less_Suc_eq_le Bex_def conj_assoc)
  finally show ?thesis by (simp only: start_def)
qed

lemma js_indexOf_sublist: "js_indexOf str pat 0 \<noteq> -1 \<longleftrightarrow> sublist pat str"
proof
  assume "js_indexOf str pat 0 \<noteq> -1"
  then obtain k where "take (length pat) (drop k str) = pat" by (auto simp: js_indexOf_found)
  then have "str = take k str @ pat @ drop (length pat) (drop k str)"
    by (metis append_take_drop_id)
  then show "sublist pat str" by (metis sublist_appendI)
next
  assume "sublist pat str"
  then obtain a b where "str = a @ pat @ b" by (auto simp: sublist_def)
  then show "js_indexOf str pat 0 \<noteq> -1"
    by (auto simp: js_indexOf_found intro!: exI[of _ "length a"])
qed

lemma hd_split_newlines: "js_split_newlines s ! 0 = takeWhile (\<lambda>c. c \<noteq> newline) s"
  by (subst js_split_newlines.simps) (simp add: Let_def)

end
