(* ===== verification/Installer_Control.thy ===== *)
theory Installer_Control
  imports Installer_Framework
begin

text \<open>
  \<^verbatim>\<open>deploy/installer/qif/controlscript.js\<close>: the script that drives the wizard. It looks for an
  older installation and removes it, makes the user close the running application, and
  presses the buttons of the pages. Loops that wait for the clock or for the user may not
  end: they return an option, \<open>None\<close> standing for a run that never returns. A thrown
  exception is \<open>Inl\<close>, with the state it was thrown in.
\<close>

type_synonym ('a, 'w) js = "(js_error \<times> 'w script) + ('a \<times> 'w script)"

section \<open>Where the script runs and what is installed\<close>

definition appName :: "'w qif \<Rightarrow> 'w script \<Rightarrow> js_string" where
  "appName q s = installer_value q (world s) ''Name''"

definition runningOnWindows :: "'w qif \<Rightarrow> 'w script \<Rightarrow> bool" where
  "runningOnWindows q s = (installer_value q (world s) ''os'' = ''win'')"

definition runningOnMacOS :: "'w qif \<Rightarrow> 'w script \<Rightarrow> bool" where
  "runningOnMacOS q s = (installer_value q (world s) ''os'' = ''mac'')"

definition runningOnLinux :: "'w qif \<Rightarrow> 'w script \<Rightarrow> bool" where
  "runningOnLinux q s =
     (installer_value q (world s) ''os'' = ''linux'' \<or> installer_value q (world s) ''os'' = ''x11'')"

definition appExecutableFileName :: "'w qif \<Rightarrow> 'w script \<Rightarrow> js_string" where
  "appExecutableFileName q s = (if runningOnWindows q s then appName q s @ ''.exe'' else appName q s)"

definition appInstalled :: "'w qif \<Rightarrow> 'w script \<Rightarrow> bool \<times> 'w script" where
  "appInstalled q s =
     (let root = installer_value q (world s) ''RootDir'';
          s1 = (if runningOnWindows q s then
                  s\<lparr>appInstalledUninstallerPath :=
                       Some (root @ ''Program Files/TunnelCore VPN/maintenancetool.exe''),
                    appInstalledUninstallerPath_x86 :=
                       Some (root @ ''Program Files (x86)/TunnelCore VPN/maintenancetool.exe'')\<rparr>
                else if runningOnMacOS q s then
                  s\<lparr>appInstalledUninstallerPath := Some (''/Applications/'' @ appName q s @
                       ''.app/maintenancetool.app/Contents/MacOS/maintenancetool'')\<rparr>
                else if runningOnLinux q s then
                  s\<lparr>appInstalledUninstallerPath := Some (''/opt/'' @ appName q s @ ''/maintenancetool'')\<rparr>
                else s)
      in (fileExists q (world s1) (appInstalledUninstallerPath s1) \<or>
          fileExists q (world s1) (appInstalledUninstallerPath_x86 s1), s1))"

definition legacyTunnelCoreInstalled :: "'w qif \<Rightarrow> 'w script \<Rightarrow> bool" where
  "legacyTunnelCoreInstalled q s =
     (if \<not> runningOnWindows q s then False
      else
        let root = installer_value q (world s) ''RootDir'' in
        fileExists q (world s) (Some (root @ ''Program Files/TunnelCore VPN/AmneziaVPN-service.exe'')) \<or>
        fileExists q (world s) (Some (root @ ''Program Files (x86)/TunnelCore VPN/AmneziaVPN-service.exe'')))"

definition endsWith :: "js_string \<Rightarrow> js_string \<Rightarrow> bool" where
  "endsWith str suf = (js_indexOf str suf (int (length str) - int (length suf)) \<noteq> -1)"

section \<open>Waiting and the state of processes\<close>

partial_function (option) sleep_loop :: "'w qif \<Rightarrow> int \<Rightarrow> 'w script \<Rightarrow> 'w script option" where
  "sleep_loop q deadline s =
     (let (t, s1) = js_getTime q s
      in if deadline \<ge> t then sleep_loop q deadline s1 else Some s1)"

definition js_sleep :: "'w qif \<Rightarrow> int \<Rightarrow> 'w script \<Rightarrow> 'w script option" where
  "js_sleep q milliseconds s =
     (let (currentTime, s1) = js_getTime q s in sleep_loop q (currentTime + milliseconds) s1)"

fun first_output :: "exec_result \<Rightarrow> js_number" where
  "first_output None = NaN"
| "first_output (Some (out, code)) = js_Number out"

definition raiseInstallerWindow :: "'w qif \<Rightarrow> 'w script \<Rightarrow> 'w script" where
  "raiseInstallerWindow q s =
     (if \<not> runningOnMacOS q s then s
      else
        let (result, s1) = execute q (Some ''/bin/bash'')
              [''-c'', ''ps -A | grep -m1 '' @ [quote] @ appName q s @ [quote] @ '' | awk ''
                 @ [quote] @ ''{print $1}'' @ [quote]] s;
            pid = first_output result
        in if js_gt pid 0 then
             let arg = ''tell application '' @ [dquote] @ ''System Events'' @ [dquote] @ '' ''
                   @ [newline] @ ''      set frontmost of the first process whose unix id is ''
                   @ js_number_text pid @ '' to true ''
                   @ [newline] @ ''      end tell'' @ [newline] @ ''       ''
             in snd (execute q (Some ''osascript'') [''-e'', arg] s1)
           else s1)"

definition checkProcessIsRunning :: "'w qif \<Rightarrow> js_string \<Rightarrow> 'w script \<Rightarrow> (bool, 'w) js" where
  "checkProcessIsRunning q arg s =
     (let (result, s1) = execute q (Some ''/bin/bash'') [''-c'', arg] s in
      case result of
        None \<Rightarrow> Inl (TypeError, s1)
      | Some (out, code) \<Rightarrow>
          let lines = js_split_newlines (js_trim out);
              resultArg1 = js_Number (lines ! 0)
          in Inr (js_ge resultArg1 2, s1))"

definition appProcessIsRunning :: "'w qif \<Rightarrow> 'w script \<Rightarrow> (bool, 'w) js" where
  "appProcessIsRunning q s =
     (if runningOnWindows q s then
        let (result, s1) = execute q (Some ''tasklist'') [] s in
        (case result of
           None \<Rightarrow> Inr (False, s1)
         | Some (out, code) \<Rightarrow>
             Inr (code = 0 \<and> js_indexOf out (appExecutableFileName q s1) 0 \<noteq> -1, s1))
      else checkProcessIsRunning q (''pgrep -x '' @ [quote] @ appName q s @ [quote]) s)"

definition requestToQuit :: "'w qif \<Rightarrow> 'w script \<Rightarrow> 'w script" where
  "requestToQuit q s =
     (let s1 = s\<lparr>requestToQuitFromApp := True\<rparr>;
          s2 = issue_all q
            [SetDefaultPageVisible ''IntroductionPage'' False,
             SetDefaultPageVisible ''TargetDirectory'' False,
             SetDefaultPageVisible ''ComponentSelection'' False,
             SetDefaultPageVisible ''LicenseCheck'' False,
             SetDefaultPageVisible ''StartMenuSelection'' False,
             SetDefaultPageVisible ''ReadyForInstallation'' False,
             SetDefaultPageVisible ''PerformInstallation'' False,
             SetDefaultPageVisible ''FinishedPage'' False,
             ClickButton NextButton, ClickButton FinishButton, ClickButton CancelButton] s1
      in if runningOnWindows q s2 then issue q SetCancelled s2 else s2)"

section \<open>Page callbacks\<close>

definition PerformInstallationPageCallback :: "'w qif \<Rightarrow> 'w script \<Rightarrow> 'w script" where
  "PerformInstallationPageCallback q s = issue q (ClickButton NextButton) s"

definition LicenseAgreementPageCallback :: "'w qif \<Rightarrow> 'w script \<Rightarrow> 'w script" where
  "LicenseAgreementPageCallback q s = issue q (ClickButton NextButton) s"

definition FinishedPageCallback :: "'w qif \<Rightarrow> 'w script \<Rightarrow> 'w script" where
  "FinishedPageCallback q s =
     (if desktopAppProcessRunning s then issue q (ClickButton FinishButton) s
      else if isUpdater q (world s) then
        issue q (ClickButton FinishButton) (issue q AutoAcceptMessageBoxes s)
      else s)"

definition RestartPageCallback :: "'w qif \<Rightarrow> 'w script \<Rightarrow> 'w script" where
  "RestartPageCallback q s = issue q (ClickButton FinishButton) (s\<lparr>updaterCompleted := 1\<rparr>)"

definition StartMenuDirectoryPageCallback :: "'w qif \<Rightarrow> 'w script \<Rightarrow> 'w script" where
  "StartMenuDirectoryPageCallback q s = issue q (ClickButton NextButton) s"

definition ComponentSelectionPageCallback :: "'w qif \<Rightarrow> 'w script \<Rightarrow> 'w script" where
  "ComponentSelectionPageCallback q s = issue q (ClickButton NextButton) s"

definition ReadyForInstallationPageCallback :: "'w qif \<Rightarrow> 'w script \<Rightarrow> 'w script" where
  "ReadyForInstallationPageCallback q s =
     (if isUpdater q (world s) then issue q (ClickButton CommitButton) s else s)"

definition TargetDirectoryPageCallback :: "'w qif \<Rightarrow> 'w script \<Rightarrow> 'w script" where
  "TargetDirectoryPageCallback q s =
     (if targetDirectoryPage q (world s) then
        issue_all q
          [DisconnectSignal ''BrowseDirectoryButton.clicked'' ''onBrowseButtonClicked'',
           ConnectSignal ''BrowseDirectoryButton.clicked'' ''onBrowseButtonClicked'',
           ClickButton NextButton] s
      else s)"

definition IntroductionPageCallback :: "'w qif \<Rightarrow> 'w script \<Rightarrow> 'w script" where
  "IntroductionPageCallback q s =
     (let widget = currentPageWidget q (world s) in
      if isUpdater q (world s) \<and> updaterCompleted s = 1 then
        issue_all q [ClickButton FinishButton, ClickButton CancelButton] s
      else
        let s1 = (if isUninstaller q (world s) \<and> widget
                  then issue_all q [HideChild ''PackageManagerRadioButton'', HideChild ''UpdaterRadioButton''] s
                  else s)
        in if isUpdater q (world s1) then issue q (ClickButton NextButton) s1 else s1)"

definition onBrowseButtonClicked :: "'w qif \<Rightarrow> 'w script \<Rightarrow> 'w script" where
  "onBrowseButtonClicked q s =
     (if targetDirectoryPage q (world s) \<and> runningOnWindows q s then
        let targetDir = targetDirectoryText q (world s);
            targetDir1 = (if \<not> endsWith targetDir (appName q s)
                          then targetDir @ [backslash] @ appName q s else targetDir);
            s1 = issue q (SetValue ''TargetDir'' targetDir1) s
        in issue q (SetLineEdit (installer_value q (world s1) ''TargetDir'')) s1
      else s)"

definition onNextButtonClicked :: "'w qif \<Rightarrow> 'w script \<Rightarrow> 'w script" where
  "onNextButtonClicked q s =
     (if targetDirectoryPage q (world s)
      then issue q (SetValue ''APP_BUNDLE_TARGET_DIR'' (targetDirectoryText q (world s))) s
      else s)"

section \<open>Making the user close the application\<close>

text \<open>The polling of an updater: at most the given number of checks, ending with the first that fails.\<close>

primrec poll_processes :: "nat \<Rightarrow> 'w qif \<Rightarrow> 'w script \<Rightarrow> (unit, 'w) js" where
  "poll_processes 0 q s = Inr ((), s)"
| "poll_processes (Suc n) q s =
     (case appProcessIsRunning q s of
        Inl e \<Rightarrow> Inl e
      | Inr (r, s1) \<Rightarrow>
          let s2 = s1\<lparr>desktopAppProcessRunning := r\<rparr>
          in if \<not> r then Inr ((), s2) else poll_processes n q s2)"

definition check_desktop_app :: "'w qif \<Rightarrow> 'w script \<Rightarrow> (unit, 'w) js" where
  "check_desktop_app q s =
     (case (if isUpdater q (world s) then poll_processes 400 q s else Inr ((), s)) of
        Inl e \<Rightarrow> Inl e
      | Inr (u, s1) \<Rightarrow>
          (case appProcessIsRunning q s1 of
             Inl e \<Rightarrow> Inl e
           | Inr (r, s2) \<Rightarrow> Inr ((), s2\<lparr>desktopAppProcessRunning := r\<rparr>)))"

definition active_box :: "'w qif \<Rightarrow> 'w script \<Rightarrow> message_box" where
  "active_box q s =
     MessageBox ''QMessageBox'' (appName q s @ '' installer'')
       (appName q s @ '' is active. Close the app and press '' @ [dquote] @ ''Retry'' @ [dquote]
        @ '' button to continue installation. Press '' @ [dquote] @ ''Abort'' @ [dquote]
        @ '' button to abort the installer and exit.'') [Retry, Abort]"

partial_function (option) isDesktopAppProcessRunningMessageLoop ::
  "'w qif \<Rightarrow> 'w script \<Rightarrow> (unit, 'w) js option" where
  "isDesktopAppProcessRunningMessageLoop q s =
     (if requestToQuitFromApp s then Some (Inr ((), s))
      else
        case check_desktop_app q s of
          Inl e \<Rightarrow> Some (Inl e)
        | Inr (u, s1) \<Rightarrow>
            if desktopAppProcessRunning s1 then
              let (result, s2) = ask q (active_box q s1) s1
              in if result = Retry then isDesktopAppProcessRunningMessageLoop q s2
                 else Some (Inr ((), s2\<lparr>requestToQuitFromApp := True\<rparr>))
            else Some (Inr ((), s1)))"

section \<open>The controller\<close>

text \<open>The uninstallers that exist are run one after the other; the result of the last one is kept.\<close>

definition exec_code_text :: "exec_result \<Rightarrow> js_string" where
  "exec_code_text r = (case r of None \<Rightarrow> ''undefined'' | Some (out, code) \<Rightarrow> int_number code)"

definition path_text :: "js_string option \<Rightarrow> js_string" where
  "path_text p = (case p of None \<Rightarrow> ''undefined'' | Some t \<Rightarrow> t)"

definition run_uninstaller ::
  "'w qif \<Rightarrow> js_string option \<Rightarrow> exec_result \<times> 'w script \<Rightarrow> exec_result \<times> 'w script" where
  "run_uninstaller q path = (\<lambda>(resultArray, s).
     if fileExists q (world s) path then
       execute q path [] (issue q (ConsoleLog (''Starting uninstallation '' @ path_text path)) s)
     else (resultArray, s))"

primrec wait_removed :: "nat \<Rightarrow> 'w qif \<Rightarrow> 'w script \<Rightarrow> 'w script option" where
  "wait_removed 0 q s = Some s"
| "wait_removed (Suc n) q s =
     Option.bind (js_sleep q 100 s) (\<lambda>s1.
       if \<not> fileExists q (world s1) (appInstalledUninstallerPath s1) then Some s1
       else wait_removed n q s1)"

definition installed_box :: "'w qif \<Rightarrow> 'w script \<Rightarrow> message_box" where
  "installed_box q s =
     MessageBox ''os.information'' (appName q s)
       (''The application is already installed.'' @ '' '' @
        ''We need to remove the old installation first. Do you wish to proceed?'') [Ok, Cancel]"

definition remove_installed :: "'w qif \<Rightarrow> 'w script \<Rightarrow> 'w script option" where
  "remove_installed q s =
     (let (installed, s1) = appInstalled q s in
      if \<not> installed then Some (raiseInstallerWindow q s1)
      else
        let x86 = run_uninstaller q (appInstalledUninstallerPath_x86 s1) (None, s1);
            both = run_uninstaller q (appInstalledUninstallerPath (snd x86)) x86;
            resultArray = fst both;
            s2 = issue q (ConsoleLog (''Uninstaller finished with code: '' @ exec_code_text resultArray)) (snd both)
        in if \<not> (case resultArray of None \<Rightarrow> False | Some (out, code) \<Rightarrow> code = 0)
           then Some (issue_all q [ConsoleLog ''Uninstallation aborted by user'', SetCancelled] s2)
           else Option.bind (wait_removed 300 q s2) (\<lambda>s3. Some (raiseInstallerWindow q s3)))"

definition replace_installed :: "'w qif \<Rightarrow> 'w script \<Rightarrow> 'w script option" where
  "replace_installed q s =
     (let (installed, s1) = appInstalled q s in
      if \<not> installed then Some s1
      else
        let (result, s2) = ask q (installed_box q s1) s1
        in if result = Ok then remove_installed q s2
           else Some (issue_all q [ConsoleLog ''Request to quit from user'', SetCancelled] s2))"

definition legacy_box :: message_box where
  "legacy_box =
     MessageBox ''legacy.tunnelcore'' ''TunnelCore VPN''
       (''An older TunnelCore installation uses Amnezia service identifiers. '' @
        ''To protect Amnezia VPN, automatic removal is disabled. '' @
        ''Please uninstall the older TunnelCore version before installing this one.'') [Ok]"

definition controller_install :: "'w qif \<Rightarrow> 'w script \<Rightarrow> (unit, 'w) js option" where
  "controller_install q s =
     Option.bind (isDesktopAppProcessRunningMessageLoop q
         (issue_all q [SetDefaultPageVisible ''ComponentSelection'' False,
            SetDefaultPageVisible ''TargetDirectory'' False,
            SetDefaultPageVisible ''StartMenuDirectoryPage'' False,
            SetDefaultPageVisible ''LicenseCheck'' False] s))
       (\<lambda>r. case r of
          Inl e \<Rightarrow> Some (Inl e)
        | Inr (u, s1) \<Rightarrow>
            if requestToQuitFromApp s1 then Some (Inr ((), requestToQuit q s1))
            else
              let s2 = (if runningOnMacOS q s1
                        then issue q (SetMessageBoxAutomaticAnswer ''OverwriteTargetDirectory'' Yes) s1
                        else s1)
              in if legacyTunnelCoreInstalled q s2
                 then Some (Inr ((), issue q SetCancelled (snd (ask q legacy_box s2))))
                 else map_option (\<lambda>s3. Inr ((), s3)) (replace_installed q s2))"

definition controller_uninstall :: "'w qif \<Rightarrow> 'w script \<Rightarrow> (unit, 'w) js option" where
  "controller_uninstall q s =
     Option.bind (isDesktopAppProcessRunningMessageLoop q s)
       (\<lambda>r. case r of
          Inl e \<Rightarrow> Some (Inl e)
        | Inr (u, s1) \<Rightarrow>
            if requestToQuitFromApp s1 then Some (Inr ((), requestToQuit q s1)) else Some (Inr ((), s1)))"

definition onUpdaterInstallationFinished :: "'w qif \<Rightarrow> 'w script \<Rightarrow> 'w script" where
  "onUpdaterInstallationFinished q s = issue q (ClickButton NextButton) s"

definition controller_start :: "'w qif \<Rightarrow> 'w script \<Rightarrow> 'w script" where
  "controller_start q s =
     (let s0 = issue q (ConsoleLog (''OS: '' @ prettyProductName q @ '', architecture: ''
                 @ currentCpuArchitecture q)) s;
          s1 = (if isInstaller q (world s0) \<or> isUpdater q (world s0) then
                  let (installed, s') = appInstalled q s0
                  in issue q (ConsoleLog (''Check if app already installed: '' @ js_bool_text installed)) s'
                else s0)
      in if runningOnWindows q s1 then issue q (SetValue ''AllUsers'' ''true'') s1 else s1)"

definition Controller :: "'w qif \<Rightarrow> 'w script \<Rightarrow> (unit, 'w) js option" where
  "Controller q s =
     (let s1 = controller_start q s in
      if isInstaller q (world s1) then controller_install q s1
      else if isUninstaller q (world s1) then controller_uninstall q s1
      else if isUpdater q (world s1) then
        Some (Inr ((), issue_all q
          [SetMessageBoxAutomaticAnswer ''cancelInstallation'' No,
           ConnectSignal ''installer.installationFinished'' ''onUpdaterInstallationFinished''] s1))
      else Some (Inr ((), s1)))"

end
