(* ===== verification/Installer_Control_Facts.thy ===== *)
theory Installer_Control_Facts
  imports Installer_Control
begin

text \<open>
  What holds of the control script: which calls each part can make, when its loops end,
  that an older installation is only removed with the user's consent and never when it is
  of the legacy generation, how failures of the uninstallers are handled, and what the
  page callbacks can do in any order.
\<close>

section \<open>Process checks\<close>

fun js_state :: "('a, 'w) js \<Rightarrow> 'w script" where
  "js_state (Inl (e, s)) = s"
| "js_state (Inr (a, s)) = s"

definition process_check :: "'w qif \<Rightarrow> 'w script \<Rightarrow> qif_call" where
  "process_check q s =
     (if runningOnWindows q s then Execute (Some ''tasklist'') []
      else Execute (Some ''/bin/bash'') [''-c'', ''pgrep -x '' @ [quote] @ appName q s @ [quote]])"

fun is_check :: "qif_call \<Rightarrow> bool" where
  "is_check (Execute p args) = (p = Some ''tasklist'' \<or> p = Some ''/bin/bash'' \<and> args \<noteq> [])"
| "is_check _ = False"

lemma process_check_is_check [simp]: "is_check (process_check q s)"
  by (simp add: process_check_def)

lemma appProcess_state:
  "\<exists>w. js_state (appProcessIsRunning q s) = s\<lparr>world := w, calls := calls s @ [process_check q s]\<rparr>"
  by (auto simp: appProcessIsRunning_def checkProcessIsRunning_def process_check_def execute_def Let_def
      split: prod.split option.split)

lemma appProcess_calls:
  "appProcessIsRunning q s = Inr (r, s') \<Longrightarrow> calls s' = calls s @ [process_check q s]"
  "appProcessIsRunning q s = Inl (e, s') \<Longrightarrow> calls s' = calls s @ [process_check q s]"
  using appProcess_state[of q s] by auto

lemma appProcess_quit:
  "appProcessIsRunning q s = Inr (r, s') \<Longrightarrow> requestToQuitFromApp s' = requestToQuitFromApp s"
  using appProcess_state[of q s] by auto

lemma poll_calls:
  "\<exists>cs. calls (js_state (poll_processes n q s)) = calls s @ cs \<and> list_all is_check cs \<and> length cs \<le> n"
proof (induction n arbitrary: s)
  case (Suc n)
  show ?case
  proof (cases "appProcessIsRunning q s")
    case (Inl e)
    then show ?thesis using appProcess_calls(2)[of q s "fst e" "snd e"]
      by (cases e) (auto intro!: exI[of _ "[process_check q s]"])
  next
    case (Inr a)
    obtain r s1 where a: "a = (r, s1)" by fastforce
    let ?s2 = "s1\<lparr>desktopAppProcessRunning := r\<rparr>"
    have c: "calls s1 = calls s @ [process_check q s]" using appProcess_calls(1) Inr a by blast
    obtain cs where "calls (js_state (poll_processes n q ?s2)) = calls ?s2 @ cs" "list_all is_check cs" "length cs \<le> n"
      using Suc.IH by blast
    with c Inr a show ?thesis by (auto simp: Let_def intro!: exI[of _ "process_check q s # cs"])
  qed
qed simp

lemma poll_quit:
  "poll_processes n q s = Inr (u, s') \<Longrightarrow> requestToQuitFromApp s' = requestToQuitFromApp s"
proof (induction n arbitrary: s)
  case (Suc n)
  then show ?case
    by (auto simp: Let_def appProcess_quit split: sum.splits prod.splits if_splits dest!: appProcess_quit)
qed simp

lemma check_calls:
  "\<exists>cs. calls (js_state (check_desktop_app q s)) = calls s @ cs \<and> list_all is_check cs \<and>
     length cs \<le> (if isUpdater q (world s) then 401 else 1)"
proof -
  define p where "p = (if isUpdater q (world s) then poll_processes 400 q s else Inr ((), s))"
  define n :: nat where "n = (if isUpdater q (world s) then 400 else 0)"
  obtain cs where cs: "calls (js_state p) = calls s @ cs" "list_all is_check cs" "length cs \<le> n"
    using poll_calls[of 400 q s] by (cases "isUpdater q (world s)") (auto simp: p_def n_def)
  show ?thesis
  proof (cases p)
    case (Inl e)
    then have "js_state (check_desktop_app q s) = js_state p"
      by (cases e) (simp add: check_desktop_app_def p_def [symmetric])
    with cs show ?thesis by (intro exI[of _ cs]) (simp add: n_def split: if_splits)
  next
    case (Inr a)
    obtain u s1 where a: "a = (u, s1)" by (rule prod.exhaust)
    have "calls (js_state (check_desktop_app q s)) = calls s1 @ [process_check q s1]"
      using Inr a appProcess_calls[of q s1]
      by (auto simp: check_desktop_app_def p_def [symmetric] split: sum.split)
    with cs Inr a show ?thesis
      by (intro exI[of _ "cs @ [process_check q s1]"]) (simp add: n_def split: if_splits)
  qed
qed

lemma check_adds:
  "check_desktop_app q s = Inr (u, s1) \<Longrightarrow> adds is_check s s1"
  "check_desktop_app q s = Inl (e, s1) \<Longrightarrow> adds is_check s s1"
  using check_calls[of q s] by (auto simp: adds_def)

lemma check_quit:
  "check_desktop_app q s = Inr (u, s') \<Longrightarrow> requestToQuitFromApp s' = requestToQuitFromApp s"
  by (auto simp: check_desktop_app_def split: sum.splits prod.splits if_splits
      dest!: appProcess_quit poll_quit)

section \<open>The message loop\<close>

fun is_loop_call :: "qif_call \<Rightarrow> bool" where
  "is_loop_call (Ask box b) = (box_id box = ''QMessageBox'')"
| "is_loop_call c = is_check c"

lemma check_is_loop_call: "is_check c \<Longrightarrow> is_loop_call c"
  by (cases c) simp_all

lemma adds_mono: "adds P s s' \<Longrightarrow> (\<And>c. P c \<Longrightarrow> Q c) \<Longrightarrow> adds Q s s'"
  by (auto simp: adds_def list_all_iff)

text \<open>
  \<open>settles n q s\<close>: within \<open>n\<close> rounds the script was asked to quit, a check threw, the
  application was found closed, or the user did not press Retry.
\<close>

primrec settles :: "nat \<Rightarrow> 'w qif \<Rightarrow> 'w script \<Rightarrow> bool" where
  "settles 0 q s = False"
| "settles (Suc n) q s =
     (requestToQuitFromApp s \<or>
      (case check_desktop_app q s of
         Inl e \<Rightarrow> True
       | Inr (u, s1) \<Rightarrow>
           \<not> desktopAppProcessRunning s1 \<or>
           (let (result, s2) = ask q (active_box q s1) s1 in result \<noteq> Retry \<or> settles n q s2)))"

lemma settles_returns: "settles n q s \<Longrightarrow> isDesktopAppProcessRunningMessageLoop q s \<noteq> None"
proof (induction n arbitrary: s)
  case (Suc n)
  then show ?case
    by (subst isDesktopAppProcessRunningMessageLoop.simps)
      (auto simp: Let_def split: sum.splits prod.splits if_splits)
qed simp

definition loop_post :: "'w qif \<Rightarrow> 'w script \<Rightarrow> (unit, 'w) js \<Rightarrow> bool" where
  "loop_post q s r =
     ((\<exists>n. settles n q s) \<and> adds is_loop_call s (js_state r) \<and>
      (\<forall>s'. r = Inr ((), s') \<longrightarrow> requestToQuitFromApp s' \<or> \<not> desktopAppProcessRunning s'))"

lemma returns_settles:
  assumes "isDesktopAppProcessRunningMessageLoop q s = Some r"
  shows "loop_post q s r"
proof (rule isDesktopAppProcessRunningMessageLoop.raw_induct [where P = loop_post, OF _ assms])
  fix loop and q :: "'a qif" and s r
  assume IH: "\<And>q s r. loop q s = Some r \<Longrightarrow> loop_post q s r"
    and ret: "(if requestToQuitFromApp s then Some (Inr ((), s))
      else
        case check_desktop_app q s of
          Inl e \<Rightarrow> Some (Inl e)
        | Inr (u, s1) \<Rightarrow>
            if desktopAppProcessRunning s1 then
              let (result, s2) = ask q (active_box q s1) s1
              in if result = Retry then loop q s2
                 else Some (Inr ((), s2\<lparr>requestToQuitFromApp := True\<rparr>))
            else Some (Inr ((), s1))) = Some r"
  show "loop_post q s r"
  proof (cases "requestToQuitFromApp s")
    case True
    with ret have "r = Inr ((), s)" "settles (Suc 0) q s" by simp_all
    with True show ?thesis unfolding loop_post_def by (auto simp del: settles.simps)
  next
    case False
    note req = this
    show ?thesis
    proof (cases "check_desktop_app q s")
      case (Inl e)
      then have "adds is_loop_call s (js_state (check_desktop_app q s))"
        using check_adds(2)[of q s "fst e" "snd e"] by (cases e) (auto intro: adds_mono check_is_loop_call)
      moreover have "r = Inl e" using ret req Inl by simp
      moreover have "settles (Suc 0) q s" using Inl by simp
      ultimately show ?thesis using Inl unfolding loop_post_def by (auto simp del: settles.simps)
    next
      case (Inr a)
      obtain u s1 where a: "a = (u, s1)" by (rule prod.exhaust)
      have ad: "adds is_loop_call s s1"
        using check_adds(1) Inr a by (metis adds_mono check_is_loop_call)
      obtain b s2 where ask: "ask q (active_box q s1) s1 = (b, s2)" by fastforce
      have "adds is_loop_call s1 s2"
        using ask calls_ask[of q "active_box q s1" s1] by (intro adds_one) (auto simp: active_box_def)
      then have ad2: "adds is_loop_call s s2" using ad by (rule adds_trans[rotated])
      show ?thesis
      proof (cases "desktopAppProcessRunning s1 \<and> b = Retry")
        case True
        then have l: "loop q s2 = Some r" using ret req Inr a ask by simp
        obtain n where "settles n q s2" using IH[OF l, unfolded loop_post_def] by blast
        then have "settles (Suc n) q s" using Inr a ask by simp
        with IH[OF l, unfolded loop_post_def] ad2 show ?thesis unfolding loop_post_def by (blast intro: adds_trans)
      next
        case False
        then have "settles (Suc 0) q s" using Inr a ask by auto
        moreover have "r = (if desktopAppProcessRunning s1 then Inr ((), s2\<lparr>requestToQuitFromApp := True\<rparr>)
            else Inr ((), s1))"
          using False ret req Inr a ask by (auto split: if_splits)
        ultimately show ?thesis using ad ad2 unfolding loop_post_def
          by (auto simp: adds_def simp del: settles.simps)
      qed
    qed
  qed
qed

section \<open>Waiting\<close>

text \<open>A clock that passes every bound when it is read often enough.\<close>

definition clock_advances :: "'w qif \<Rightarrow> bool" where
  "clock_advances q = (\<forall>w b. \<exists>n. b < fst (getTime q (((\<lambda>w. snd (getTime q w)) ^^ n) w)))"

lemma sleep_loop_returns:
  assumes "deadline < fst (getTime q (((\<lambda>w. snd (getTime q w)) ^^ n) (world s)))"
  shows "\<exists>w. sleep_loop q deadline s = Some (s\<lparr>world := w\<rparr>)"
  using assms
proof (induction n arbitrary: s)
  case 0
  then show ?case by (subst sleep_loop.simps) (auto simp: js_getTime_def case_prod_beta)
next
  case (Suc n)
  let ?s1 = "snd (js_getTime q s)"
  have s1: "?s1 = s\<lparr>world := snd (getTime q (world s))\<rparr>" by (simp add: js_getTime_def case_prod_beta)
  have "\<exists>w. sleep_loop q deadline ?s1 = Some (?s1\<lparr>world := w\<rparr>)"
    using Suc.prems unfolding funpow_Suc_right comp_def by (intro Suc.IH) (simp add: s1)
  then show ?case by (subst sleep_loop.simps) (auto simp: case_prod_beta s1)
qed

lemma js_sleep_returns:
  "clock_advances q \<Longrightarrow> \<exists>w. js_sleep q ms s = Some (s\<lparr>world := w\<rparr>)"
  unfolding clock_advances_def js_sleep_def
  using sleep_loop_returns[of "fst (getTime q (world s)) + ms" q _ "snd (js_getTime q s)"]
  by (fastforce simp: js_getTime_def case_prod_beta)

lemma wait_removed_returns:
  assumes "clock_advances q"
  shows "\<exists>w. wait_removed n q s = Some (s\<lparr>world := w\<rparr>)"
proof (induction n arbitrary: s)
  case 0
  have "s = s\<lparr>world := world s\<rparr>" by simp
  then show ?case by (metis wait_removed.simps(1))
next
  case (Suc n)
  obtain v where v: "js_sleep q 100 s = Some (s\<lparr>world := v\<rparr>)" using js_sleep_returns[OF assms] by blast
  obtain w where "wait_removed n q (s\<lparr>world := v\<rparr>) = Some (s\<lparr>world := w\<rparr>)"
    using Suc.IH[of "s\<lparr>world := v\<rparr>"] by auto
  with v show ?case by auto
qed

text \<open>Whenever sleeping returns, the clock was last read after the deadline.\<close>

definition sleep_post :: "'w qif \<Rightarrow> int \<Rightarrow> 'w script \<Rightarrow> 'w script \<Rightarrow> bool" where
  "sleep_post q deadline s s' =
     (\<exists>w. deadline < fst (getTime q w) \<and> s' = s\<lparr>world := snd (getTime q w)\<rparr>)"

lemma sleep_loop_post:
  assumes "sleep_loop q deadline s = Some s'"
  shows "sleep_post q deadline s s'"
proof (rule sleep_loop.raw_induct [where P = sleep_post, OF _ assms])
  fix loop and q :: "'a qif" and deadline s s'
  assume IH: "\<And>q deadline s s'. loop q deadline s = Some s' \<Longrightarrow> sleep_post q deadline s s'"
    and ret: "(let (t, s1) = js_getTime q s
      in if deadline \<ge> t then loop q deadline s1 else Some s1) = Some s'"
  show "sleep_post q deadline s s'"
  proof (cases "deadline \<ge> fst (getTime q (world s))")
    case True
    then have "loop q deadline (s\<lparr>world := snd (getTime q (world s))\<rparr>) = Some s'"
      using ret by (simp add: js_getTime_def case_prod_beta)
    from IH[OF this] show ?thesis by (auto simp: sleep_post_def)
  next
    case False
    then have "deadline < fst (getTime q (world s)) \<and> s' = s\<lparr>world := snd (getTime q (world s))\<rparr>"
      using ret by (simp add: js_getTime_def case_prod_beta)
    then show ?thesis unfolding sleep_post_def by blast
  qed
qed

lemma wait_removed_frame:
  assumes "wait_removed n q s = Some s'"
  shows "\<exists>w. s' = s\<lparr>world := w\<rparr>"
  using assms
proof (induction n arbitrary: s)
  case 0
  then show ?case by (metis option.inject script.surjective script.update_convs(6) wait_removed.simps(1))
next
  case (Suc n)
  obtain t where t: "js_sleep q 100 s = Some t"
    using Suc.prems by (cases "js_sleep q 100 s") simp_all
  then obtain v where "t = s\<lparr>world := v\<rparr>"
    using sleep_loop_post by (fastforce simp: js_sleep_def sleep_post_def js_getTime_def case_prod_beta)
  with Suc t show ?case by (fastforce split: if_splits)
qed

section \<open>Removing an older installation\<close>

text \<open>
  The uninstallers are the programs started without arguments, other than the process list.
  \<open>consent_from b cs\<close>: in the calls \<open>cs\<close> no uninstaller is started unless the user agreed to
  the removal before (\<open>b\<close>: already before the first of them).
\<close>

fun is_uninstall :: "qif_call \<Rightarrow> bool" where
  "is_uninstall (Execute p args) = (args = [] \<and> p \<noteq> Some ''tasklist'')"
| "is_uninstall _ = False"

abbreviation "quiet c \<equiv> \<not> is_uninstall c"

fun is_consent :: "qif_call \<Rightarrow> bool" where
  "is_consent (Ask box b) = (box_id box = ''os.information'' \<and> b = Ok)"
| "is_consent _ = False"

fun consent_from :: "bool \<Rightarrow> qif_call list \<Rightarrow> bool" where
  "consent_from b [] = True"
| "consent_from b (c # cs) = ((is_uninstall c \<longrightarrow> b) \<and> consent_from (b \<or> is_consent c) cs)"

lemma consent_append:
  "consent_from b (xs @ ys) \<longleftrightarrow> consent_from b xs \<and> consent_from (b \<or> list_ex is_consent xs) ys"
  by (induction xs arbitrary: b) (auto simp: disj_assoc)

lemma consent_True [simp]: "consent_from True cs"
  by (induction cs) simp_all

lemma consent_quiet: "list_all quiet cs \<Longrightarrow> consent_from b cs"
  by (induction cs arbitrary: b) simp_all

text \<open>\<open>consenting s s'\<close>: the step appends calls that need no consent but their own.\<close>

definition consenting :: "'w script \<Rightarrow> 'w script \<Rightarrow> bool" where
  "consenting s s' = (\<exists>cs. calls s' = calls s @ cs \<and> consent_from False cs)"

lemma consent_mono: "consent_from False cs \<Longrightarrow> consent_from b cs"
  by (cases b) simp_all

lemma consenting_trans [trans]: "consenting s t \<Longrightarrow> consenting t u \<Longrightarrow> consenting s u"
  unfolding consenting_def by (metis append_assoc consent_append consent_mono)

lemma quiet_consenting: "adds quiet s s' \<Longrightarrow> consenting s s'"
  by (auto simp: adds_def consenting_def consent_quiet)

lemma loop_call_quiet: "is_loop_call c \<Longrightarrow> quiet c"
  by (cases c) auto

lemma adds_loop_quiet: "adds is_loop_call s s' \<Longrightarrow> adds quiet s s'"
  by (erule adds_mono) (rule loop_call_quiet)

lemma appInstalled_frame [simp]:
  "calls (snd (appInstalled q s)) = calls s" "world (snd (appInstalled q s)) = world s"
  "requestToQuitFromApp (snd (appInstalled q s)) = requestToQuitFromApp s"
  by (simp_all add: appInstalled_def Let_def)

lemma execute_quiet [script_calls]: "adds quiet s (snd (execute q p (a # as) s))"
  by (rule adds_one [OF calls_execute]) simp

lemma raise_quiet [script_calls]: "adds quiet s (raiseInstallerWindow q s)"
  unfolding raiseInstallerWindow_def Let_def case_prod_beta
  by (auto intro: adds_trans execute_quiet)

lemma issue_quiet [script_calls]: "quiet c \<Longrightarrow> adds quiet s (issue q c s)"
  by (rule adds_one) simp_all

lemma issue_all_quiet [script_calls]: "list_all quiet cs \<Longrightarrow> adds quiet s (issue_all q cs s)"
  by (auto simp: adds_def)

lemma ask_quiet [script_calls]: "adds quiet s (snd (ask q box s))"
  by (rule adds_one [OF calls_ask]) simp

lemma requestToQuit_quiet [script_calls]: "adds quiet s (requestToQuit q s)"
  by (auto simp: requestToQuit_def Let_def adds_def)

lemma controller_start_quiet [script_calls]: "adds quiet s (controller_start q s)"
  by (auto simp: controller_start_def Let_def case_prod_beta adds_def)

text \<open>The calls only grow.\<close>

abbreviation "grows \<equiv> adds (\<lambda>c. True)"

lemma quiet_grows: "adds quiet s s' \<Longrightarrow> grows s s'"
  by (erule adds_mono) simp

lemma run_uninstaller_grows: "grows (snd e) (snd (run_uninstaller q path e))"
  by (auto simp: run_uninstaller_def case_prod_beta adds_def)

lemma wait_removed_grows: "wait_removed n q s = Some s' \<Longrightarrow> grows s s'"
  by (auto dest!: wait_removed_frame intro: adds_calls)

lemma remove_installed_grows:
  assumes "remove_installed q s = Some s'"
  shows "grows s s'"
proof -
  define s1 where "s1 = snd (appInstalled q s)"
  define x86 where "x86 = run_uninstaller q (appInstalledUninstallerPath_x86 s1) (None, s1)"
  define both where "both = run_uninstaller q (appInstalledUninstallerPath (snd x86)) x86"
  define s2 where "s2 = issue q (ConsoleLog (''Uninstaller finished with code: '' @ exec_code_text (fst both))) (snd both)"
  have s1: "grows s s1" by (rule adds_calls) (simp add: s1_def)
  also have "grows s1 (snd x86)" using run_uninstaller_grows[of "(None, s1)"] by (simp add: x86_def)
  also have "grows (snd x86) (snd both)" unfolding both_def by (rule run_uninstaller_grows)
  also have "grows (snd both) s2" unfolding s2_def by (rule adds_one [OF calls_issue]) simp
  finally have s2: "grows s s2" .
  have raise: "grows t (raiseInstallerWindow q t)" for t by (rule quiet_grows [OF raise_quiet])
  consider "s' = raiseInstallerWindow q s1"
    | "s' = issue_all q [ConsoleLog ''Uninstallation aborted by user'', SetCancelled] s2"
    | s3 where "wait_removed 300 q s2 = Some s3" "s' = raiseInstallerWindow q s3"
    using assms unfolding remove_installed_def Let_def case_prod_beta s1_def [symmetric]
      x86_def [symmetric] both_def [symmetric] s2_def [symmetric]
    by (auto simp: bind_eq_Some_conv split: if_splits)
  then show ?thesis
  proof cases
    case 1
    then show ?thesis using s1 raise adds_trans by blast
  next
    case 2
    then have "grows s2 s'" by (simp add: adds_def)
    then show ?thesis using s2 adds_trans by blast
  next
    case 3
    then show ?thesis using s2 raise wait_removed_grows adds_trans by blast
  qed
qed

lemma replace_consenting:
  assumes "replace_installed q s = Some s'"
  shows "consenting s s'"
proof -
  define s1 where "s1 = snd (appInstalled q s)"
  define e where "e = ask q (installed_box q s1) s1"
  have c1: "calls s1 = calls s" by (simp add: s1_def)
  have c2: "calls (snd e) = calls s @ [Ask (installed_box q s1) (fst e)]"
    by (simp add: e_def c1)
  consider "s' = s1" | "fst e = Ok" "remove_installed q (snd e) = Some s'"
    | "s' = issue_all q [ConsoleLog ''Request to quit from user'', SetCancelled] (snd e)"
    using assms unfolding replace_installed_def Let_def case_prod_beta s1_def [symmetric] e_def [symmetric]
    by (auto split: if_splits)
  then show ?thesis
  proof cases
    case 1
    then show ?thesis using c1 by (simp add: consenting_def)
  next
    case 2
    then obtain cs where "calls s' = calls (snd e) @ cs"
      using remove_installed_grows[of q "snd e" s'] by (auto simp: adds_def)
    then show ?thesis using c2 2(1) by (simp add: consenting_def installed_box_def)
  next
    case 3
    then show ?thesis using c2 by (simp add: consenting_def)
  qed
qed

section \<open>The controller\<close>

definition hide_pages :: "'w qif \<Rightarrow> 'w script \<Rightarrow> 'w script" where
  "hide_pages q s =
     issue_all q [SetDefaultPageVisible ''ComponentSelection'' False,
       SetDefaultPageVisible ''TargetDirectory'' False,
       SetDefaultPageVisible ''StartMenuDirectoryPage'' False,
       SetDefaultPageVisible ''LicenseCheck'' False] s"

definition allow_overwrite :: "'w qif \<Rightarrow> 'w script \<Rightarrow> 'w script" where
  "allow_overwrite q s =
     (if runningOnMacOS q s then issue q (SetMessageBoxAutomaticAnswer ''OverwriteTargetDirectory'' Yes) s else s)"

lemma hide_pages_quiet [script_calls]: "adds quiet s (hide_pages q s)"
  unfolding hide_pages_def by (rule issue_all_quiet) simp

lemma allow_overwrite_quiet [script_calls]: "adds quiet s (allow_overwrite q s)"
  by (simp add: allow_overwrite_def issue_quiet)

lemma loop_quiet:
  "isDesktopAppProcessRunningMessageLoop q s = Some r \<Longrightarrow> adds quiet s (js_state r)"
  by (drule returns_settles) (simp add: loop_post_def adds_loop_quiet)

text \<open>The ways in which the installer branch returns.\<close>

lemma controller_install_cases:
  assumes "controller_install q s = Some r"
  obtains (threw) e where "r = Inl e" "adds quiet s (snd e)"
  | (quit) s1 where "adds quiet s s1" "r = Inr ((), requestToQuit q s1)"
  | (legacy) s2 where "adds quiet s s2" "legacyTunnelCoreInstalled q s2"
      "r = Inr ((), issue q SetCancelled (snd (ask q legacy_box s2)))"
  | (replaced) s2 s3 where "adds quiet s s2" "\<not> legacyTunnelCoreInstalled q s2"
      "replace_installed q s2 = Some s3" "r = Inr ((), s3)"
proof -
  obtain r0 where r0: "isDesktopAppProcessRunningMessageLoop q (hide_pages q s) = Some r0"
    and rest: "(case r0 of
          Inl e \<Rightarrow> Some (Inl e)
        | Inr (u, s1) \<Rightarrow>
            if requestToQuitFromApp s1 then Some (Inr ((), requestToQuit q s1))
            else
              if legacyTunnelCoreInstalled q (allow_overwrite q s1)
              then Some (Inr ((), issue q SetCancelled (snd (ask q legacy_box (allow_overwrite q s1)))))
              else map_option (\<lambda>s3. Inr ((), s3)) (replace_installed q (allow_overwrite q s1))) = Some r"
    using assms unfolding controller_install_def hide_pages_def [symmetric] Let_def allow_overwrite_def [symmetric]
    by (auto simp: bind_eq_Some_conv)
  have ad: "adds quiet s (js_state r0)"
    using hide_pages_quiet loop_quiet[OF r0] by (rule adds_trans)
  show ?thesis
  proof (cases r0)
    case (Inl e)
    then show ?thesis using rest ad by (cases e) (auto intro: threw)
  next
    case (Inr a)
    obtain u s1 where a: "a = (u, s1)" by (rule prod.exhaust)
    have s1: "adds quiet s s1" using ad Inr a by simp
    then have s2: "adds quiet s (allow_overwrite q s1)"
      using allow_overwrite_quiet by (rule adds_trans)
    show ?thesis using rest Inr a s1 s2 by (auto split: if_splits intro: quit legacy replaced)
  qed
qed

lemma controller_install_consenting:
  assumes "controller_install q s = Some r"
  shows "consenting s (js_state r)"
  using assms
proof (cases rule: controller_install_cases)
  case (threw e)
  then show ?thesis by (cases e) (simp add: quiet_consenting)
next
  case (quit s1)
  then show ?thesis using quiet_consenting adds_trans requestToQuit_quiet by fastforce
next
  case (legacy s2)
  have "adds quiet s2 (issue q SetCancelled (snd (ask q legacy_box s2)))"
    using ask_quiet issue_quiet by (rule adds_trans) simp
  then show ?thesis using legacy quiet_consenting adds_trans by fastforce
next
  case (replaced s2 s3)
  then show ?thesis using quiet_consenting replace_consenting consenting_trans by fastforce
qed

lemma controller_uninstall_quiet:
  assumes "controller_uninstall q s = Some r"
  shows "adds quiet s (js_state r)"
proof -
  obtain r0 where r0: "isDesktopAppProcessRunningMessageLoop q s = Some r0"
    and rest: "(case r0 of
          Inl e \<Rightarrow> Some (Inl e)
        | Inr (u, s1) \<Rightarrow>
            if requestToQuitFromApp s1 then Some (Inr ((), requestToQuit q s1)) else Some (Inr ((), s1))) = Some r"
    using assms unfolding controller_uninstall_def by (auto simp: bind_eq_Some_conv)
  show ?thesis
  proof (cases r0)
    case (Inl e)
    then show ?thesis using rest loop_quiet[OF r0] by simp
  next
    case (Inr a)
    obtain u s1 where a: "a = (u, s1)" by (rule prod.exhaust)
    then show ?thesis using rest loop_quiet[OF r0] Inr adds_trans[OF _ requestToQuit_quiet]
      by (auto split: if_splits)
  qed
qed

lemma Controller_cases:
  assumes "Controller q s = Some r"
  obtains (install) "isInstaller q (world (controller_start q s))"
      "controller_install q (controller_start q s) = Some r"
  | (other) "\<not> isInstaller q (world (controller_start q s))" "adds quiet s (js_state r)"
proof (cases "isInstaller q (world (controller_start q s))")
  case True
  then show ?thesis using assms by (intro install) (simp_all add: Controller_def)
next
  case False
  have "adds quiet (controller_start q s) (js_state r)"
    using assms False controller_uninstall_quiet
    by (auto simp: Controller_def Let_def issue_all_quiet split: if_splits)
  then show ?thesis using False adds_trans[OF controller_start_quiet] by (intro other) blast+
qed

section \<open>Numbers printed by programs\<close>

lemma number_digits: "number n \<noteq> [] \<and> list_all isDigit (number n)"
proof (induction n rule: number.induct)
  case (1 n)
  have d: "isDigit (digitChar k)" if "k < 10" for k
    using that by (simp add: isDigit_def digitChar_def Let_def)
  show ?case
  proof (cases "n < 10")
    case True
    then show ?thesis using d by (subst (1 2) number.simps) simp
  next
    case False
    then show ?thesis using 1 d[of "n mod 10"] by (subst (1 2) number.simps) simp
  qed
qed

lemma digit_not_space: "isDigit c \<Longrightarrow> \<not> js_isSpace c \<and> c \<noteq> newline"
  by (auto simp: isDigit_def js_isSpace_def Let_def)

lemma js_trim_append:
  assumes "ds \<noteq> []" "list_all isDigit ds"
  shows "js_trim (ds @ t) = ds @ rev (dropWhile js_isSpace (rev t))"
proof -
  have sp: "\<not> js_isSpace c" if "c \<in> set ds" for c
    using that assms(2) digit_not_space by (auto simp: list_all_iff)
  have l: "dropWhile js_isSpace (ds @ t) = ds @ t"
    using assms(1) sp[of "hd ds"] by (cases ds) simp_all
  have "dropWhile js_isSpace (rev t @ rev ds) = dropWhile js_isSpace (rev t) @ rev ds"
  proof (cases "\<forall>c\<in>set t. js_isSpace c")
    case True
    have "dropWhile js_isSpace (rev ds) = rev ds"
      using assms(1) sp[of "last ds"] by (cases ds rule: rev_cases) simp_all
    with True show ?thesis by (simp add: dropWhile_append)
  next
    case False
    then show ?thesis by (auto simp: dropWhile_append)
  qed
  then show ?thesis by (simp add: js_trim_def l)
qed

lemma first_line_digits:
  assumes "ds \<noteq> []" "list_all isDigit ds" "t = [] \<or> hd t = newline"
  shows "takeWhile (\<lambda>c. c \<noteq> newline) (js_trim (ds @ t)) = ds"
proof -
  define u where "u = rev (dropWhile js_isSpace (rev t))"
  have "prefix u t" unfolding u_def
    by (metis rev_rev_ident suffix_dropWhile suffix_to_prefix)
  then have "u = [] \<or> hd u = newline" using assms(3) by (cases u; cases t) auto
  then have "takeWhile (\<lambda>c. c \<noteq> newline) u = []" by (cases u) simp_all
  moreover have "c \<noteq> newline" if "c \<in> set ds" for c
    using that assms(2) digit_not_space by (auto simp: list_all_iff)
  ultimately show ?thesis using js_trim_append[OF assms(1,2), of t]
    by (simp add: u_def [symmetric] takeWhile_append2)
qed

lemma js_Number_number: "js_Number (number n) = Finite (of_nat n)"
proof -
  let ?s = "number n"
  have d: "?s \<noteq> []" "list_all isDigit ?s" using number_digits by auto
  then have tr: "js_trim ?s = ?s" using js_trim_append[of ?s "[]"] by simp
  have all: "takeWhile isDigit ?s = ?s" "dropWhile isDigit ?s = []"
    using d(2) by (simp_all add: list_all_iff)
  have nd: "\<not> isDigit (CHR ''x'')" "\<not> isDigit (CHR ''X'')" "\<not> isDigit (CHR ''o'')" "\<not> isDigit (CHR ''O'')"
    "\<not> isDigit (CHR ''b'')" "\<not> isDigit (CHR ''B'')" "\<not> isDigit (CHR ''-'')" "\<not> isDigit (CHR ''+'')"
    "\<not> isDigit (CHR ''I'')"
    by code_simp+
  have "c \<noteq> k" if "c \<in> set ?s" "\<not> isDigit k" for c k using that d(2) by (auto simp: list_all_iff)
  then have pre: "take 2 ?s \<noteq> [CHR ''0'', k]" if "\<not> isDigit k" for k
    using that by (metis in_set_takeD list.set_intros(1,2))
  have hd: "hd ?s \<noteq> k" if "\<not> isDigit k" for k
    using that d by (metis hd_in_set list.pred_set)
  have "?s \<noteq> ''Infinity''" using hd[OF nd(9)] by auto
  then have "js_unsigned ?s = Finite (of_nat n)"
    using d(1) by (simp add: js_unsigned_def all Let_def digits_rat_def digits_value_number)
      (simp add: digits_value_def)
  then show ?thesis using d(1) pre[OF nd(1)] pre[OF nd(2)] pre[OF nd(3)] pre[OF nd(4)] pre[OF nd(5)] pre[OF nd(6)]
      hd[OF nd(7)] hd[OF nd(8)]
    by (simp add: js_Number_def tr Let_def)
qed

section \<open>Returning\<close>

lemma remove_installed_returns:
  assumes "clock_advances q"
  shows "\<exists>s'. remove_installed q s = Some s'"
proof -
  have "wait_removed 300 q u \<noteq> None" for u using wait_removed_returns[OF assms, of 300 u] by auto
  then have "remove_installed q s \<noteq> None"
    by (simp add: remove_installed_def Let_def case_prod_beta bind_eq_None_conv del: not_None_eq)
  then show ?thesis by simp
qed

lemma replace_installed_returns:
  "clock_advances q \<Longrightarrow> \<exists>s'. replace_installed q s = Some s'"
  using remove_installed_returns[of q] by (auto simp: replace_installed_def Let_def case_prod_beta)

lemma Controller_total:
  assumes "clock_advances q" "\<And>s. \<exists>n. settles n q s"
  shows "\<exists>r. Controller q s = Some r"
proof -
  have loop: "\<exists>r. isDesktopAppProcessRunningMessageLoop q t = Some r" for t
    using assms(2) settles_returns by blast
  have "\<exists>r. controller_install q t = Some r" for t
  proof -
    obtain r where "isDesktopAppProcessRunningMessageLoop q (hide_pages q t) = Some r" using loop by blast
    then show ?thesis
      using replace_installed_returns[OF assms(1)]
      by (cases r) (auto simp: controller_install_def hide_pages_def Let_def split: prod.split)
  qed
  moreover have "\<exists>r. controller_uninstall q t = Some r" for t
  proof -
    obtain r where "isDesktopAppProcessRunningMessageLoop q t = Some r" using loop by blast
    then show ?thesis by (cases r) (auto simp: controller_uninstall_def split: prod.split)
  qed
  ultimately show ?thesis by (auto simp: Controller_def Let_def)
qed

section \<open>Cancelling\<close>

text \<open>What \<open>remove_installed\<close> does once an installation is found.\<close>

definition uninstalled :: "'w qif \<Rightarrow> 'w script \<Rightarrow> exec_result \<times> 'w script" where
  "uninstalled q s =
     (let x86 = run_uninstaller q (appInstalledUninstallerPath_x86 s) (None, s)
      in run_uninstaller q (appInstalledUninstallerPath (snd x86)) x86)"

definition exit_ok :: "exec_result \<Rightarrow> bool" where
  "exit_ok r = (case r of None \<Rightarrow> False | Some (out, code) \<Rightarrow> code = 0)"

abbreviation "uncancelled \<equiv> adds (\<lambda>c. c \<noteq> SetCancelled)"

lemma uncancelled_run: "uncancelled (snd e) (snd (run_uninstaller q path e))"
  by (auto simp: run_uninstaller_def case_prod_beta adds_def)

lemma uncancelled_uninstalled: "uncancelled s (snd (uninstalled q s))"
  using uncancelled_run[of "(None, s)" q "appInstalledUninstallerPath_x86 s"] uncancelled_run
  by (simp add: uninstalled_def Let_def) (blast intro: adds_trans)

lemma uncancelled_raise: "uncancelled s (raiseInstallerWindow q s)"
  unfolding raiseInstallerWindow_def Let_def case_prod_beta by (auto simp: adds_def)

lemma remove_installed_found:
  assumes "clock_advances q" "fst (appInstalled q s)"
  defines "e \<equiv> uninstalled q (snd (appInstalled q s))"
  shows "\<exists>s'. remove_installed q s = Some s' \<and> grows (snd e) s' \<and>
    (if exit_ok (fst e) then uncancelled s s'
     else \<exists>cs. calls s' = calls s @ cs @ [SetCancelled])"
proof -
  define s2 where "s2 = issue q (ConsoleLog (''Uninstaller finished with code: '' @ exec_code_text (fst e))) (snd e)"
  have eq: "remove_installed q s =
      (if exit_ok (fst e) then Option.bind (wait_removed 300 q s2) (\<lambda>s3. Some (raiseInstallerWindow q s3))
       else Some (issue_all q [ConsoleLog ''Uninstallation aborted by user'', SetCancelled] s2))"
    using assms(2) unfolding remove_installed_def Let_def case_prod_beta s2_def e_def uninstalled_def exit_ok_def
    by simp
  have "uncancelled s (snd (appInstalled q s))" by (rule adds_calls) simp
  also have "uncancelled (snd (appInstalled q s)) (snd e)" unfolding e_def by (rule uncancelled_uninstalled)
  also have "uncancelled (snd e) s2" unfolding s2_def by (rule adds_one [OF calls_issue]) simp
  finally have s2: "uncancelled s s2" .
  have g2: "grows (snd e) s2" unfolding s2_def by (rule adds_one [OF calls_issue]) simp
  show ?thesis
  proof (cases "exit_ok (fst e)")
    case True
    obtain w where w: "wait_removed 300 q s2 = Some (s2\<lparr>world := w\<rparr>)"
      using wait_removed_returns[OF assms(1)] by blast
    have "uncancelled s2 (s2\<lparr>world := w\<rparr>)" by (rule adds_calls) simp
    then have "uncancelled s (raiseInstallerWindow q (s2\<lparr>world := w\<rparr>))"
      using s2 uncancelled_raise adds_trans by blast
    moreover have "grows s2 (raiseInstallerWindow q (s2\<lparr>world := w\<rparr>))"
      using raise_quiet[of "s2\<lparr>world := w\<rparr>" q] by (auto simp: adds_def list_all_iff)
    ultimately show ?thesis using True w eq g2 adds_trans by fastforce
  next
    case False
    let ?s' = "issue_all q [ConsoleLog ''Uninstallation aborted by user'', SetCancelled] s2"
    have "grows s2 ?s'" by (simp add: adds_def)
    with g2 have "grows (snd e) ?s'" by (rule adds_trans)
    moreover have "\<exists>cs. calls ?s' = calls s @ cs @ [SetCancelled]" using s2 by (auto simp: adds_def)
    ultimately show ?thesis using False eq by simp
  qed
qed

section \<open>Suffixes\<close>

lemma endsWith_suffix_iff: "endsWith str suf \<longleftrightarrow> suffix suf str"
proof (cases "length suf \<le> length str")
  case True
  let ?k = "length str - length suf"
  have start: "nat (max 0 (min (int (length str) - int (length suf)) (int (length str)))) = ?k"
    using True by (simp add: nat_diff_distrib')
  have "endsWith str suf \<longleftrightarrow> take (length suf) (drop ?k str) = suf"
    unfolding endsWith_def js_indexOf_found start by (metis order_antisym order_refl)
  also have "\<dots> \<longleftrightarrow> drop ?k str = suf" using True by simp
  also have "\<dots> \<longleftrightarrow> suffix suf str" using True by (auto simp: suffix_def) (metis append_take_drop_id)
  finally show ?thesis .
next
  case False
  then have "take (length suf) (drop k str) \<noteq> suf" for k by (metis length_drop length_take min.cobounded1 diff_le_self le_trans)
  moreover have "\<not> suffix suf str" using False suffix_length_le by blast
  ultimately show ?thesis unfolding endsWith_def js_indexOf_found by blast
qed

section \<open>Properties\<close>

text \<open>
  A concrete framework for the witnesses. Its world is the clock, which advances with each
  reading, the value of \<open>TargetDir\<close> and the text of the target directory line.
\<close>

fun example_perform :: "qif_call \<Rightarrow> int \<times> js_string \<times> js_string \<Rightarrow> int \<times> js_string \<times> js_string" where
  "example_perform (SetValue k v) (t, d, e) = (if k = ''TargetDir'' then (t, v, e) else (t, d, e))"
| "example_perform (SetLineEdit x) (t, d, e) = (t, d, x)"
| "example_perform c w = w"

definition example_qif ::
  "js_string \<Rightarrow> (js_string option \<Rightarrow> exec_result) \<Rightarrow> (js_string option \<Rightarrow> bool)
   \<Rightarrow> (int \<times> js_string \<times> js_string) qif" where
  "example_qif os result exists =
     \<lparr>perform = example_perform,
      run = (\<lambda>p args w. (result p, w)),
      answer = (\<lambda>box w. (Ok, w)),
      admin = (\<lambda>w. (True, w)),
      getTime = (\<lambda>(t, d, e). (t, (t + 1, d, e))),
      installer_value = (\<lambda>(t, d, e) k. if k = ''os'' then os else if k = ''Name'' then ''App''
         else if k = ''TargetDir'' then d else ''C:/''),
      fileExists = (\<lambda>w p. exists p),
      findPath = (\<lambda>w f dirs. ''''),
      isInstaller = (\<lambda>w. True), isUpdater = (\<lambda>w. False), isUninstaller = (\<lambda>w. False),
      status_is_Success = (\<lambda>w. True),
      targetDirectoryPage = (\<lambda>w. True),
      targetDirectoryText = (\<lambda>(t, d, e). e),
      currentPageWidget = (\<lambda>w. True), desktopLocation = (\<lambda>w. ''desk''),
      prettyProductName = ''OS'', currentCpuArchitecture = ''x86_64'', kernelType = ''winnt''\<rparr>"

lemma example_clock_pow:
  "((\<lambda>w. snd (getTime (example_qif os result exists) w)) ^^ n) (t, d, e) = (t + int n, d, e)"
  by (induction n) (simp_all add: example_qif_def)

lemma example_clock: "clock_advances (example_qif os result exists)"
  unfolding clock_advances_def
proof (intro allI)
  fix w :: "int \<times> js_string \<times> js_string" and b
  obtain t d e where w: "w = (t, d, e)" by (cases w) auto
  have "b < t + int (nat (b - t + 1))" by simp
  then show "\<exists>n. b < fst (getTime (example_qif os result exists)
      (((\<lambda>w. snd (getTime (example_qif os result exists) w)) ^^ n) w))"
    unfolding w example_clock_pow by (intro exI[of _ "nat (b - t + 1)"]) (simp add: example_qif_def)
qed

lemma example_closed:
  assumes "os \<noteq> ''win''" "result (Some ''/bin/bash'') = Some ('''', 1)"
  shows "\<exists>n. settles n (example_qif os result exists) s"
proof -
  have "js_Number (js_split_newlines (js_trim '''') ! 0) = Finite 0"
    by (simp add: hd_split_newlines js_trim_def js_Number_def)
  then have "settles (Suc 0) (example_qif os result exists) s"
    using assms
    by (cases "world s")
      (simp add: check_desktop_app_def appProcessIsRunning_def checkProcessIsRunning_def runningOnWindows_def
        execute_def example_qif_def)
  then show ?thesis by blast
qed

lemma example_closed_win:
  assumes "result (Some ''tasklist'') = None"
  shows "\<exists>n. settles n (example_qif ''win'' result exists) s"
proof -
  have "settles (Suc 0) (example_qif ''win'' result exists) s"
    using assms
    by (cases "world s")
      (simp add: check_desktop_app_def appProcessIsRunning_def runningOnWindows_def execute_def example_qif_def)
  then show ?thesis by blast
qed

text \<open>
  C1: no uninstaller is ever started without consent. In every run of the control script
  that returns, whatever the framework, the file system and the started programs do, a call
  that starts an uninstaller comes after the user answered Ok to the question whether the
  old installation may be removed.
\<close>

theorem uninstall_needs_consent:
  assumes "Controller q (script_start w) = Some r"
  shows "consent_from False (calls (js_state r))"
proof -
  have "consenting (script_start w) (js_state r)"
    using assms
  proof (cases rule: Controller_cases)
    case install
    then show ?thesis
      using controller_start_quiet quiet_consenting controller_install_consenting consenting_trans by blast
  next
    case other
    then show ?thesis using quiet_consenting by blast
  qed
  then show ?thesis by (simp add: consenting_def script_start_def)
qed

theorem uninstall_needs_consent_witness:
  "consent_from False (calls (js_state (the (Controller
     (example_qif ''linux'' (\<lambda>p. Some ('''', 1)) (\<lambda>p. p \<noteq> None)) (script_start (0, '''', ''''))))))"
proof -
  let ?q = "example_qif ''linux'' (\<lambda>p. Some ('''', 1)) (\<lambda>p. p \<noteq> None)"
  obtain r where "Controller ?q (script_start (0, '''', '''')) = Some r"
    using Controller_total[of ?q, OF example_clock example_closed] by auto
  with uninstall_needs_consent [of ?q "(0, '''', '''')" r] show ?thesis by simp
qed

text \<open>
  C2: an installation of the older generation, which shares its service with another
  product, is never removed by the script: while its service is on disk the script starts
  no uninstaller at all, and an installer run that returns normally has cancelled itself.
\<close>

theorem legacy_never_removed:
  assumes "\<And>s. legacyTunnelCoreInstalled q s" and "\<And>w. isInstaller q w"
    and "Controller q (script_start w) = Some r"
  shows "list_all quiet (calls (js_state r)) \<and>
    (\<forall>s'. r = Inr ((), s') \<longrightarrow> SetCancelled \<in> set (calls s'))"
proof -
  let ?s = "controller_start q (script_start w)"
  have win: "runningOnWindows q s" for s
    using assms(1)[of s] by (auto simp: legacyTunnelCoreInstalled_def split: if_splits)
  have quit: "SetCancelled \<in> set (calls (requestToQuit q s))" for s
    by (simp add: requestToQuit_def Let_def win)
  have start: "adds quiet (script_start w) ?s" by (rule controller_start_quiet)
  have "controller_install q ?s = Some r" using assms(2,3) by (simp add: Controller_def)
  then have "adds quiet ?s (js_state r) \<and> (\<forall>s'. r = Inr ((), s') \<longrightarrow> SetCancelled \<in> set (calls s'))"
  proof (cases rule: controller_install_cases)
    case (threw e)
    then show ?thesis by (cases e) simp
  next
    case (quit s1)
    then show ?thesis using \<open>\<And>s. SetCancelled \<in> set (calls (requestToQuit q s))\<close>
      by (auto intro: adds_trans requestToQuit_quiet)
  next
    case (legacy s2)
    have "adds quiet s2 (issue q SetCancelled (snd (ask q legacy_box s2)))"
      using ask_quiet issue_quiet by (rule adds_trans) simp
    with legacy show ?thesis by (auto intro: adds_trans)
  next
    case (replaced s2 s3)
    then show ?thesis using assms(1) by blast
  qed
  then show ?thesis using start adds_trans by (fastforce simp: adds_def script_start_def)
qed

theorem legacy_never_removed_witness:
  "list_all quiet (calls (js_state (the (Controller
     (example_qif ''win'' (\<lambda>p. None) (\<lambda>p. True)) (script_start (0, '''', ''''))))))"
proof -
  let ?q = "example_qif ''win'' (\<lambda>p. None) (\<lambda>p. True)"
  have l: "legacyTunnelCoreInstalled ?q s" for s
    by (cases "world s") (simp add: legacyTunnelCoreInstalled_def runningOnWindows_def example_qif_def)
  have i: "isInstaller ?q w" for w by (simp add: example_qif_def)
  obtain r where "Controller ?q (script_start (0, '''', '''')) = Some r"
    using Controller_total[of ?q, OF example_clock example_closed_win] by auto
  with legacy_never_removed [OF l i, of "(0, '''', '''')" r] show ?thesis by simp
qed

text \<open>
  C17: the control script returns. If the clock advances and, in whatever state, the user
  sooner or later closes the application or gives up pressing Retry, then every run of the
  script ends, in each mode of the installer; the waiting for the old uninstaller to
  disappear cannot hang it, even when the file never goes away.
\<close>

theorem controller_returns:
  assumes "clock_advances q" and "\<And>s. \<exists>n. settles n q s"
  shows "\<exists>r. Controller q s = Some r"
  using assms by (rule Controller_total)

theorem controller_returns_witness:
  "\<exists>r. Controller (example_qif ''linux'' (\<lambda>p. Some ('''', 1)) (\<lambda>p. True)) (script_start (0, '''', '''')) = Some r"
  by (rule controller_returns [OF example_clock example_closed]) simp_all

text \<open>
  C16: the question loop ends exactly when, after finitely many rounds, the application is
  found closed, the user declines to retry or a check throws; a user who always presses
  Retry while the application runs keeps it going for ever. When it ends normally, either
  quitting was requested or the application is not running.
\<close>

theorem message_loop_ends_iff:
  "(isDesktopAppProcessRunningMessageLoop q s \<noteq> None \<longleftrightarrow> (\<exists>n. settles n q s)) \<and>
   (\<forall>s'. isDesktopAppProcessRunningMessageLoop q s = Some (Inr ((), s')) \<longrightarrow>
      requestToQuitFromApp s' \<or> \<not> desktopAppProcessRunning s')"
  using settles_returns[of _ q s] returns_settles[of q s] unfolding loop_post_def by auto

theorem message_loop_ends_iff_witness:
  "isDesktopAppProcessRunningMessageLoop (example_qif ''linux'' (\<lambda>p. Some ('''', 1)) (\<lambda>p. True))
     (script_start (0, '''', '''')) \<noteq> None"
proof -
  let ?q = "example_qif ''linux'' (\<lambda>p. Some ('''', 1)) (\<lambda>p. True)"
  have "\<exists>n. settles n ?q (script_start (0, '''', ''''))" by (rule example_closed) simp_all
  with message_loop_ends_iff [of ?q "script_start (0, '''', '''')"] show ?thesis by blast
qed

text \<open>
  Sleeping ends when the clock advances and never too early: on return the clock was
  read strictly after the start plus the given number of milliseconds, and nothing but the
  passing of time has happened to the script.
\<close>

theorem sleep_waits:
  assumes "clock_advances q"
  shows "\<exists>s'. js_sleep q ms s = Some s' \<and> sleep_post q (fst (getTime q (world s)) + ms) s s'"
proof -
  obtain w where w: "js_sleep q ms s = Some (s\<lparr>world := w\<rparr>)" using js_sleep_returns[OF assms] by blast
  then have "sleep_loop q (fst (getTime q (world s)) + ms) (snd (js_getTime q s)) = Some (s\<lparr>world := w\<rparr>)"
    by (simp add: js_sleep_def js_getTime_def case_prod_beta)
  then have "sleep_post q (fst (getTime q (world s)) + ms) (snd (js_getTime q s)) (s\<lparr>world := w\<rparr>)"
    by (rule sleep_loop_post)
  then show ?thesis using w by (auto simp: sleep_post_def js_getTime_def case_prod_beta)
qed

theorem sleep_waits_witness:
  "\<exists>s'. js_sleep (example_qif ''mac'' (\<lambda>p. None) (\<lambda>p. True)) 100 (script_start (7, '''', '''')) = Some s'"
  using sleep_waits [OF example_clock [of "''mac''" "\<lambda>p. None" "\<lambda>p. True"], of 100 "script_start (7, '''', '''')"]
  by blast

text \<open>
  One round of the question loop starts at most one process to look for the
  application, and at most 401 of them when it runs as an updater.
\<close>

theorem checks_bounded:
  "length (calls (js_state (check_desktop_app q s)))
     \<le> length (calls s) + (if isUpdater q (world s) then 401 else 1)"
  using check_calls[of q s] by auto

text \<open>
  How the application is found. On Windows it counts as running exactly when the task
  list succeeds and contains the name of the executable. Elsewhere the script reads the
  first process id that \<open>pgrep\<close> prints: it counts as running exactly when there is one and
  it is at least 2. If the shell cannot be started the check throws.
\<close>

theorem app_process_found:
  assumes "execute q (Some ''tasklist'') [] s = (tasks, s1)"
    and "execute q (Some ''/bin/bash'') [''-c'', ''pgrep -x '' @ [quote] @ appName q s @ [quote]] s = (shell, s2)"
    and "shell = Some (concat (map (\<lambda>n. number n @ [newline]) pids), code) \<or> shell = None"
  shows "appProcessIsRunning q s =
    (if runningOnWindows q s
     then Inr (exit_ok tasks \<and> sublist (appExecutableFileName q s1) (fst (the tasks)), s1)
     else if shell = None then Inl (TypeError, s2)
     else Inr (pids \<noteq> [] \<and> hd pids \<ge> 2, s2))"
proof (cases "runningOnWindows q s")
  case True
  then show ?thesis using assms(1)
    by (cases tasks) (auto simp: appProcessIsRunning_def exit_ok_def js_indexOf_sublist)
next
  case False
  have first: "js_ge (js_Number (js_split_newlines (js_trim (concat (map (\<lambda>n. number n @ [newline]) pids))) ! 0)) 2
      \<longleftrightarrow> pids \<noteq> [] \<and> hd pids \<ge> 2"
  proof (cases pids)
    case Nil
    then show ?thesis by (simp add: hd_split_newlines js_trim_def js_Number_def)
  next
    case (Cons n ns)
    then show ?thesis
      using first_line_digits[of "number n" "newline # concat (map (\<lambda>n. number n @ [newline]) ns)"]
        number_digits[of n]
      by (simp add: hd_split_newlines js_Number_number)
  qed
  show ?thesis using False assms(2,3) first
    by (auto simp: appProcessIsRunning_def checkProcessIsRunning_def)
qed

theorem app_process_found_witness:
  "\<exists>s'. appProcessIsRunning (example_qif ''linux'' (\<lambda>p. Some (number 12 @ [newline], 0)) (\<lambda>p. True))
     (script_start (0, '''', '''')) = Inr (True, s')"
proof -
  let ?q = "example_qif ''linux'' (\<lambda>p. Some (number 12 @ [newline], 0)) (\<lambda>p. True)"
  let ?s = "script_start (0, '''', '''')"
  obtain s1 where s1: "execute ?q (Some ''tasklist'') [] ?s = (Some (number 12 @ [newline], 0), s1)"
    by (simp add: execute_def example_qif_def)
  obtain s2 where s2: "execute ?q (Some ''/bin/bash'') [''-c'', ''pgrep -x '' @ [quote] @ appName ?q ?s @ [quote]] ?s
      = (Some (number 12 @ [newline], 0), s2)"
    by (simp add: execute_def example_qif_def)
  have "\<not> runningOnWindows ?q ?s" by (simp add: runningOnWindows_def example_qif_def script_start_def)
  with app_process_found [OF s1 s2, of "[12]" 0] show ?thesis by simp
qed

text \<open>
  The script's own \<open>endsWith\<close>, built on \<open>indexOf\<close> from a position that is negative for
  a longer suffix, is the suffix relation on strings.
\<close>

theorem endsWith_suffix: "endsWith str suf \<longleftrightarrow> suffix suf str"
  by (rule endsWith_suffix_iff)

text \<open>
  What the browse handler relies on: the framework keeps the value of \<open>TargetDir\<close> and the
  text of the line edit as they are set, and neither changes the page, the name or the
  operating system.
\<close>

definition keeps_target :: "'w qif \<Rightarrow> bool" where
  "keeps_target q =
     (\<forall>w v. installer_value q (perform q (SetValue ''TargetDir'' v) w) ''TargetDir'' = v \<and>
        targetDirectoryText q (perform q (SetLineEdit v) w) = v \<and>
        (\<forall>c \<in> {SetValue ''TargetDir'' v, SetLineEdit v}.
           targetDirectoryPage q (perform q c w) = targetDirectoryPage q w \<and>
           installer_value q (perform q c w) ''Name'' = installer_value q w ''Name'' \<and>
           installer_value q (perform q c w) ''os'' = installer_value q w ''os''))"

lemma keeps_targetD:
  assumes "keeps_target q"
  shows "installer_value q (perform q (SetValue ''TargetDir'' v) w) ''TargetDir'' = v"
    "targetDirectoryText q (perform q (SetLineEdit v) w) = v"
    "c \<in> {SetValue ''TargetDir'' v, SetLineEdit v} \<Longrightarrow>
       targetDirectoryPage q (perform q c w) = targetDirectoryPage q w \<and>
       installer_value q (perform q c w) ''Name'' = installer_value q w ''Name'' \<and>
       installer_value q (perform q c w) ''os'' = installer_value q w ''os''"
  using assms unfolding keeps_target_def by blast+

lemma browse_step:
  assumes "keeps_target q" "targetDirectoryPage q (world s)" "runningOnWindows q s"
  defines "name \<equiv> appName q s" and "dir \<equiv> targetDirectoryText q (world s)"
  defines "s' \<equiv> onBrowseButtonClicked q s"
  shows "targetDirectoryText q (world s') = (if suffix name dir then dir else dir @ [backslash] @ name)"
    "targetDirectoryPage q (world s')" "runningOnWindows q s'" "appName q s' = name"
proof -
  define d where "d = (if suffix name dir then dir else dir @ [backslash] @ name)"
  define w1 where "w1 = perform q (SetValue ''TargetDir'' d) (world s)"
  have "world s' = perform q (SetLineEdit (installer_value q w1 ''TargetDir'')) w1"
    using assms(2,3) unfolding s'_def onBrowseButtonClicked_def endsWith_suffix_iff d_def w1_def name_def dir_def
    by (simp add: Let_def issue_def)
  also have "\<dots> = perform q (SetLineEdit d) w1"
    using keeps_targetD(1)[OF assms(1)] by (simp add: w1_def)
  finally have w: "world s' = perform q (SetLineEdit d) w1" .
  show "targetDirectoryText q (world s') = (if suffix name dir then dir else dir @ [backslash] @ name)"
    unfolding w d_def [symmetric] by (rule keeps_targetD(2)[OF assms(1)])
  have k: "targetDirectoryPage q (world s') = targetDirectoryPage q (world s) \<and>
      installer_value q (world s') ''Name'' = installer_value q (world s) ''Name'' \<and>
      installer_value q (world s') ''os'' = installer_value q (world s) ''os''"
    using keeps_targetD(3)[OF assms(1), of "SetLineEdit d" d w1]
      keeps_targetD(3)[OF assms(1), of "SetValue ''TargetDir'' d" d "world s"]
    by (simp add: w w1_def)
  then show "targetDirectoryPage q (world s')" "runningOnWindows q s'" "appName q s' = name"
    using assms(2,3) by (simp_all add: runningOnWindows_def appName_def name_def)
qed

text \<open>
  After browsing on Windows the target directory ends with the name of the product:
  the name is appended after a backslash unless the chosen path already ends with it, and
  pressing Browse again changes nothing more.
\<close>

theorem browse_appends_once:
  assumes "keeps_target q" and "targetDirectoryPage q (world s)" and "runningOnWindows q s"
  shows "targetDirectoryText q (world (onBrowseButtonClicked q s)) =
      (if suffix (appName q s) (targetDirectoryText q (world s)) then targetDirectoryText q (world s)
       else targetDirectoryText q (world s) @ [backslash] @ appName q s) \<and>
    targetDirectoryText q (world (onBrowseButtonClicked q (onBrowseButtonClicked q s))) =
      targetDirectoryText q (world (onBrowseButtonClicked q s))"
proof -
  note once = browse_step[OF assms]
  note twice = browse_step(1)[OF assms(1) once(2,3)]
  have "suffix (appName q s) (targetDirectoryText q (world (onBrowseButtonClicked q s)))"
    unfolding once(1) by (auto simp: suffix_def)
  then show ?thesis using once(1,4) twice by simp
qed

theorem browse_appends_once_witness:
  "targetDirectoryText (example_qif ''win'' (\<lambda>p. None) (\<lambda>p. True))
     (world (onBrowseButtonClicked (example_qif ''win'' (\<lambda>p. None) (\<lambda>p. True)) (script_start (0, '''', ''D:''))))
   = ''D:'' @ [backslash] @ ''App''"
proof -
  let ?q = "example_qif ''win'' (\<lambda>p. None) (\<lambda>p. True)" and ?s = "script_start (0, '''', ''D:'')"
  have "keeps_target ?q" "targetDirectoryPage ?q (world ?s)" "runningOnWindows ?q ?s"
    by (auto simp: keeps_target_def example_qif_def runningOnWindows_def script_start_def)
  from browse_appends_once [OF this] show ?thesis
    by (simp add: appName_def example_qif_def script_start_def suffix_def)
qed

text \<open>
  C22: the outcome of the removal. Once an installation is found, the script returns, and it
  has cancelled the installer exactly when the last uninstaller it started did not exit
  with code 0 (or none could be started); the cancellation is then its last call.
\<close>

theorem removal_cancels_iff_failed:
  assumes "clock_advances q" and "fst (appInstalled q s)"
  shows "\<exists>s' cs. remove_installed q s = Some s' \<and> calls s' = calls s @ cs \<and>
    (SetCancelled \<in> set cs \<longleftrightarrow> \<not> exit_ok (fst (uninstalled q (snd (appInstalled q s))))) \<and>
    (SetCancelled \<in> set cs \<longleftrightarrow> cs \<noteq> [] \<and> last cs = SetCancelled)"
proof -
  obtain s' where s': "remove_installed q s = Some s'"
    "if exit_ok (fst (uninstalled q (snd (appInstalled q s)))) then uncancelled s s'
     else \<exists>cs. calls s' = calls s @ cs @ [SetCancelled]"
    using remove_installed_found[OF assms] by blast
  show ?thesis
  proof (cases "exit_ok (fst (uninstalled q (snd (appInstalled q s))))")
    case True
    then obtain cs where cs: "calls s' = calls s @ cs" "list_all (\<lambda>c. c \<noteq> SetCancelled) cs"
      using s'(2) by (auto simp: adds_def)
    then have "SetCancelled \<notin> set cs" by (auto simp: list_all_iff)
    moreover from this have "\<not> (cs \<noteq> [] \<and> last cs = SetCancelled)" by (metis last_in_set)
    ultimately show ?thesis using True s'(1) cs(1) by blast
  next
    case False
    then obtain cs where "calls s' = calls s @ cs @ [SetCancelled]" using s'(2) by auto
    then show ?thesis using False s'(1) by (intro exI[of _ s'] exI[of _ "cs @ [SetCancelled]"]) simp
  qed
qed

theorem removal_cancels_iff_failed_witness:
  "\<exists>s' cs. remove_installed (example_qif ''linux'' (\<lambda>p. Some ('''', 1)) (\<lambda>p. p \<noteq> None))
     (script_start (0, '''', '''')) = Some s' \<and> calls s' = cs \<and> SetCancelled \<in> set cs"
proof -
  let ?q = "example_qif ''linux'' (\<lambda>p. Some ('''', 1)) (\<lambda>p. p \<noteq> None)"
  let ?s = "script_start (0, '''', '''')"
  have i: "fst (appInstalled ?q ?s)"
    by (simp add: appInstalled_def Let_def runningOnWindows_def runningOnMacOS_def runningOnLinux_def
        example_qif_def script_start_def)
  have "\<not> exit_ok (fst (uninstalled ?q (snd (appInstalled ?q ?s))))"
    by (simp add: uninstalled_def run_uninstaller_def execute_def issue_def appInstalled_def exit_ok_def
        Let_def runningOnWindows_def runningOnMacOS_def runningOnLinux_def example_qif_def script_start_def)
  with removal_cancels_iff_failed [OF example_clock i] show ?thesis by (auto simp: script_start_def)
qed

text \<open>
  Of two installations only the second one's exit code counts. If the 64-bit
  uninstaller is there and exits with code 0, the installer goes on without cancelling,
  whatever the 32-bit uninstaller, which was started before it, returned.
\<close>

theorem x86_failure_ignored:
  assumes "clock_advances q" and "\<And>w p. fileExists q w (Some p)" and "runningOnWindows q s"
    and "\<And>p w. p = appInstalledUninstallerPath (snd (appInstalled q s)) \<Longrightarrow> exit_ok (fst (run q p [] w))"
  shows "\<exists>s'. remove_installed q s = Some s' \<and> uncancelled s s' \<and>
    Execute (appInstalledUninstallerPath_x86 (snd (appInstalled q s))) [] \<in> set (calls s')"
proof -
  define t where "t = snd (appInstalled q s)"
  obtain p p86 where p: "appInstalledUninstallerPath t = Some p" "appInstalledUninstallerPath_x86 t = Some p86"
    using assms(3) by (simp add: t_def appInstalled_def Let_def)
  define e1 where "e1 = run_uninstaller q (Some p86) (None, t)"
  have e1: "e1 = execute q (Some p86) [] (issue q (ConsoleLog (''Starting uninstallation '' @ p86)) t)"
    by (simp add: e1_def run_uninstaller_def assms(2) path_text_def)
  have p1: "appInstalledUninstallerPath (snd e1) = Some p" by (simp add: e1 p)
  have u: "uninstalled q t = execute q (Some p) [] (issue q (ConsoleLog (''Starting uninstallation '' @ p)) (snd e1))"
    unfolding uninstalled_def Let_def p(2) e1_def [symmetric] p1
    by (simp add: run_uninstaller_def assms(2) path_text_def case_prod_beta)
  have "exit_ok (fst (uninstalled q t))"
    unfolding u using assms(4)[of "Some p"] p(1) by (simp add: execute_def case_prod_beta t_def [symmetric])
  moreover have "fst (appInstalled q s)"
    using assms(2,3) by (simp add: appInstalled_def Let_def)
  ultimately obtain s' where s': "remove_installed q s = Some s'" "uncancelled s s'" "grows (snd (uninstalled q t)) s'"
    using remove_installed_found[OF assms(1), of s] by (auto simp: t_def)
  have "Execute (Some p86) [] \<in> set (calls (snd (uninstalled q t)))" by (simp add: u e1)
  then have "Execute (Some p86) [] \<in> set (calls s')" using s'(3) adds_keeps by blast
  then show ?thesis using s'(1,2) p(2) by (auto simp: t_def)
qed

theorem x86_failure_ignored_witness:
  "\<exists>s'. remove_installed (example_qif ''win''
       (\<lambda>p. Some ('''', if p = Some ''C:/Program Files (x86)/TunnelCore VPN/maintenancetool.exe'' then 1 else 0))
       (\<lambda>p. True)) (script_start (0, '''', '''')) = Some s' \<and> uncancelled (script_start (0, '''', '''')) s'"
proof -
  let ?q = "example_qif ''win''
       (\<lambda>p. Some ('''', if p = Some ''C:/Program Files (x86)/TunnelCore VPN/maintenancetool.exe'' then 1 else 0))
       (\<lambda>p. True)"
  let ?s = "script_start (0, '''', '''')"
  have "fileExists ?q w (Some p)" for w p by (simp add: example_qif_def)
  moreover have "runningOnWindows ?q ?s" by (simp add: runningOnWindows_def example_qif_def script_start_def)
  moreover have "exit_ok (fst (run ?q p [] w))" if "p = appInstalledUninstallerPath (snd (appInstalled ?q ?s))" for p w
    using that by (simp add: appInstalled_def runningOnWindows_def Let_def exit_ok_def example_qif_def script_start_def)
  ultimately show ?thesis using x86_failure_ignored [OF example_clock, of "''win''" _ _ ?s] by blast
qed

section \<open>The wizard\<close>

text \<open>
  After the constructor the framework calls the handlers in an order of its own, with any
  change of the world in between.
\<close>

datatype wizard_page =
    PerformInstallationPage | LicenseAgreementPage | FinishedPage | RestartPage
  | StartMenuDirectoryPage | ComponentSelectionPage | ReadyForInstallationPage
  | TargetDirectoryPage | IntroductionPage | BrowseClicked | NextClicked | UpdaterInstallationFinished

fun wizard_handler :: "'w qif \<Rightarrow> wizard_page \<Rightarrow> 'w script \<Rightarrow> 'w script" where
  "wizard_handler q PerformInstallationPage = PerformInstallationPageCallback q"
| "wizard_handler q LicenseAgreementPage = LicenseAgreementPageCallback q"
| "wizard_handler q FinishedPage = FinishedPageCallback q"
| "wizard_handler q RestartPage = RestartPageCallback q"
| "wizard_handler q StartMenuDirectoryPage = StartMenuDirectoryPageCallback q"
| "wizard_handler q ComponentSelectionPage = ComponentSelectionPageCallback q"
| "wizard_handler q ReadyForInstallationPage = ReadyForInstallationPageCallback q"
| "wizard_handler q TargetDirectoryPage = TargetDirectoryPageCallback q"
| "wizard_handler q IntroductionPage = IntroductionPageCallback q"
| "wizard_handler q BrowseClicked = onBrowseButtonClicked q"
| "wizard_handler q NextClicked = onNextButtonClicked q"
| "wizard_handler q UpdaterInstallationFinished = onUpdaterInstallationFinished q"

inductive wizard_reaches :: "'w qif \<Rightarrow> 'w script \<Rightarrow> bool" for q where
  start: "wizard_reaches q (script_start w)"
| handler: "wizard_reaches q s \<Longrightarrow> wizard_reaches q (wizard_handler q page s)"
| framework: "wizard_reaches q s \<Longrightarrow> wizard_reaches q (s\<lparr>world := w\<rparr>)"

fun is_wizard_call :: "'w qif \<Rightarrow> qif_call \<Rightarrow> bool" where
  "is_wizard_call q (ClickButton b) = (b \<in> {NextButton, FinishButton, CancelButton} \<or> (\<exists>w. isUpdater q w))"
| "is_wizard_call q (SetValue k v) = (k \<in> {''TargetDir'', ''APP_BUNDLE_TARGET_DIR''})"
| "is_wizard_call q (SetLineEdit t) = True"
| "is_wizard_call q (HideChild c) = True"
| "is_wizard_call q (ConnectSignal a b) = True"
| "is_wizard_call q (DisconnectSignal a b) = True"
| "is_wizard_call q AutoAcceptMessageBoxes = True"
| "is_wizard_call q c = False"

lemmas handler_defs =
  PerformInstallationPageCallback_def LicenseAgreementPageCallback_def FinishedPageCallback_def
  RestartPageCallback_def StartMenuDirectoryPageCallback_def ComponentSelectionPageCallback_def
  ReadyForInstallationPageCallback_def TargetDirectoryPageCallback_def IntroductionPageCallback_def
  onBrowseButtonClicked_def onNextButtonClicked_def onUpdaterInstallationFinished_def

lemma updaterCompleted_issue_all [simp]: "updaterCompleted (issue_all q cs s) = updaterCompleted s"
  unfolding issue_all_def by (induction cs arbitrary: s) simp_all

lemma handler_calls: "\<exists>cs. calls (wizard_handler q page s) = calls s @ cs \<and> list_all (is_wizard_call q) cs"
  by (cases page) (auto simp: handler_defs Let_def)

lemma handler_completed:
  "updaterCompleted (wizard_handler q page s) = (if page = RestartPage then 1 else updaterCompleted s)"
  by (cases page) (simp_all add: handler_defs Let_def)

lemma handler_cancel:
  "ClickButton CancelButton \<in> set (calls (wizard_handler q page s)) \<Longrightarrow>
   ClickButton CancelButton \<in> set (calls s) \<or> updaterCompleted s = 1"
  by (cases page) (auto simp: handler_defs Let_def split: if_splits)

lemma restart_finishes: "ClickButton FinishButton \<in> set (calls (wizard_handler q RestartPage s))"
  by (simp add: handler_defs)



end
