(* ===== verification/Installer_Component.thy ===== *)
theory Installer_Component
  imports Installer_Framework
begin

text \<open>
  \<^verbatim>\<open>deploy/installer/qif/componentscript.js\<close>: the operations that install the component and
  what happens when the user leaves the last page. An argument of an operation that is an
  array in the script is a list here, and a plain string is a list of length one.
\<close>

section \<open>The script\<close>

definition component_appName :: "'w qif \<Rightarrow> 'w script \<Rightarrow> js_string" where
  "component_appName q s = installer_value q (world s) ''Name''"

definition displayName :: js_string where
  "displayName = ''TunnelCore VPN''"

definition serviceName :: js_string where
  "serviceName = ''TunnelCoreVPN-service''"

definition on_winnt :: "'w qif \<Rightarrow> bool" where
  "on_winnt q = (kernelType q = ''winnt'')"

definition on_darwin :: "'w qif \<Rightarrow> bool" where
  "on_darwin q = (kernelType q = ''darwin'')"

definition on_linux :: "'w qif \<Rightarrow> bool" where
  "on_linux q = (kernelType q = ''linux'')"

definition component_executable :: "'w qif \<Rightarrow> 'w script \<Rightarrow> js_string" where
  "component_executable q s = (if on_winnt q then ''TunnelCoreVPN.exe'' else component_appName q s)"

definition vcRuntimeIsInstalled :: "'w qif \<Rightarrow> 'w script \<Rightarrow> bool" where
  "vcRuntimeIsInstalled q s =
     (length (findPath q (world s) ''msvcp140.dll''
        [installer_value q (world s) ''RootDir'' @ [backslash] @ ''Windows'' @ [backslash] @ ''System32'' @ [backslash]]) \<noteq> 0)"

definition Component_new :: "'w qif \<Rightarrow> 'w script \<Rightarrow> 'w script" where
  "Component_new q s =
     issue_all q
       [ConnectSignal ''component.loaded'' ''componentLoaded'',
        ConnectSignal ''installer.installationFinished'' ''installationFinishedPageIsShown'',
        ConnectSignal ''installer.finishButtonClicked'' ''installationFinished''] s"

definition componentLoaded :: "'w qif \<Rightarrow> 'w script \<Rightarrow> 'w script" where
  "componentLoaded q s = s"

definition installationFinishedPageIsShown :: "'w qif \<Rightarrow> 'w script \<Rightarrow> 'w script" where
  "installationFinishedPageIsShown q s =
     (if isInstaller q (world s) \<and> status_is_Success q (world s)
      then issue q (ClickButton FinishButton) s else s)"

text \<open>\<open>path.replace(/\//g, '\\')\<close>.\<close>

definition to_backslashes :: "js_string \<Rightarrow> js_string" where
  "to_backslashes p = map (\<lambda>c. if c = CHR ''/'' then backslash else c) p"

definition shortcut_args :: "'w qif \<Rightarrow> 'w script \<Rightarrow> js_string \<Rightarrow> js_string list list" where
  "shortcut_args q s dir =
     [[''CreateShortcut''], [''@TargetDir@/'' @ component_executable q s],
      [dir @ ''/'' @ displayName @ ''.lnk''], [''workingDirectory=@TargetDir@''],
      [''iconPath=@TargetDir@'' @ [backslash] @ ''TunnelCoreVPN.ico''], [''iconId=0'']]"

definition add_shortcuts :: "'w qif \<Rightarrow> 'w script \<Rightarrow> 'w script" where
  "add_shortcuts q s =
     (let s1 = issue q (AddOperation (shortcut_args q s (desktopLocation q (world s)))) s
      in issue q (AddElevatedOperation
           (shortcut_args q s1 (installer_value q (world s1) ''AllUsersStartMenuProgramsPath''))) s1)"

definition vcRedistFileName :: "'w qif \<Rightarrow> js_string" where
  "vcRedistFileName q =
     (if js_indexOf (currentCpuArchitecture q) ''64'' 0 < 0 then ''vc_redist.x86.exe'' else ''vc_redist.x64.exe'')"

definition add_vc_runtime :: "'w qif \<Rightarrow> 'w script \<Rightarrow> 'w script" where
  "add_vc_runtime q s =
     (if \<not> vcRuntimeIsInstalled q s then
        let f = vcRedistFileName q in
        if length (findPath q (world s) f [to_backslashes (installer_value q (world s) ''TargetDir'')]) \<noteq> 0
        then issue q (AddElevatedOperation
               [[''Execute''], [''@TargetDir@'' @ [backslash] @ f], [''/install''], [''/quiet''], [''/norestart''],
                [''/log''], [''vc_redist.log'']]) s
        else issue q (ConsoleLog (f @ '' is not bundled, relying on the application-local MSVC runtime'')) s
      else issue q (ConsoleLog ''Microsoft Visual C++ Redistributable already installed'') s)"

definition add_service :: "'w qif \<Rightarrow> 'w script \<Rightarrow> 'w script" where
  "add_service q s =
     (let pu_path = to_backslashes (installer_value q (world s) ''TargetDir'') @ [backslash];
          s1 = issue q (AddElevatedOperation
            [[''Execute''],
             [''sc'', ''create'', serviceName, ''binpath='', pu_path @ serviceName @ ''.exe'',
              ''DisplayName='', displayName @ '' Service'', ''start='', ''auto'', ''depend='', ''BFE/nsi''],
             [''UNDOEXECUTE''], [''cmd''], [''/c''], [pu_path @ ''post_uninstall.cmd'']]) s
      in issue q (AddElevatedOperation [[''Execute''], [''cmd''], [''/c''], [pu_path @ ''post_install.cmd'']]) s1)"

definition createOperations :: "'w qif \<Rightarrow> 'w script \<Rightarrow> 'w script" where
  "createOperations q s =
     (let s0 = issue q DefaultOperations s in
      if on_winnt q then add_service q (add_vc_runtime q (add_shortcuts q s0))
      else if on_darwin q then
        issue q (AddElevatedOperation
          [[''Execute''], [''@TargetDir@/post_install.sh''], [''UNDOEXECUTE''], [''@TargetDir@/post_uninstall.sh'']]) s0
      else if on_linux q then
        issue q (AddElevatedOperation
          [[''Execute''], [''bash''], [''@TargetDir@/post_install.sh''], [''UNDOEXECUTE''], [''bash''],
           [''@TargetDir@/post_uninstall.sh'']]) s0
      else s0)"

definition exec_array_text :: "exec_result \<Rightarrow> js_string" where
  "exec_array_text r = (case r of None \<Rightarrow> '''' | Some (out, code) \<Rightarrow> out @ '','' @ int_number code)"

definition start_service :: "'w qif \<Rightarrow> 'w script \<Rightarrow> 'w script" where
  "start_service q s =
     (let (status1, s1) = execute q (Some ''net'') [''start'', serviceName] s;
          s2 = issue q (ConsoleLog (serviceName @ '' started with status: '' @ exec_array_text status1 @ '' '')) s1;
          (status2, s3) = execute q (Some ''sc'') [''failure'', serviceName, ''reset='', ''100'', ''actions='',
            ''restart/2000/restart/2000/restart/2000''] s2
      in issue q (ConsoleLog (''Changed settings for '' @ serviceName @ '' with status: ''
           @ exec_array_text status2 @ '' '')) s3)"

definition launch_command :: "'w qif \<Rightarrow> 'w script \<Rightarrow> js_string" where
  "launch_command q s =
     (if on_winnt q then ''@TargetDir@/'' @ component_executable q s
      else if on_darwin q then
        ''/Applications/'' @ component_appName q s @ ''.app/Contents/MacOS/'' @ component_appName q s
      else if on_linux q then ''@TargetDir@/bin/'' @ component_appName q s
      else '''')"

definition installationFinished :: "'w qif \<Rightarrow> 'w script \<Rightarrow> 'w script" where
  "installationFinished q s =
     (if status_is_Success q (world s) \<and> (isInstaller q (world s) \<or> isUpdater q (world s)) then
        let (granted, s1) = gainAdminRights q s in
        if \<not> granted then issue q (ConsoleLog ''Fatal error! Cannot get admin rights!'') s1
        else
          let command = launch_command q s1;
              s2 = (if on_winnt q then start_service q s1 else s1);
              s3 = issue q DropAdminRights s2
          in issue q (ExecuteDetached command [] (installer_value q (world s3) ''TargetDir'')) s3
      else s)"

section \<open>Operations and how they are undone\<close>

fun operation_args :: "qif_call \<Rightarrow> js_string list list" where
  "operation_args (AddOperation args) = args"
| "operation_args (AddElevatedOperation args) = args"
| "operation_args _ = []"

definition undo_args :: "qif_call \<Rightarrow> js_string list list" where
  "undo_args c = dropWhile (\<lambda>a. a \<noteq> [''UNDOEXECUTE'']) (operation_args c)"

definition has_undo :: "qif_call \<Rightarrow> bool" where
  "has_undo c = (undo_args c \<noteq> [])"

definition is_vc_redist :: "qif_call \<Rightarrow> bool" where
  "is_vc_redist c = list_ex (\<lambda>a. a = [''/norestart'']) (operation_args c)"

definition service_operation :: "js_string \<Rightarrow> qif_call" where
  "service_operation pu_path =
     AddElevatedOperation
       [[''Execute''],
        [''sc'', ''create'', serviceName, ''binpath='', pu_path @ serviceName @ ''.exe'',
         ''DisplayName='', displayName @ '' Service'', ''start='', ''auto'', ''depend='', ''BFE/nsi''],
        [''UNDOEXECUTE''], [''cmd''], [''/c''], [pu_path @ ''post_uninstall.cmd'']]"

abbreviation "target_path q s \<equiv> to_backslashes (installer_value q (world s) ''TargetDir'') @ [backslash]"

lemma add_service_calls:
  "calls (add_service q s) = calls s @
     [service_operation (target_path q s),
      AddElevatedOperation [[''Execute''], [''cmd''], [''/c''], [target_path q s @ ''post_install.cmd'']]]"
  by (simp add: add_service_def service_operation_def Let_def)

lemma add_shortcuts_calls:
  "\<exists>a b. calls (add_shortcuts q s) = calls s @ [a, b] \<and> \<not> has_undo a \<and> \<not> has_undo b \<and>
     \<not> is_vc_redist a \<and> \<not> is_vc_redist b"
  by (simp add: add_shortcuts_def Let_def shortcut_args_def has_undo_def undo_args_def is_vc_redist_def)

definition vc_needed :: "'w qif \<Rightarrow> 'w script \<Rightarrow> bool" where
  "vc_needed q s =
     (\<not> vcRuntimeIsInstalled q s \<and>
      findPath q (world s) (vcRedistFileName q) [to_backslashes (installer_value q (world s) ''TargetDir'')] \<noteq> [])"

lemma add_vc_runtime_calls:
  "\<exists>c. calls (add_vc_runtime q s) = calls s @ [c] \<and> \<not> has_undo c \<and> (is_vc_redist c \<longleftrightarrow> vc_needed q s) \<and>
     (is_vc_redist c \<longrightarrow> [''@TargetDir@'' @ [backslash] @ vcRedistFileName q] \<in> set (operation_args c))"
  by (simp add: add_vc_runtime_def Let_def vc_needed_def has_undo_def undo_args_def is_vc_redist_def)

lemma service_has_undo: "has_undo (service_operation p)" "\<not> is_vc_redist (service_operation p)"
  by (simp_all add: has_undo_def undo_args_def service_operation_def is_vc_redist_def)

lemma createOperations_winnt:
  assumes "on_winnt q"
  obtains a b c where "calls (createOperations q s) = calls s @
      [DefaultOperations, a, b, c,
       service_operation (target_path q (add_vc_runtime q (add_shortcuts q (issue q DefaultOperations s)))),
       AddElevatedOperation [[''Execute''], [''cmd''], [''/c''],
         [target_path q (add_vc_runtime q (add_shortcuts q (issue q DefaultOperations s))) @ ''post_install.cmd'']]]"
    "\<not> has_undo a" "\<not> has_undo b" "\<not> has_undo c" "\<not> is_vc_redist a" "\<not> is_vc_redist b"
    "is_vc_redist c \<longleftrightarrow> vc_needed q (add_shortcuts q (issue q DefaultOperations s))"
    "is_vc_redist c \<longrightarrow> [''@TargetDir@'' @ [backslash] @ vcRedistFileName q] \<in> set (operation_args c)"
proof -
  let ?s0 = "issue q DefaultOperations s"
  obtain a b where ab: "calls (add_shortcuts q ?s0) = calls ?s0 @ [a, b]" "\<not> has_undo a" "\<not> has_undo b"
      "\<not> is_vc_redist a" "\<not> is_vc_redist b"
    using add_shortcuts_calls by blast
  obtain c where c: "calls (add_vc_runtime q (add_shortcuts q ?s0)) = calls (add_shortcuts q ?s0) @ [c]"
      "\<not> has_undo c" "is_vc_redist c \<longleftrightarrow> vc_needed q (add_shortcuts q ?s0)"
      "is_vc_redist c \<longrightarrow> [''@TargetDir@'' @ [backslash] @ vcRedistFileName q] \<in> set (operation_args c)"
    using add_vc_runtime_calls by blast
  have "createOperations q s = add_service q (add_vc_runtime q (add_shortcuts q ?s0))"
    using assms by (simp add: createOperations_def)
  then show ?thesis
    by (intro that[of a b c]) (use c(4) in \<open>simp_all add: add_service_calls ab c(1-3)\<close>)
qed

lemma no_slash_to_backslashes: "CHR ''/'' \<notin> set (to_backslashes p)"
  by (auto simp: to_backslashes_def)

section \<open>Privileges\<close>

text \<open>
  \<open>privileges_ok b cs\<close>: starting with administrator rights exactly if \<open>b\<close>, the calls start
  programs only with them and the application only without.
\<close>

fun privileges_ok :: "bool \<Rightarrow> qif_call list \<Rightarrow> bool" where
  "privileges_ok b [] = True"
| "privileges_ok b (GainAdminRights # cs) = privileges_ok True cs"
| "privileges_ok b (DropAdminRights # cs) = privileges_ok False cs"
| "privileges_ok b (Execute p args # cs) = (b \<and> privileges_ok b cs)"
| "privileges_ok b (ExecuteDetached c args dir # cs) = (\<not> b \<and> privileges_ok b cs)"
| "privileges_ok b (c # cs) = privileges_ok b cs"

lemma calls_gainAdminRights [simp]: "calls (snd (gainAdminRights q s)) = calls s @ [GainAdminRights]"
  by (simp add: gainAdminRights_def case_prod_beta)

lemma start_service_calls:
  "\<exists>t1 t2. calls (start_service q s) = calls s @
     [Execute (Some ''net'') [''start'', serviceName], ConsoleLog t1,
      Execute (Some ''sc'') [''failure'', serviceName, ''reset='', ''100'', ''actions='',
        ''restart/2000/restart/2000/restart/2000''], ConsoleLog t2]"
  by (simp add: start_service_def Let_def case_prod_beta)

section \<open>Properties\<close>

definition component_qif :: "js_string \<Rightarrow> bool \<Rightarrow> unit qif" where
  "component_qif ker found =
     \<lparr>perform = (\<lambda>c w. w), run = (\<lambda>p args w. (Some ('''', 0), w)), answer = (\<lambda>box w. (Ok, w)),
      admin = (\<lambda>w. (True, w)), getTime = (\<lambda>w. (0, w)),
      installer_value = (\<lambda>w k. if k = ''TargetDir'' then ''C:/App'' else ''C:''),
      fileExists = (\<lambda>w p. True), findPath = (\<lambda>w f dirs. if found \<and> f \<noteq> ''msvcp140.dll'' then f else ''''),
      isInstaller = (\<lambda>w. True), isUpdater = (\<lambda>w. False), isUninstaller = (\<lambda>w. False),
      status_is_Success = (\<lambda>w. True), targetDirectoryPage = (\<lambda>w. True), targetDirectoryText = (\<lambda>w. ''''),
      currentPageWidget = (\<lambda>w. True), desktopLocation = (\<lambda>w. ''desk''),
      prettyProductName = ''OS'', currentCpuArchitecture = ''x86_64'', kernelType = ker\<rparr>"

text \<open>
  C32: what is installed can be undone. On each of the three supported systems the script
  adds, after the default operations, exactly one operation with an undo part, and that
  part ends with the post-uninstall script of the system; on any other system it adds
  nothing to the default operations.
\<close>

theorem operations_undone:
  "\<exists>ops. calls (createOperations q s) = calls s @ DefaultOperations # ops \<and>
     (if on_winnt q \<or> on_darwin q \<or> on_linux q
      then \<exists>op. filter has_undo ops = [op] \<and>
        suffix (if on_winnt q then ''post_uninstall.cmd'' else ''post_uninstall.sh'') (last (concat (undo_args op)))
      else ops = [])"
proof (cases "on_winnt q")
  case True
  then obtain a b c p where "calls (createOperations q s) = calls s @
      [DefaultOperations, a, b, c, service_operation p,
       AddElevatedOperation [[''Execute''], [''cmd''], [''/c''], [p @ ''post_install.cmd'']]]"
      "\<not> has_undo a" "\<not> has_undo b" "\<not> has_undo c"
    by (rule createOperations_winnt)
  moreover have "suffix ''post_uninstall.cmd'' (last (concat (undo_args (service_operation p))))"
    by (simp add: service_operation_def undo_args_def suffix_def)
  moreover have "\<not> has_undo (AddElevatedOperation [[''Execute''], [''cmd''], [''/c''], [p @ ''post_install.cmd'']])"
    by (simp add: has_undo_def undo_args_def)
  ultimately show ?thesis using True service_has_undo by simp
next
  case False
  then show ?thesis
    by (auto simp: createOperations_def Let_def has_undo_def undo_args_def suffix_def)
qed

text \<open>
  The Windows operations, when collecting operations does not change what the framework
  answers: the Visual C++ runtime is installed at most once, and exactly when it is missing
  and its installer is bundled, with the 64-bit one exactly on architectures whose name
  contains 64; and the service is registered and unregistered with paths in which every
  slash of the target directory has become a backslash.
\<close>

theorem windows_operations:
  assumes "on_winnt q"
    and "\<And>c w. findPath q (perform q c w) = findPath q w"
    and "\<And>c w. installer_value q (perform q c w) = installer_value q w"
  shows "\<exists>ops. calls (createOperations q s) = calls s @ ops \<and>
    length (filter is_vc_redist ops) = (if vc_needed q s then 1 else 0) \<and>
    (\<forall>op \<in> set (filter is_vc_redist ops).
       [''@TargetDir@'' @ [backslash] @
        (if sublist ''64'' (currentCpuArchitecture q) then ''vc_redist.x64.exe'' else ''vc_redist.x86.exe'')]
       \<in> set (operation_args op)) \<and>
    service_operation (target_path q s) \<in> set ops \<and> CHR ''/'' \<notin> set (target_path q s)"
proof -
  have w: "findPath q (world (issue q c t)) = findPath q (world t)"
      "installer_value q (world (issue q c t)) = installer_value q (world t)" for c t
    using assms(2,3) by (simp_all add: issue_def)
  have world1: "findPath q (world (add_shortcuts q (issue q DefaultOperations s))) = findPath q (world s)"
      "installer_value q (world (add_shortcuts q (issue q DefaultOperations s))) = installer_value q (world s)"
    by (simp_all add: add_shortcuts_def Let_def w)
  have world2: "installer_value q (world (add_vc_runtime q t)) = installer_value q (world t)" for t
    by (simp add: add_vc_runtime_def w Let_def)
  have need: "vc_needed q (add_shortcuts q (issue q DefaultOperations s)) = vc_needed q s"
    by (simp add: vc_needed_def vcRuntimeIsInstalled_def world1)
  have exe: "vcRedistFileName q =
      (if sublist ''64'' (currentCpuArchitecture q) then ''vc_redist.x64.exe'' else ''vc_redist.x86.exe'')"
    using js_indexOf_sublist[of "currentCpuArchitecture q" "''64''"]
    by (auto simp: vcRedistFileName_def js_indexOf_def Let_def split: option.splits)
  obtain a b c where abc: "calls (createOperations q s) = calls s @
      [DefaultOperations, a, b, c, service_operation (target_path q s),
       AddElevatedOperation [[''Execute''], [''cmd''], [''/c''], [target_path q s @ ''post_install.cmd'']]]"
      "\<not> is_vc_redist a" "\<not> is_vc_redist b" "is_vc_redist c \<longleftrightarrow> vc_needed q s"
      "is_vc_redist c \<longrightarrow> [''@TargetDir@'' @ [backslash] @ vcRedistFileName q] \<in> set (operation_args c)"
    using createOperations_winnt[OF assms(1), of s] unfolding need world1 world2 by metis
  define ops where "ops = [DefaultOperations, a, b, c, service_operation (target_path q s),
       AddElevatedOperation [[''Execute''], [''cmd''], [''/c''], [target_path q s @ ''post_install.cmd'']]]"
  have "filter is_vc_redist ops = (if vc_needed q s then [c] else [])"
    using abc(2-4) service_has_undo(2)
    by (simp add: ops_def is_vc_redist_def [of DefaultOperations]
        is_vc_redist_def [of "AddElevatedOperation args" for args])
  moreover have "service_operation (target_path q s) \<in> set ops" by (simp add: ops_def)
  moreover have "CHR ''/'' \<notin> set (target_path q s)" by (simp add: no_slash_to_backslashes)
  moreover have "calls (createOperations q s) = calls s @ ops" using abc(1) by (simp add: ops_def)
  ultimately show ?thesis using abc(4,5) unfolding exe by (intro exI[of _ ops]) simp
qed

theorem windows_operations_witness:
  "\<exists>ops. calls (createOperations (component_qif ''winnt'' True) (script_start ())) = ops \<and>
     length (filter is_vc_redist ops) = 1"
proof -
  let ?q = "component_qif ''winnt'' True" and ?s = "script_start ()"
  have "on_winnt ?q" "findPath ?q (perform ?q c w) = findPath ?q w"
      "installer_value ?q (perform ?q c w) = installer_value ?q w" for c w
    by (simp_all add: on_winnt_def component_qif_def)
  from windows_operations [OF this] have "\<exists>ops. calls (createOperations ?q ?s) = calls ?s @ ops \<and>
      length (filter is_vc_redist ops) = (if vc_needed ?q ?s then 1 else 0)" by blast
  moreover have "vc_needed ?q ?s"
    by (simp add: vc_needed_def vcRuntimeIsInstalled_def vcRedistFileName_def component_qif_def)
  ultimately show ?thesis by (simp add: script_start_def)
qed

text \<open>
  C18: leaving the last page. Nothing is started unless the installation succeeded, and
  nothing when administrator rights are refused; the service is only touched with those
  rights, and the application is always launched after they were dropped, as the last call.
\<close>

theorem finished_privileges:
  "\<exists>cs. calls (installationFinished q s) = calls s @ cs \<and> privileges_ok False cs \<and>
     (if status_is_Success q (world s) \<and> (isInstaller q (world s) \<or> isUpdater q (world s))
      then if fst (gainAdminRights q s)
           then \<exists>dir. last cs = ExecuteDetached (launch_command q (snd (gainAdminRights q s))) [] dir
           else list_all (\<lambda>c. c \<in> {GainAdminRights, ConsoleLog ''Fatal error! Cannot get admin rights!''}) cs
      else cs = [])"
proof -
  obtain t1 t2 where st: "calls (start_service q t) = calls t @
     [Execute (Some ''net'') [''start'', serviceName], ConsoleLog (t1 t),
      Execute (Some ''sc'') [''failure'', serviceName, ''reset='', ''100'', ''actions='',
        ''restart/2000/restart/2000/restart/2000''], ConsoleLog (t2 t)]" for t
    using start_service_calls[of q] by metis
  show ?thesis by (auto simp: installationFinished_def Let_def case_prod_beta st)
qed

end
