(* ===== verification/Update_Controller.thy ===== *)
theory Update_Controller
  imports Qt_Values
begin

text \<open>
  \<^verbatim>\<open>client/core/controllers/updateController.cpp\<close>: the check for a newer release, the download of
  its installer and the start of the installer. The network, the file system, the parsers of
  URLs, versions and JSON text, SHA-256 and the build platform are the parameter record
  \<open>update_env\<close>. What the network and the files deliver is an argument of the handler that
  receives it. A reply that is still loading is an entry of \<open>downloads\<close>, with the objects
  its closures share. Signals and started programs are recorded in \<open>did\<close>; log lines are not.
\<close>

section \<open>Platform and parameters\<close>

text \<open>The branches of the preprocessor conditions; an Android build asks whether it came from the store.\<close>

datatype platform = Windows | MacOS | Linux | Android bool | IOS | MacosNE

datatype UpdateState = Idle | Downloading | ReadyToInstall | DownloadError

datatype update_signal =
  updateFound | updateNotFound | updateCheckFailed | updateStateChanged | updateCheckRunningChanged

datatype update_call =
    Emit update_signal
  | GetMetadata QString QString
  | GetInstaller QString
  | OpenUrl QString
  | MakeExecutable QString
  | WriteScript QString QString
  | StartDetached QString "QString list"

record update_env =
  plat :: platform
  appVersion :: QString
  tempLocation :: QString
  iosStoreFallback :: QString
  androidPackage :: QString
  macInstallerScript :: QString
  json_document :: "QByteArray \<Rightarrow> QJsonObject option"
  compareVersion :: "QString \<Rightarrow> QString \<Rightarrow> int"
  url_scheme :: "QString \<Rightarrow> QString"
  url_host :: "QString \<Rightarrow> QString"
  url_path :: "QString \<Rightarrow> QString"
  url_query :: "QString \<Rightarrow> QString"
  url_fragment :: "QString \<Rightarrow> QString"
  url_isEmpty :: "QString \<Rightarrow> bool"
  url_toString :: "QString \<Rightarrow> QString"
  double_overflow :: "rat \<Rightarrow> int"
  sha256_hex :: "QByteArray \<Rightarrow> QString"
  commit_file :: "nat \<Rightarrow> QByteArray \<Rightarrow> bool \<Rightarrow> QByteArray option"

record download =
  d_written :: QByteArray
  d_writeError :: bool
  d_digest :: QByteArray
  d_bytesWritten :: int
  d_aborted :: bool

record UpdateController =
  m_version :: QString
  m_releaseDate :: QString
  m_description :: QString
  m_tags :: "QString list"
  m_newFeatures :: "QString list"
  m_improvements :: "QString list"
  m_bugFixes :: "QString list"
  m_downloadUrl :: QString
  m_expectedSha256 :: QString
  m_expectedSize :: int
  m_releasePageUrl :: QString
  m_mandatory :: bool
  m_updateState :: UpdateState
  m_updateCheckRunning :: bool
  downloads :: "download option list"
  disk :: "QByteArray option"
  did :: "update_call list"

text \<open>A new object, beside whatever file is left at the path of the installer.\<close>

definition new_controller :: "QByteArray option \<Rightarrow> UpdateController" where
  "new_controller content =
     \<lparr>m_version = '''', m_releaseDate = '''', m_description = '''', m_tags = [], m_newFeatures = [],
      m_improvements = [], m_bugFixes = [], m_downloadUrl = '''', m_expectedSha256 = '''',
      m_expectedSize = 0, m_releasePageUrl = '''', m_mandatory = False, m_updateState = Idle,
      m_updateCheckRunning = False, downloads = [], disk = content, did = []\<rparr>"

fun desktop :: "platform \<Rightarrow> bool" where
  "desktop Windows = True"
| "desktop MacOS = True"
| "desktop Linux = True"
| "desktop _ = False"

fun isStoreUpdate :: "platform \<Rightarrow> bool" where
  "isStoreUpdate IOS = True"
| "isStoreUpdate MacosNE = True"
| "isStoreUpdate (Android play) = play"
| "isStoreUpdate _ = False"

fun platformChannel :: "platform \<Rightarrow> QString" where
  "platformChannel (Android play) = (if play then ''android-play'' else ''android-apk'')"
| "platformChannel IOS = ''ios''"
| "platformChannel MacosNE = ''macos-store''"
| "platformChannel MacOS = ''macos''"
| "platformChannel Windows = ''windows''"
| "platformChannel Linux = ''linux''"

text \<open>\<open>kInstallerRemoteFileNamePattern\<close> with its \<open>%1\<close> replaced; only desktop builds have one.\<close>

fun installerRemoteFileName :: "platform \<Rightarrow> QString \<Rightarrow> QString" where
  "installerRemoteFileName Windows v = ''TunnelCoreVPN_'' @ v @ ''_windows_x64.exe''"
| "installerRemoteFileName MacOS v = ''TunnelCoreVPN_'' @ v @ ''_macos_x64.pkg''"
| "installerRemoteFileName Linux v = ''TunnelCoreVPN_'' @ v @ ''_linux_x64.run''"
| "installerRemoteFileName _ v = ''''"

definition kInstallerLocalPath :: "'e update_env_scheme \<Rightarrow> QString" where
  "kInstallerLocalPath env = tempLocation env @
     (case plat env of Windows \<Rightarrow> ''/TunnelCoreVPN_installer.exe'' | MacOS \<Rightarrow> ''/TunnelCoreVPN.pkg''
      | Linux \<Rightarrow> ''/TunnelCoreVPN.run'' | _ \<Rightarrow> '''')"

section \<open>Checking what the server announces\<close>

text \<open>The \<open>$\<close> of the patterns also matches before a newline that ends the subject.\<close>

definition before_final_newline :: "QString \<Rightarrow> QString" where
  "before_final_newline s = (if s \<noteq> [] \<and> last s = CHR 0x0A then butlast s else s)"

fun split_dots :: "QString \<Rightarrow> QString list" where
  "split_dots [] = [[]]"
| "split_dots (c # cs) =
     (if c = CHR ''.'' then [] # split_dots cs
      else case split_dots cs of p # ps \<Rightarrow> (c # p) # ps | [] \<Rightarrow> [[c]])"

definition validVersion :: "QString \<Rightarrow> bool" where
  "validVersion version =
     (let ps = split_dots (before_final_newline version)
      in (length ps = 3 \<or> length ps = 4) \<and> list_all (\<lambda>p. p \<noteq> [] \<and> list_all isDigit p) ps)"

definition isLowerHex :: "char \<Rightarrow> bool" where
  "isLowerHex c = (let n = (of_char c :: nat) in (48 \<le> n \<and> n \<le> 57) \<or> (97 \<le> n \<and> n \<le> 102))"

definition hashPattern :: "QString \<Rightarrow> bool" where
  "hashPattern s = (length (before_final_newline s) = 64 \<and> list_all isLowerHex (before_final_newline s))"

definition tunnelCoreReleasePage :: "'e update_env_scheme \<Rightarrow> QString \<Rightarrow> bool" where
  "tunnelCoreReleasePage env url =
     (url_scheme env url = ''https'' \<and> url_host env url = ''github.com'' \<and>
      prefix ''/VnextDevelopment/tunnelcore-vpn/releases/tag/'' (url_path env url) \<and>
      url_query env url = '''' \<and> url_fragment env url = '''')"

definition stringListFromJsonValue :: "QJsonValue \<Rightarrow> QString list" where
  "stringListFromJsonValue v = filter (\<lambda>text. text \<noteq> '''') (map json_toString (json_toArray v))"

definition qint64_cast :: "'e update_env_scheme \<Rightarrow> rat \<Rightarrow> int" where
  "qint64_cast env x = cast_signed 64 (double_overflow env) x"

definition storeHost :: "platform \<Rightarrow> QString" where
  "storeHost p = (case p of Android play \<Rightarrow> ''play.google.com'' | _ \<Rightarrow> ''apps.apple.com'')"

definition release_page_ok :: "'e update_env_scheme \<Rightarrow> QString \<Rightarrow> QString \<Rightarrow> bool" where
  "release_page_ok env version releasePage =
     (if isStoreUpdate (plat env)
      then url_scheme env releasePage = ''https'' \<and> url_host env releasePage = storeHost (plat env)
      else tunnelCoreReleasePage env releasePage \<and>
        url_path env releasePage = ''/VnextDevelopment/tunnelcore-vpn/releases/tag/v'' @ version)"

definition installer_metadata_ok ::
  "'e update_env_scheme \<Rightarrow> QString \<Rightarrow> QString \<Rightarrow> QString \<Rightarrow> int \<Rightarrow> bool" where
  "installer_metadata_ok env version installerUrl sha256 bytes =
     (url_scheme env installerUrl = ''https'' \<and> url_host env installerUrl = ''github.com'' \<and>
      url_path env installerUrl = ''/VnextDevelopment/tunnelcore-vpn/releases/download/v'' @ version @ ''/''
        @ installerRemoteFileName (plat env) version \<and>
      url_query env installerUrl = '''' \<and> url_fragment env installerUrl = '''' \<and>
      hashPattern sha256 \<and> 1 \<le> bytes \<and> bytes \<le> 850000000)"

section \<open>Signals and the check for updates\<close>

definition record_call :: "update_call \<Rightarrow> UpdateController \<Rightarrow> UpdateController" where
  "record_call c s = s\<lparr>did := did s @ [c]\<rparr>"

abbreviation emit_signal :: "update_signal \<Rightarrow> UpdateController \<Rightarrow> UpdateController" where
  "emit_signal sig \<equiv> record_call (Emit sig)"

definition setUpdateState :: "UpdateState \<Rightarrow> UpdateController \<Rightarrow> UpdateController" where
  "setUpdateState st s =
     (if m_updateState s = st then s else emit_signal updateStateChanged (s\<lparr>m_updateState := st\<rparr>))"

definition setUpdateCheckRunning :: "bool \<Rightarrow> UpdateController \<Rightarrow> UpdateController" where
  "setUpdateCheckRunning running s =
     (if m_updateCheckRunning s = running then s
      else emit_signal updateCheckRunningChanged (s\<lparr>m_updateCheckRunning := running\<rparr>))"

definition checkForUpdates :: "'e update_env_scheme \<Rightarrow> UpdateController \<Rightarrow> UpdateController" where
  "checkForUpdates env s =
     (if m_updateCheckRunning s then s
      else record_call (GetMetadata (platformChannel (plat env)) (appVersion env))
             (setUpdateCheckRunning True s))"

text \<open>A finished reply: whether \<open>error()\<close> is set, the status code and the body.\<close>

record reply =
  reply_error :: bool
  reply_status :: int
  reply_body :: QByteArray

definition accept_metadata ::
  "'e update_env_scheme \<Rightarrow> QJsonObject \<Rightarrow> QString \<Rightarrow> QString \<Rightarrow> QString \<Rightarrow> QString \<Rightarrow> int
   \<Rightarrow> UpdateController \<Rightarrow> UpdateController" where
  "accept_metadata env data version releasePage downloadUrl sha256 bytes s =
     s\<lparr>m_version := version,
       m_releaseDate := json_toString (obj_value data ''releaseDate''),
       m_description := json_toString (obj_value data ''updateDescription''),
       m_tags := stringListFromJsonValue (obj_value data ''updateTags''),
       m_newFeatures := stringListFromJsonValue (obj_value data ''newFeatures''),
       m_improvements := stringListFromJsonValue (obj_value data ''improvements''),
       m_bugFixes := stringListFromJsonValue (obj_value data ''bugFixes''),
       m_downloadUrl := downloadUrl, m_expectedSha256 := sha256, m_expectedSize := bytes,
       m_releasePageUrl := url_toString env releasePage,
       m_mandatory := json_toBool (obj_value data ''mandatory'')\<rparr>"

definition handle_metadata ::
  "'e update_env_scheme \<Rightarrow> QJsonObject \<Rightarrow> UpdateController \<Rightarrow> UpdateController" where
  "handle_metadata env data s =
     (if \<not> json_toBool (obj_value data ''updateAvailable'')
      then emit_signal updateNotFound (setUpdateState Idle s)
      else
        let version = json_toString (obj_value data ''updateVersion'') in
        if \<not> validVersion version \<or> compareVersion env version (appVersion env) \<le> 0
        then emit_signal updateNotFound s
        else
          let releasePage = json_toString (obj_value data ''releasePageUrl'') in
          if \<not> release_page_ok env version releasePage then emit_signal updateCheckFailed s
          else
            let downloadUrl = json_toString (obj_value data ''downloadUrl'');
                sha256 = toLower (json_toString (obj_value data ''sha256''));
                bytes = qint64_cast env (json_toDouble (obj_value data ''downloadSize''))
            in if desktop (plat env) \<and> \<not> installer_metadata_ok env version downloadUrl sha256 bytes
               then emit_signal updateCheckFailed s
               else emit_signal updateFound (setUpdateState Idle
                      (accept_metadata env data version releasePage downloadUrl sha256 bytes s)))"

definition updateCheckFinished ::
  "'e update_env_scheme \<Rightarrow> reply \<Rightarrow> UpdateController \<Rightarrow> UpdateController" where
  "updateCheckFinished env r s =
     (let s1 = setUpdateCheckRunning False s in
      if reply_error r \<or> reply_status r \<noteq> 200 then emit_signal updateCheckFailed s1
      else case json_document env (reply_body r) of
        None \<Rightarrow> emit_signal updateCheckFailed s1
      | Some data \<Rightarrow> handle_metadata env data s1)"

section \<open>Downloading\<close>

definition play_url :: "'e update_env_scheme \<Rightarrow> QString" where
  "play_url env = ''https://play.google.com/store/apps/details?id='' @ androidPackage env"

definition openStorePage :: "'e update_env_scheme \<Rightarrow> UpdateController \<Rightarrow> UpdateController" where
  "openStorePage env s =
     (let trusted = (\<lambda>u. url_scheme env u = ''https'' \<and> url_host env u = storeHost (plat env));
          url = m_releasePageUrl s
      in case plat env of
           Android play \<Rightarrow> record_call (OpenUrl (if trusted url then url else play_url env)) s
         | IOS \<Rightarrow>
             (let url1 = (if trusted url then url else iosStoreFallback env)
              in if trusted url1 then record_call (OpenUrl url1) s else s)
         | MacosNE \<Rightarrow>
             (let url1 = (if trusted url then url else iosStoreFallback env)
              in if trusted url1 then record_call (OpenUrl url1) s else s)
         | _ \<Rightarrow> s)"

definition composeDownloadUrl :: "'e update_env_scheme \<Rightarrow> UpdateController \<Rightarrow> QString" where
  "composeDownloadUrl env s = (if desktop (plat env) then m_downloadUrl s else '''')"

definition new_download :: download where
  "new_download = \<lparr>d_written = [], d_writeError = False, d_digest = [], d_bytesWritten = 0, d_aborted = False\<rparr>"

text \<open>\<open>opened\<close> is the result of opening the save file.\<close>

definition downloadInstaller ::
  "'e update_env_scheme \<Rightarrow> bool \<Rightarrow> UpdateController \<Rightarrow> UpdateController" where
  "downloadInstaller env opened s =
     (if \<not> desktop (plat env) then s
      else if m_updateState s = Downloading then s
      else
        let url = composeDownloadUrl env s in
        if url_isEmpty env url \<or> length (m_expectedSha256 s) \<noteq> 64 \<or> m_expectedSize s < 1
        then setUpdateState DownloadError s
        else if \<not> opened then setUpdateState DownloadError s
        else record_call (GetInstaller url)
               ((setUpdateState Downloading s)\<lparr>downloads := downloads s @ [Some new_download]\<rparr>))"

definition startUpdate ::
  "'e update_env_scheme \<Rightarrow> bool \<Rightarrow> UpdateController \<Rightarrow> UpdateController" where
  "startUpdate env opened s =
     (if isStoreUpdate (plat env) then openStorePage env s
      else case plat env of
        Android play \<Rightarrow>
          if tunnelCoreReleasePage env (m_releasePageUrl s)
          then record_call (OpenUrl (m_releasePageUrl s)) s
          else setUpdateState DownloadError s
      | _ \<Rightarrow> downloadInstaller env opened s)"

text \<open>
  \<open>QSaveFile::write\<close>, with the number of bytes it reports; a short or failed write is
  remembered by the file. \<open>drain\<close> reads the chunks that are available, each given with
  the result of writing it.
\<close>

definition save_write :: "QByteArray \<Rightarrow> int \<Rightarrow> download \<Rightarrow> download" where
  "save_write chunk n d =
     (if n = int (length chunk) then d\<lparr>d_written := d_written d @ chunk\<rparr>
      else d\<lparr>d_written := d_written d @ take (nat n) chunk, d_writeError := True\<rparr>)"

fun drain :: "int \<Rightarrow> (QByteArray \<times> int) list \<Rightarrow> download \<Rightarrow> download" where
  "drain expectedSize [] d = d"
| "drain expectedSize ((chunk, n) # rest) d =
     (if chunk = [] then d
      else
        let d1 = d\<lparr>d_bytesWritten := d_bytesWritten d + int (length chunk)\<rparr> in
        if d_bytesWritten d1 > expectedSize then d1\<lparr>d_aborted := True\<rparr>
        else
          let d2 = save_write chunk n d1 in
          if n \<noteq> int (length chunk) then d2\<lparr>d_aborted := True\<rparr>
          else drain expectedSize rest (d2\<lparr>d_digest := d_digest d2 @ chunk\<rparr>))"

definition active :: "nat \<Rightarrow> UpdateController \<Rightarrow> download option" where
  "active i s = (if i < length (downloads s) then downloads s ! i else None)"

definition downloadReadyRead ::
  "nat \<Rightarrow> (QByteArray \<times> int) list \<Rightarrow> UpdateController \<Rightarrow> UpdateController" where
  "downloadReadyRead i chunks s =
     (case active i s of
        None \<Rightarrow> s
      | Some d \<Rightarrow> s\<lparr>downloads := (downloads s)[i := Some (drain (m_expectedSize s) chunks d)]\<rparr>)"

text \<open>
  The handler of \<open>finished\<close>. \<open>abort\<close> on a loading reply sets its error; on a finished one,
  as in the \<open>drain\<close> of this handler, it has no effect.
\<close>

definition downloadFinished ::
  "'e update_env_scheme \<Rightarrow> nat \<Rightarrow> bool \<Rightarrow> int \<Rightarrow> (QByteArray \<times> int) list
   \<Rightarrow> UpdateController \<Rightarrow> UpdateController" where
  "downloadFinished env i replyError status chunks s =
     (case active i s of
        None \<Rightarrow> s
      | Some d0 \<Rightarrow>
          let d = drain (m_expectedSize s) chunks d0;
              valid = (\<not> (replyError \<or> d_aborted d0) \<and> status = 200 \<and>
                       d_bytesWritten d = m_expectedSize s \<and>
                       sha256_hex env (d_digest d) = m_expectedSha256 s);
              s1 = s\<lparr>downloads := (downloads s)[i := None]\<rparr>
          in if \<not> valid then setUpdateState DownloadError s1
             else case commit_file env i (d_written d) (d_writeError d) of
               None \<Rightarrow> setUpdateState DownloadError s1
             | Some content \<Rightarrow> setUpdateState ReadyToInstall (s1\<lparr>disk := Some content\<rparr>))"

section \<open>Starting the installer\<close>

text \<open>What the system answers: the temporary directory, whether the script file opens, whether the process starts.\<close>

record launch =
  extractDir :: "QString option"
  scriptOpens :: bool
  processStarts :: bool

definition runDirectly :: "launch \<Rightarrow> QString \<Rightarrow> UpdateController \<Rightarrow> int \<times> UpdateController" where
  "runDirectly l installerPath s =
     (if processStarts l then 0 else -1, record_call (StartDetached installerPath []) s)"

definition runWindowsInstaller :: "launch \<Rightarrow> QString \<Rightarrow> UpdateController \<Rightarrow> int \<times> UpdateController" where
  "runWindowsInstaller l installerPath s = runDirectly l installerPath s"

definition runMacInstaller ::
  "'e update_env_scheme \<Rightarrow> launch \<Rightarrow> QString \<Rightarrow> UpdateController \<Rightarrow> int \<times> UpdateController" where
  "runMacInstaller env l installerPath s =
     (case extractDir l of
        None \<Rightarrow> (-1, s)
      | Some dir \<Rightarrow>
          let scriptPath = dir @ ''/mac_installer.sh'' in
          if \<not> scriptOpens l then (-1, s)
          else if macInstallerScript env = '''' then (-1, s)
          else
            let s1 = record_call (MakeExecutable scriptPath)
                       (record_call (WriteScript scriptPath (macInstallerScript env)) s);
                s2 = record_call (StartDetached ''/bin/bash'' [scriptPath, dir, installerPath]) s1
            in (if processStarts l then 0 else -1, s2))"

definition runLinuxInstaller :: "launch \<Rightarrow> QString \<Rightarrow> UpdateController \<Rightarrow> int \<times> UpdateController" where
  "runLinuxInstaller l installerPath s =
     runDirectly l installerPath (record_call (MakeExecutable installerPath) s)"

definition installUpdate ::
  "'e update_env_scheme \<Rightarrow> launch \<Rightarrow> UpdateController \<Rightarrow> UpdateController" where
  "installUpdate env l s =
     (if \<not> desktop (plat env) then s
      else if m_updateState s \<noteq> ReadyToInstall then s
      else case plat env of
        Windows \<Rightarrow> snd (runWindowsInstaller l (kInstallerLocalPath env) s)
      | MacOS \<Rightarrow> snd (runMacInstaller env l (kInstallerLocalPath env) s)
      | Linux \<Rightarrow> snd (runLinuxInstaller l (kInstallerLocalPath env) s)
      | _ \<Rightarrow> s)"

end
