(* ===== verification/Update_Facts.thy ===== *)
theory Update_Facts
  imports Update_Controller
begin

text \<open>
  Facts about the update controller: an invariant of every state its handlers can reach, in
  any order of checks, downloads and replies, and what it says about the installer that is
  started.
\<close>

section \<open>Handlers in any order\<close>

text \<open>
  The states of a controller object. A reply to a check arrives only while a check is
  running; downloads deliver data and finish in any order.
\<close>

inductive update_reachable :: "'e update_env_scheme \<Rightarrow> UpdateController \<Rightarrow> bool" for env where
  start: "update_reachable env (new_controller content)"
| check: "update_reachable env s \<Longrightarrow> update_reachable env (checkForUpdates env s)"
| checked: "update_reachable env s \<Longrightarrow> m_updateCheckRunning s \<Longrightarrow>
    update_reachable env (updateCheckFinished env r s)"
| started: "update_reachable env s \<Longrightarrow> update_reachable env (startUpdate env opened s)"
| received: "update_reachable env s \<Longrightarrow> update_reachable env (downloadReadyRead i chunks s)"
| finished: "update_reachable env s \<Longrightarrow>
    update_reachable env (downloadFinished env i replyError status chunks s)"
| installed: "update_reachable env s \<Longrightarrow> update_reachable env (installUpdate env l s)"

text \<open>\<open>QSaveFile::commit\<close>: all bytes that were written are in the file, or it fails.\<close>

definition commit_atomic :: "'e update_env_scheme \<Rightarrow> bool" where
  "commit_atomic env =
     (\<forall>i written failed content. commit_file env i written failed = Some content \<longrightarrow>
        \<not> failed \<and> content = written)"

definition metadata_ok :: "'e update_env_scheme \<Rightarrow> UpdateController \<Rightarrow> bool" where
  "metadata_ok env s =
     (validVersion (m_version s) \<and> 0 < compareVersion env (m_version s) (appVersion env) \<and>
      installer_metadata_ok env (m_version s) (m_downloadUrl s) (m_expectedSha256 s) (m_expectedSize s))"

definition verified :: "'e update_env_scheme \<Rightarrow> UpdateController \<Rightarrow> bool" where
  "verified env s =
     (case disk s of
        None \<Rightarrow> False
      | Some content \<Rightarrow> sha256_hex env content = m_expectedSha256 s \<and>
          int (length content) = m_expectedSize s)"

definition download_ok :: "download \<Rightarrow> bool" where
  "download_ok d =
     ((d_writeError d \<or> d_written d = d_digest d) \<and>
      (d_aborted d \<or> d_bytesWritten d = int (length (d_digest d))))"

definition update_ok :: "'e update_env_scheme \<Rightarrow> UpdateController \<Rightarrow> bool" where
  "update_ok env s =
     ((m_expectedSha256 s = '''' \<or> metadata_ok env s) \<and>
      (\<forall>i d. active i s = Some d \<longrightarrow> download_ok d \<and> metadata_ok env s) \<and>
      (m_updateState s = ReadyToInstall \<longrightarrow> verified env s \<and> metadata_ok env s))"

section \<open>What each helper changes\<close>

lemma record_call_fields [simp]:
  "m_version (record_call c s) = m_version s" "m_downloadUrl (record_call c s) = m_downloadUrl s"
  "m_expectedSha256 (record_call c s) = m_expectedSha256 s" "m_expectedSize (record_call c s) = m_expectedSize s"
  "m_releasePageUrl (record_call c s) = m_releasePageUrl s" "m_updateState (record_call c s) = m_updateState s"
  "m_updateCheckRunning (record_call c s) = m_updateCheckRunning s" "downloads (record_call c s) = downloads s"
  "disk (record_call c s) = disk s" "did (record_call c s) = did s @ [c]"
  by (simp_all add: record_call_def)

lemma setUpdateState_fields [simp]:
  "m_version (setUpdateState st s) = m_version s" "m_downloadUrl (setUpdateState st s) = m_downloadUrl s"
  "m_expectedSha256 (setUpdateState st s) = m_expectedSha256 s"
  "m_expectedSize (setUpdateState st s) = m_expectedSize s"
  "m_releasePageUrl (setUpdateState st s) = m_releasePageUrl s" "m_updateState (setUpdateState st s) = st"
  "m_updateCheckRunning (setUpdateState st s) = m_updateCheckRunning s"
  "downloads (setUpdateState st s) = downloads s" "disk (setUpdateState st s) = disk s"
  "did (setUpdateState st s) = did s @ (if m_updateState s = st then [] else [Emit updateStateChanged])"
  by (simp_all add: setUpdateState_def)

lemma setUpdateCheckRunning_fields [simp]:
  "m_version (setUpdateCheckRunning b s) = m_version s"
  "m_downloadUrl (setUpdateCheckRunning b s) = m_downloadUrl s"
  "m_expectedSha256 (setUpdateCheckRunning b s) = m_expectedSha256 s"
  "m_expectedSize (setUpdateCheckRunning b s) = m_expectedSize s"
  "m_releasePageUrl (setUpdateCheckRunning b s) = m_releasePageUrl s"
  "m_updateState (setUpdateCheckRunning b s) = m_updateState s"
  "m_updateCheckRunning (setUpdateCheckRunning b s) = b"
  "downloads (setUpdateCheckRunning b s) = downloads s" "disk (setUpdateCheckRunning b s) = disk s"
  "did (setUpdateCheckRunning b s) =
     did s @ (if m_updateCheckRunning s = b then [] else [Emit updateCheckRunningChanged])"
  by (simp_all add: setUpdateCheckRunning_def)

lemma accept_metadata_fields [simp]:
  "m_version (accept_metadata env data v p u h n s) = v"
  "m_downloadUrl (accept_metadata env data v p u h n s) = u"
  "m_expectedSha256 (accept_metadata env data v p u h n s) = h"
  "m_expectedSize (accept_metadata env data v p u h n s) = n"
  "m_releasePageUrl (accept_metadata env data v p u h n s) = url_toString env p"
  "m_updateState (accept_metadata env data v p u h n s) = m_updateState s"
  "m_updateCheckRunning (accept_metadata env data v p u h n s) = m_updateCheckRunning s"
  "downloads (accept_metadata env data v p u h n s) = downloads s"
  "disk (accept_metadata env data v p u h n s) = disk s"
  "did (accept_metadata env data v p u h n s) = did s"
  by (simp_all add: accept_metadata_def)

text \<open>The invariant only reads these fields.\<close>

definition same_update :: "UpdateController \<Rightarrow> UpdateController \<Rightarrow> bool" where
  "same_update s s' =
     (m_version s' = m_version s \<and> m_downloadUrl s' = m_downloadUrl s \<and>
      m_expectedSha256 s' = m_expectedSha256 s \<and> m_expectedSize s' = m_expectedSize s \<and>
      downloads s' = downloads s \<and> disk s' = disk s)"

lemma same_update_facts:
  assumes "same_update s s'"
  shows "metadata_ok env s' = metadata_ok env s" "verified env s' = verified env s" "active i s' = active i s"
  using assms by (simp_all add: same_update_def metadata_ok_def verified_def active_def split: option.split)

lemma update_ok_same:
  assumes "update_ok env s" "same_update s s'"
    and "m_updateState s' = m_updateState s \<or> m_updateState s' \<noteq> ReadyToInstall"
  shows "update_ok env s'"
  using assms(1,3) same_update_facts [OF assms(2)] assms(2) [unfolded same_update_def]
  by (auto simp: update_ok_def)

section \<open>The invariant is kept\<close>

lemma drain_ok: "download_ok d \<Longrightarrow> download_ok (drain n chunks d)"
proof (induction n chunks d rule: drain.induct)
  case (2 n chunk w rest d)
  then show ?case by (auto simp: Let_def save_write_def download_ok_def)
qed simp

text \<open>A drain that aborts has read too much or has failed to write.\<close>

lemma drain_aborted:
  "\<not> d_aborted d \<Longrightarrow> d_aborted (drain n chunks d) \<Longrightarrow>
   d_bytesWritten (drain n chunks d) > n \<or> d_writeError (drain n chunks d)"
proof (induction n chunks d rule: drain.induct)
  case (2 n chunk w rest d)
  then show ?case by (auto simp: Let_def save_write_def split: if_splits)
qed simp

lemma new_download_ok: "download_ok new_download"
  by (simp add: download_ok_def new_download_def)

lemma update_ok_new: "update_ok env (new_controller content)"
  by (simp add: update_ok_def new_controller_def active_def)

lemma update_ok_check: "update_ok env s \<Longrightarrow> update_ok env (checkForUpdates env s)"
  by (rule update_ok_same [of env s]) (simp_all add: checkForUpdates_def same_update_def)

lemma update_ok_metadata:
  assumes "update_ok env s" "desktop (plat env)"
  shows "update_ok env (handle_metadata env data s)"
proof -
  let ?v = "json_toString (obj_value data ''updateVersion'')"
  let ?p = "json_toString (obj_value data ''releasePageUrl'')"
  let ?u = "json_toString (obj_value data ''downloadUrl'')"
  let ?h = "toLower (json_toString (obj_value data ''sha256''))"
  let ?n = "qint64_cast env (json_toDouble (obj_value data ''downloadSize''))"
  let ?s' = "handle_metadata env data s"
  show ?thesis
  proof (cases "json_toBool (obj_value data ''updateAvailable'') \<and> validVersion ?v \<and>
      0 < compareVersion env ?v (appVersion env) \<and> release_page_ok env ?v ?p \<and>
      installer_metadata_ok env ?v ?u ?h ?n")
    case True
    then have s': "?s' = emit_signal updateFound (setUpdateState Idle (accept_metadata env data ?v ?p ?u ?h ?n s))"
      by (simp add: handle_metadata_def Let_def not_le)
    have "metadata_ok env ?s'" using True by (simp add: s' metadata_ok_def)
    moreover have "active i ?s' = active i s" for i by (simp add: s' active_def)
    moreover have "m_updateState ?s' = Idle" by (simp add: s')
    ultimately show ?thesis using assms(1) by (auto simp: update_ok_def)
  next
    case False
    then have "same_update s ?s' \<and> (m_updateState ?s' = m_updateState s \<or> m_updateState ?s' = Idle)"
      using assms(2) by (simp add: handle_metadata_def Let_def same_update_def not_le)
    then show ?thesis using assms(1) by (auto intro: update_ok_same)
  qed
qed

lemma update_ok_checked:
  assumes "update_ok env s" "desktop (plat env)"
  shows "update_ok env (updateCheckFinished env r s)"
proof -
  let ?s1 = "setUpdateCheckRunning False s"
  have 1: "update_ok env ?s1"
    using assms(1) by (rule update_ok_same) (simp_all add: same_update_def)
  then have "update_ok env (emit_signal updateCheckFailed ?s1)"
    by (rule update_ok_same) (simp_all add: same_update_def)
  with 1 show ?thesis
    by (simp add: updateCheckFinished_def Let_def update_ok_metadata assms(2) split: option.split)
qed

lemma active_append:
  "active i (s\<lparr>downloads := downloads s @ [Some d]\<rparr>) =
     (if i = length (downloads s) then Some d else active i s)"
  by (simp add: active_def nth_append)

lemma active_update:
  "active j (s\<lparr>downloads := (downloads s)[i := x]\<rparr>) =
     (if j = i \<and> i < length (downloads s) then x else active j s)"
  by (simp add: active_def nth_list_update)

lemma active_record [simp]: "active i (record_call c s) = active i s"
  by (simp add: active_def)

lemma active_state [simp]: "active i (setUpdateState st s) = active i s"
  by (simp add: active_def)

lemma update_ok_download:
  assumes "update_ok env s"
  shows "update_ok env (downloadInstaller env opened s)"
proof -
  have err: "update_ok env (setUpdateState DownloadError s)"
    using assms by (rule update_ok_same) (simp_all add: same_update_def)
  let ?s1 = "setUpdateState Downloading s"
  let ?s2 = "record_call (GetInstaller (composeDownloadUrl env s))
    (?s1\<lparr>downloads := downloads s @ [Some new_download]\<rparr>)"
  have "update_ok env ?s2" if "length (m_expectedSha256 s) = 64"
  proof -
    have "metadata_ok env s" using assms that by (auto simp: update_ok_def)
    then have "metadata_ok env ?s2" by (simp add: metadata_ok_def)
    moreover have "active i ?s2 = (if i = length (downloads s) then Some new_download else active i s)" for i
      using active_append [of i ?s1 new_download] by simp
    ultimately show ?thesis using assms by (auto simp: update_ok_def new_download_ok)
  qed
  with err assms show ?thesis by (simp add: downloadInstaller_def Let_def)
qed

lemma openStorePage_same: "same_update s (openStorePage env s) \<and> m_updateState (openStorePage env s) = m_updateState s"
  by (simp add: openStorePage_def same_update_def Let_def split: platform.split)

lemma update_ok_started:
  assumes "update_ok env s"
  shows "update_ok env (startUpdate env opened s)"
proof -
  have "update_ok env (openStorePage env s)"
    using assms openStorePage_same [of s env] by (auto intro: update_ok_same)
  moreover have "update_ok env (record_call c s)" "update_ok env (setUpdateState DownloadError s)" for c
    by (rule update_ok_same [OF assms]; simp add: same_update_def)+
  ultimately show ?thesis
    by (simp add: startUpdate_def update_ok_download [OF assms] split: platform.split)
qed

lemma metadata_ok_downloads [simp]: "metadata_ok env (s\<lparr>downloads := ds\<rparr>) = metadata_ok env s"
  by (simp add: metadata_ok_def)

lemma verified_downloads [simp]: "verified env (s\<lparr>downloads := ds\<rparr>) = verified env s"
  by (simp add: verified_def split: option.split)

lemma update_ok_received:
  assumes "update_ok env s"
  shows "update_ok env (downloadReadyRead i chunks s)"
proof (cases "active i s")
  case None
  then show ?thesis using assms by (simp add: downloadReadyRead_def)
next
  case (Some d)
  then have "download_ok (drain (m_expectedSize s) chunks d)" "metadata_ok env s"
    using assms by (auto simp: update_ok_def intro: drain_ok)
  then show ?thesis using assms Some by (auto simp: downloadReadyRead_def update_ok_def active_update)
qed

lemma update_ok_removed:
  assumes "update_ok env s"
  shows "update_ok env (setUpdateState DownloadError (s\<lparr>downloads := (downloads s)[i := None]\<rparr>))"
  using assms by (auto simp: update_ok_def active_update metadata_ok_def)

text \<open>What a valid reply leaves on disk: the bytes that were hashed, all of them and no more.\<close>

lemma finished_content:
  assumes "commit_atomic env" "download_ok d0" "\<not> d_aborted d0"
    and "d_bytesWritten (drain n chunks d0) = n"
    and "commit_file env i (d_written (drain n chunks d0)) (d_writeError (drain n chunks d0)) = Some content"
  shows "content = d_digest (drain n chunks d0) \<and> int (length content) = n"
proof -
  let ?d = "drain n chunks d0"
  have c: "\<not> d_writeError ?d" "content = d_written ?d"
    using assms(1,5) unfolding commit_atomic_def by blast+
  then have "\<not> d_aborted ?d" using drain_aborted [OF assms(3), of n chunks] assms(4) by auto
  then show ?thesis using drain_ok [OF assms(2), of n chunks] c assms(4) by (simp add: download_ok_def)
qed

lemma update_ok_finished:
  assumes "update_ok env s" "commit_atomic env"
  shows "update_ok env (downloadFinished env i replyError status chunks s)"
proof (cases "active i s")
  case None
  then show ?thesis using assms by (simp add: downloadFinished_def)
next
  case (Some d0)
  then have d0: "download_ok d0" and m: "metadata_ok env s" using assms(1) by (auto simp: update_ok_def)
  let ?d = "drain (m_expectedSize s) chunks d0"
  let ?s1 = "s\<lparr>downloads := (downloads s)[i := None]\<rparr>"
  note err = update_ok_removed [OF assms(1), of i]
  show ?thesis
  proof (cases "\<not> (replyError \<or> d_aborted d0) \<and> status = 200 \<and> d_bytesWritten ?d = m_expectedSize s \<and>
      sha256_hex env (d_digest ?d) = m_expectedSha256 s")
    case valid: True
    show ?thesis
    proof (cases "commit_file env i (d_written ?d) (d_writeError ?d)")
      case None
      with valid err Some show ?thesis by (simp add: downloadFinished_def Let_def)
    next
      case content: (Some content)
      let ?s' = "setUpdateState ReadyToInstall (?s1\<lparr>disk := Some content\<rparr>)"
      have "content = d_digest ?d \<and> int (length content) = m_expectedSize s"
        using valid content by (intro finished_content [OF assms(2) d0]) auto
      then have "verified env ?s'" using valid by (auto simp: verified_def)
      moreover have "metadata_ok env ?s'" using m by (simp add: metadata_ok_def)
      moreover have "active j ?s' = Some d \<Longrightarrow> active j s = Some d" for j d
        by (cases "j = i") (auto simp: active_def split: if_splits)
      ultimately have "update_ok env ?s'" using assms(1) unfolding update_ok_def by blast
      with valid content Some show ?thesis by (simp add: downloadFinished_def Let_def)
    qed
  next
    case False
    then have "downloadFinished env i replyError status chunks s = setUpdateState DownloadError ?s1"
      using Some by (auto simp: downloadFinished_def Let_def)
    with err show ?thesis by simp
  qed
qed

lemma installUpdate_same:
  "same_update s (installUpdate env l s) \<and> m_updateState (installUpdate env l s) = m_updateState s"
  by (simp add: installUpdate_def runWindowsInstaller_def runLinuxInstaller_def runMacInstaller_def
      runDirectly_def same_update_def Let_def split: platform.split option.split)

lemma update_ok_installed: "update_ok env s \<Longrightarrow> update_ok env (installUpdate env l s)"
  using installUpdate_same [of s env l] by (auto intro: update_ok_same)

lemmas update_ok_handlers =
  update_ok_new update_ok_check update_ok_checked update_ok_started update_ok_received
  update_ok_finished update_ok_installed

lemma reachable_update_ok:
  assumes "update_reachable env s" "desktop (plat env)" "commit_atomic env"
  shows "update_ok env s"
  using assms(1) by induction (simp_all add: update_ok_handlers assms(2,3))

section \<open>Complete downloads\<close>

text \<open>Chunks that arrive whole: none is empty and each is written completely.\<close>

definition written_whole :: "(QByteArray \<times> int) list \<Rightarrow> bool" where
  "written_whole chunks = list_all (\<lambda>(chunk, n). chunk \<noteq> [] \<and> n = int (length chunk)) chunks"

definition received :: "(QByteArray \<times> int) list \<Rightarrow> QByteArray" where
  "received chunks = concat (map fst chunks)"

lemma drain_whole:
  assumes "written_whole chunks" "d_bytesWritten d + int (length (received chunks)) \<le> n"
  shows "drain n chunks d =
    d\<lparr>d_written := d_written d @ received chunks, d_digest := d_digest d @ received chunks,
      d_bytesWritten := d_bytesWritten d + int (length (received chunks))\<rparr>"
  using assms
proof (induction n chunks d rule: drain.induct)
  case (2 n chunk w rest d)
  then show ?case by (simp add: written_whole_def received_def Let_def save_write_def)
qed (simp add: received_def)

section \<open>What opens and what is announced\<close>

fun opened_urls :: "update_call list \<Rightarrow> QString list" where
  "opened_urls [] = []"
| "opened_urls (OpenUrl u # cs) = u # opened_urls cs"
| "opened_urls (_ # cs) = opened_urls cs"

definition trusted_page :: "'e update_env_scheme \<Rightarrow> QString \<Rightarrow> bool" where
  "trusted_page env url =
     (if isStoreUpdate (plat env)
      then url_scheme env url = ''https'' \<and> url_host env url = storeHost (plat env)
      else tunnelCoreReleasePage env url)"

definition announcement where
  "announcement s =
     (m_version s, m_releaseDate s, m_description s, m_tags s, m_newFeatures s, m_improvements s,
      m_bugFixes s, m_downloadUrl s, m_expectedSha256 s, m_expectedSize s, m_releasePageUrl s, m_mandatory s)"

lemma announcement_kept [simp]:
  "announcement (record_call c s) = announcement s"
  "announcement (setUpdateState st s) = announcement s"
  "announcement (setUpdateCheckRunning b s) = announcement s"
  by (simp_all add: announcement_def record_call_def setUpdateState_def setUpdateCheckRunning_def)

text \<open>What one handled reply does, apart from the signals of the state and of the running check.\<close>

definition check_result :: "'e update_env_scheme \<Rightarrow> UpdateController \<Rightarrow> UpdateController \<Rightarrow> update_signal \<Rightarrow> bool" where
  "check_result env s s' sig =
     (case sig of
        updateFound \<Rightarrow> m_updateState s' = Idle \<and> validVersion (m_version s') \<and>
          0 < compareVersion env (m_version s') (appVersion env) \<and>
          (desktop (plat env) \<longrightarrow> installer_metadata_ok env (m_version s') (m_downloadUrl s')
             (m_expectedSha256 s') (m_expectedSize s'))
      | updateNotFound \<Rightarrow> announcement s' = announcement s
      | updateCheckFailed \<Rightarrow> announcement s' = announcement s \<and> m_updateState s' = m_updateState s
      | _ \<Rightarrow> False)"

definition quiet :: "update_call list \<Rightarrow> bool" where
  "quiet cs = list_all (\<lambda>c. c = Emit updateStateChanged \<or> c = Emit updateCheckRunningChanged) cs"

lemma handle_metadata_result:
  "\<exists>pre sig. did (handle_metadata env data s) = did s @ pre @ [Emit sig] \<and> quiet pre \<and>
     check_result env s (handle_metadata env data s) sig \<and>
     m_updateCheckRunning (handle_metadata env data s) = m_updateCheckRunning s \<and>
     downloads (handle_metadata env data s) = downloads s"
  by (simp add: handle_metadata_def Let_def check_result_def quiet_def)

section \<open>Properties\<close>

text \<open>
  An instance of the parameters: a URL is its path on the release host, every digest is the
  same, and the body of a reply is not looked at.
\<close>

definition example_hash :: QString where
  "example_hash = replicate 64 (CHR ''a'')"

definition example_page :: QString where
  "example_page = ''/VnextDevelopment/tunnelcore-vpn/releases/tag/v2.0.0''"

definition example_url :: QString where
  "example_url = ''/VnextDevelopment/tunnelcore-vpn/releases/download/v2.0.0/TunnelCoreVPN_2.0.0_linux_x64.run''"

definition example_data :: QJsonObject where
  "example_data =
     [(''updateAvailable'', JBool True), (''updateVersion'', JString ''2.0.0''),
      (''releasePageUrl'', JString example_page), (''downloadUrl'', JString example_url),
      (''sha256'', JString example_hash), (''downloadSize'', JDouble 3)]"

definition example_update_env :: "platform \<Rightarrow> QString \<Rightarrow> update_env" where
  "example_update_env p h =
     \<lparr>plat = p, appVersion = ''1.0.0'', tempLocation = ''/tmp'', iosStoreFallback = '''',
      androidPackage = ''app'', macInstallerScript = '''', json_document = (\<lambda>b. Some example_data),
      compareVersion = (\<lambda>v w. if v = w then 0 else 1), url_scheme = (\<lambda>u. ''https''), url_host = (\<lambda>u. h),
      url_path = (\<lambda>u. u), url_query = (\<lambda>u. ''''), url_fragment = (\<lambda>u. ''''), url_isEmpty = (\<lambda>u. u = ''''),
      url_toString = (\<lambda>u. u), double_overflow = (\<lambda>x. 0), sha256_hex = (\<lambda>b. example_hash),
      commit_file = (\<lambda>i written failed. if failed then None else Some written)\<rparr>"

definition linux_env :: update_env where
  "linux_env = example_update_env Linux ''github.com''"

definition example_reply :: reply where
  "example_reply = \<lparr>reply_error = False, reply_status = 200, reply_body = ''{}''\<rparr>"

definition example_found :: "UpdateController \<Rightarrow> UpdateController" where
  "example_found s = updateCheckFinished linux_env example_reply (checkForUpdates linux_env s)"

definition example_ready :: UpdateController where
  "example_ready = downloadFinished linux_env 0 False 200 [(''abc'', 3)]
     (startUpdate linux_env True (example_found (new_controller None)))"

lemma linux_env_fields [simp]:
  "plat linux_env = Linux" "appVersion linux_env = ''1.0.0''" "json_document linux_env b = Some example_data"
  "compareVersion linux_env ''2.0.0'' ''1.0.0'' = 1" "url_scheme linux_env u = ''https''"
  "url_host linux_env u = ''github.com''" "url_path linux_env u = u" "url_query linux_env u = ''''"
  "url_fragment linux_env u = ''''" "url_isEmpty linux_env u = (u = '''')" "sha256_hex linux_env b = example_hash"
  "commit_file linux_env i written failed = (if failed then None else Some written)"
  by (simp_all add: linux_env_def example_update_env_def)

lemma example_hash_facts [simp]: "length example_hash = 64" "toLower example_hash = example_hash" "hashPattern example_hash"
  by (simp_all add: example_hash_def) code_simp+

lemma example_checks [simp]:
  "validVersion ''2.0.0''" "release_page_ok linux_env ''2.0.0'' example_page"
  "installer_metadata_ok linux_env ''2.0.0'' example_url example_hash 3" "example_url \<noteq> ''''"
  by (code_simp, simp_all add: release_page_ok_def tunnelCoreReleasePage_def installer_metadata_ok_def
      example_page_def example_url_def)

lemma example_data_values [simp]:
  "obj_value example_data ''updateAvailable'' = JBool True"
  "obj_value example_data ''updateVersion'' = JString ''2.0.0''"
  "obj_value example_data ''releasePageUrl'' = JString example_page"
  "obj_value example_data ''downloadUrl'' = JString example_url"
  "obj_value example_data ''sha256'' = JString example_hash"
  "obj_value example_data ''downloadSize'' = JDouble 3"
  by (simp_all add: example_data_def obj_value_def)

lemma example_found_fields [simp]:
  "m_updateState (example_found s) = Idle" "m_expectedSha256 (example_found s) = example_hash"
  "m_expectedSize (example_found s) = 3" "m_downloadUrl (example_found s) = example_url"
  "downloads (example_found s) = downloads s" "disk (example_found s) = disk s"
proof -
  have "qint64_cast linux_env 3 = 3" by (simp add: qint64_cast_def cast_signed_def)
  then have "example_found s = (let s1 = setUpdateCheckRunning False (checkForUpdates linux_env s) in
      emit_signal updateFound (setUpdateState Idle
        (accept_metadata linux_env example_data ''2.0.0'' example_page example_url example_hash 3 s1)))"
    by (simp add: example_found_def updateCheckFinished_def example_reply_def handle_metadata_def)
  then show "m_updateState (example_found s) = Idle" "m_expectedSha256 (example_found s) = example_hash"
    "m_expectedSize (example_found s) = 3" "m_downloadUrl (example_found s) = example_url"
    "downloads (example_found s) = downloads s" "disk (example_found s) = disk s"
    by (simp_all add: Let_def checkForUpdates_def)
qed

lemma example_started [simp]:
  "m_updateState (startUpdate linux_env True (example_found s)) = Downloading"
  "m_expectedSha256 (startUpdate linux_env True (example_found s)) = example_hash"
  "m_expectedSize (startUpdate linux_env True (example_found s)) = 3"
  "downloads (startUpdate linux_env True (example_found s)) = downloads s @ [Some new_download]"
  by (simp_all add: startUpdate_def downloadInstaller_def composeDownloadUrl_def)

lemma example_ready_state: "m_updateState example_ready = ReadyToInstall" "disk example_ready = Some ''abc''"
  by (simp_all add: example_ready_def downloadFinished_def active_def new_controller_def new_download_def
      save_write_def Let_def)

lemma example_atomic: "commit_atomic linux_env"
  by (simp add: commit_atomic_def linux_env_def example_update_env_def)

lemma example_found_reachable:
  assumes "update_reachable linux_env s"
  shows "update_reachable linux_env (example_found s)"
  unfolding example_found_def
  by (rule update_reachable.checked [OF update_reachable.check [OF assms]])
    (simp add: checkForUpdates_def)

lemma example_ready_reachable: "update_reachable linux_env example_ready"
  unfolding example_ready_def
  by (intro update_reachable.finished update_reachable.started example_found_reachable update_reachable.start)

text \<open>
  C3: no installer is started that was not verified. In every state the controller can reach,
  whatever the order of checks, downloads and replies, pressing install does something only
  if the file at the installer path has the SHA-256 digest and the size that were announced,
  for a version newer than the running one and an asset of that version on the release page
  of the project. No other program changes the file in the meantime.
\<close>

theorem installer_verified:
  assumes "update_reachable env s" "commit_atomic env" "did (installUpdate env l s) \<noteq> did s"
  shows "\<exists>content. disk s = Some content \<and> sha256_hex env content = m_expectedSha256 s \<and>
    int (length content) = m_expectedSize s \<and> validVersion (m_version s) \<and>
    0 < compareVersion env (m_version s) (appVersion env) \<and>
    installer_metadata_ok env (m_version s) (m_downloadUrl s) (m_expectedSha256 s) (m_expectedSize s)"
proof -
  have "desktop (plat env)" "m_updateState s = ReadyToInstall"
    using assms(3) by (auto simp: installUpdate_def split: if_splits)
  with reachable_update_ok [OF assms(1) _ assms(2)] have "verified env s" "metadata_ok env s"
    by (simp_all add: update_ok_def)
  then show ?thesis by (auto simp: verified_def metadata_ok_def split: option.splits)
qed

theorem installer_verified_witness:
  "\<exists>content. disk example_ready = Some content \<and>
    sha256_hex linux_env content = m_expectedSha256 example_ready \<and>
    int (length content) = m_expectedSize example_ready \<and> validVersion (m_version example_ready) \<and>
    0 < compareVersion linux_env (m_version example_ready) (appVersion linux_env) \<and>
    installer_metadata_ok linux_env (m_version example_ready) (m_downloadUrl example_ready)
      (m_expectedSha256 example_ready) (m_expectedSize example_ready)"
  by (rule installer_verified [OF example_ready_reachable example_atomic,
        of "\<lparr>extractDir = None, scriptOpens = True, processStarts = True\<rparr>"])
    (simp add: installUpdate_def example_ready_state runLinuxInstaller_def runDirectly_def)

text \<open>
  The outcome of a check. Handling a reply ends the running check and emits exactly one of
  the three outcome signals, as its last call. Unless an update is found, what was announced
  before is kept; if one is found, its version is well formed and newer than the running one
  and, on the desktop, its installer is an asset of the project with a digest and a sane size.
\<close>

theorem check_outcome:
  assumes "s' = updateCheckFinished env r s"
  shows "\<not> m_updateCheckRunning s' \<and> downloads s' = downloads s \<and>
    (\<exists>pre sig. did s' = did s @ pre @ [Emit sig] \<and> quiet pre \<and> check_result env s s' sig)"
proof -
  let ?s1 = "setUpdateCheckRunning False s"
  let ?pre = "if m_updateCheckRunning s then [Emit updateCheckRunningChanged] else []"
  have q: "quiet (?pre @ cs) = quiet cs" for cs by (simp add: quiet_def)
  have res: "check_result env ?s1 t sig = check_result env s t sig" for t sig
    by (simp add: check_result_def split: update_signal.split)
  have d1: "did ?s1 = did s @ ?pre" by simp
  have failed: ?thesis if "s' = emit_signal updateCheckFailed ?s1"
    using that d1 q [of "[]"] by (auto simp: check_result_def quiet_def)
  have handled: ?thesis if h: "s' = handle_metadata env data ?s1" for data
  proof -
    obtain cs sig where "did s' = did ?s1 @ cs @ [Emit sig]" "quiet cs" "check_result env ?s1 s' sig"
        "\<not> m_updateCheckRunning s'" "downloads s' = downloads s"
      using handle_metadata_result [of env data ?s1] unfolding h by auto
    then show ?thesis unfolding d1 res append_assoc using q [of cs] by (metis append_assoc)
  qed
  from assms failed handled show ?thesis
    by (auto simp: updateCheckFinished_def Let_def split: if_splits option.splits)
qed

theorem check_outcome_witness:
  "check_result linux_env (new_controller None)
     (updateCheckFinished linux_env example_reply (new_controller None)) updateFound"
proof -
  let ?s' = "updateCheckFinished linux_env example_reply (new_controller None)"
  obtain pre sig where r: "did ?s' = did (new_controller None) @ pre @ [Emit sig]"
      "check_result linux_env (new_controller None) ?s' sig"
    using check_outcome [OF refl, of linux_env example_reply "new_controller None"] by blast
  have "last (did ?s') = Emit updateFound"
    by (simp add: updateCheckFinished_def example_reply_def handle_metadata_def qint64_cast_def cast_signed_def Let_def)
  with r show ?thesis by simp
qed

text \<open>
  C19: a complete download becomes ready to install. If the reply delivers, in any division
  into chunks and over any two calls, bytes of the announced size and digest, all writes are
  complete and the file can be committed, then the state is ready to install and the file
  holds exactly these bytes.
\<close>

theorem download_completes:
  assumes "desktop (plat env)" "m_updateState s \<noteq> Downloading" "\<not> url_isEmpty env (m_downloadUrl s)"
    and "length (m_expectedSha256 s) = 64" "1 \<le> m_expectedSize s"
    and "written_whole front" "written_whole later"
    and "content = received front @ received later" "int (length content) = m_expectedSize s"
    and "sha256_hex env content = m_expectedSha256 s"
    and "i = length (downloads s)" "commit_file env i content False = Some content"
    and "s' = downloadFinished env i False 200 later (downloadReadyRead i front (startUpdate env True s))"
  shows "m_updateState s' = ReadyToInstall \<and> disk s' = Some content"
proof -
  define t where "t = startUpdate env True s"
  have "t = record_call (GetInstaller (m_downloadUrl s))
      ((setUpdateState Downloading s)\<lparr>downloads := downloads s @ [Some new_download]\<rparr>)"
    using assms(1-5) unfolding t_def
    by (cases "plat env") (simp_all add: startUpdate_def downloadInstaller_def composeDownloadUrl_def)
  then have t: "active i t = Some new_download" "m_expectedSize t = m_expectedSize s"
      "m_expectedSha256 t = m_expectedSha256 s" "i < length (downloads t)"
    using assms(11) by (simp_all add: active_def)
  define d where "d = drain (m_expectedSize s) front new_download"
  have d: "d = new_download\<lparr>d_written := received front, d_digest := received front,
      d_bytesWritten := int (length (received front))\<rparr>"
    using drain_whole [of front new_download "m_expectedSize s"] assms(6,8,9)
    by (simp add: d_def new_download_def)
  define u where "u = downloadReadyRead i front t"
  have u: "u = t\<lparr>downloads := (downloads t)[i := Some d]\<rparr>"
    using t by (simp add: u_def downloadReadyRead_def d_def)
  then have a: "active i u = Some d" "m_expectedSize u = m_expectedSize s" "m_expectedSha256 u = m_expectedSha256 s"
    using t by (simp_all add: active_def)
  have e: "drain (m_expectedSize s) later d = d\<lparr>d_written := content, d_digest := content,
      d_bytesWritten := int (length content)\<rparr>"
    using drain_whole [of later d "m_expectedSize s"] assms(7-9) by (simp add: d new_download_def)
  have "s' = downloadFinished env i False 200 later u" using assms(13) by (simp add: u_def t_def)
  then show ?thesis
    using assms(9,10,12) by (simp add: downloadFinished_def a e Let_def) (simp add: d new_download_def)
qed

theorem download_completes_witness:
  "m_updateState (downloadFinished linux_env 0 False 200 [(''bc'', 2)] (downloadReadyRead 0 [(''a'', 1)]
     (startUpdate linux_env True (example_found (new_controller None))))) = ReadyToInstall"
  by (rule conjunct1 [OF download_completes [where front = "[(''a'', 1)]" and later = "[(''bc'', 2)]"
        and s = "example_found (new_controller None)" and content = "''abc''"]])
    (simp_all add: written_whole_def received_def new_controller_def)


text \<open>
  Starting an update opens only trusted pages. A store build opens only pages of its
  store over https, and the Android package opens only release pages of the project,
  whatever page was announced. The address of the Play store listing is assumed to parse.
\<close>

theorem opened_pages_trusted:
  assumes "url_scheme env (play_url env) = ''https''" "url_host env (play_url env) = ''play.google.com''"
  shows "\<exists>new. did (startUpdate env opened s) = did s @ new \<and> list_all (trusted_page env) (opened_urls new)"
  using assms
  by (cases "plat env")
    (auto simp: startUpdate_def openStorePage_def downloadInstaller_def trusted_page_def storeHost_def Let_def)

theorem opened_pages_trusted_witness:
  "opened_urls (did (startUpdate (example_update_env (Android True) ''play.google.com'') True (new_controller None)))
     = [''''] \<and>
   (\<exists>new. did (startUpdate (example_update_env (Android True) ''play.google.com'') True (new_controller None))
      = did (new_controller None) @ new \<and>
    list_all (trusted_page (example_update_env (Android True) ''play.google.com'')) (opened_urls new))"
  by (intro conjI opened_pages_trusted) (simp_all add: example_update_env_def startUpdate_def openStorePage_def
      storeHost_def new_controller_def record_call_def Let_def)

end
