(* ===== verification/Interface_Config.thy ===== *)
theory Interface_Config
  imports Ip_Address Qt_Values "HOL-Library.Multiset"
begin

text \<open>
  \<^verbatim>\<open>client/daemon/interfaceconfig.cpp\<close> and the parsing part of \<^verbatim>\<open>client/daemon/daemon.cpp\<close>: the
  configuration of a tunnel, how the daemon reads it from a JSON request, and how it is
  written as JSON and as a WireGuard file. Parsers and printers of addresses, the meta object
  of the enumeration, \<open>std::sort\<close> and the build platform are the parameters. A string whose
  \<open>isNull\<close> is tested is an option; a null string compares equal to an empty one.
\<close>

section \<open>The configuration\<close>

datatype HopType = SingleHop | MultiHopEntry | MultiHopExit

record InterfaceConfig =
  m_hopType :: HopType
  m_privateKey :: QString
  m_deviceIpv4Address :: "QString option"
  m_deviceIpv6Address :: "QString option"
  m_serverIpv4Gateway :: QString
  m_serverIpv6Gateway :: QString
  m_serverPublicKey :: QString
  m_serverIpv4AddrIn :: "QString option"
  m_serverPskKey :: QString
  m_serverIpv6AddrIn :: "QString option"
  m_primaryDnsServer :: QString
  m_secondaryDnsServer :: QString
  m_serverPort :: int
  m_deviceMTU :: int
  m_persistentKeepalive :: QString
  m_allowedIPAddressRanges :: "IPAddress list"
  m_excludedAddresses :: "QString list"
  m_vpnDisabledApps :: "QString list"
  m_allowedDnsServers :: "QString list"
  m_killSwitchEnabled :: bool
  m_junkPacketCount :: QString
  m_junkPacketMinSize :: QString
  m_junkPacketMaxSize :: QString
  m_initPacketJunkSize :: QString
  m_responsePacketJunkSize :: QString
  m_cookieReplyPacketJunkSize :: QString
  m_transportPacketJunkSize :: QString
  m_initPacketMagicHeader :: QString
  m_responsePacketMagicHeader :: QString
  m_underloadPacketMagicHeader :: QString
  m_transportPacketMagicHeader :: QString
  m_specialJunk :: "(QString \<times> QString) list"
  m_headerProtectionKey :: QString
  m_contentPaddingAddition :: QString
  m_rekeyAfterTime :: QString
  m_rekeyTimeout :: QString
  m_rejectAfterTime :: QString
  m_keepaliveTimeout :: QString
  m_maxHandshakeAttempts :: QString
  m_randomTrailers :: QString
  m_disableCookies :: QString

text \<open>
  A new configuration. The hop type and the kill switch have no initializer; a successful
  parse sets both.
\<close>

definition InterfaceConfig_new :: "HopType \<Rightarrow> bool \<Rightarrow> InterfaceConfig" where
  "InterfaceConfig_new hop kill =
     \<lparr>m_hopType = hop, m_privateKey = '''', m_deviceIpv4Address = None, m_deviceIpv6Address = None,
      m_serverIpv4Gateway = '''', m_serverIpv6Gateway = '''', m_serverPublicKey = '''',
      m_serverIpv4AddrIn = None, m_serverPskKey = '''', m_serverIpv6AddrIn = None,
      m_primaryDnsServer = '''', m_secondaryDnsServer = '''', m_serverPort = 0, m_deviceMTU = 1420,
      m_persistentKeepalive = '''', m_allowedIPAddressRanges = [], m_excludedAddresses = [],
      m_vpnDisabledApps = [], m_allowedDnsServers = [], m_killSwitchEnabled = kill,
      m_junkPacketCount = '''', m_junkPacketMinSize = '''', m_junkPacketMaxSize = '''',
      m_initPacketJunkSize = '''', m_responsePacketJunkSize = '''', m_cookieReplyPacketJunkSize = '''',
      m_transportPacketJunkSize = '''', m_initPacketMagicHeader = '''', m_responsePacketMagicHeader = '''',
      m_underloadPacketMagicHeader = '''', m_transportPacketMagicHeader = '''', m_specialJunk = [],
      m_headerProtectionKey = '''', m_contentPaddingAddition = '''', m_rekeyAfterTime = '''',
      m_rekeyTimeout = '''', m_rejectAfterTime = '''', m_keepaliveTimeout = '''',
      m_maxHandshakeAttempts = '''', m_randomTrailers = '''', m_disableCookies = ''''\<rparr>"

record config_env =
  os_windows :: bool
  parseHost :: "QString \<Rightarrow> QHostAddress"
  parseSubnet :: "QString \<Rightarrow> QHostAddress \<times> int"
  hostToString :: "QHostAddress \<Rightarrow> QString"
  hopTypeKey :: "QString \<Rightarrow> HopType option"
  hopTypeName :: "HopType \<Rightarrow> QString"
  empty_is_null :: bool
  int_overflow :: "rat \<Rightarrow> int"
  std_sort :: "IPAddress list \<Rightarrow> IPAddress list"

text \<open>\<open>std::sort\<close> by decreasing prefix length; the order of equal elements is not specified.\<close>

definition sorts_ranges :: "'e config_env_scheme \<Rightarrow> bool" where
  "sorts_ranges env =
     (\<forall>xs. mset (std_sort env xs) = mset xs \<and>
        sorted_wrt (\<lambda>a b. m_prefixLength b \<le> m_prefixLength a) (std_sort env xs))"

definition IPAddress_of :: "'e config_env_scheme \<Rightarrow> QString \<Rightarrow> IPAddress" where
  "IPAddress_of env s = IPAddress_of_string (parseSubnet env) (parseHost env) s"

definition IPAddress_toString :: "'e config_env_scheme \<Rightarrow> IPAddress \<Rightarrow> QString" where
  "IPAddress_toString env ip = hostToString env (m_address ip) @ ''/'' @ int_number (m_prefixLength ip)"

section \<open>Reading a request\<close>

text \<open>\<open>toString\<close> of a value that is not a string is null; whether it is for an empty string is up to Qt.\<close>

fun json_nullable :: "'e config_env_scheme \<Rightarrow> QJsonValue \<Rightarrow> QString option" where
  "json_nullable env (JString s) = (if s = '''' \<and> empty_is_null env then None else Some s)"
| "json_nullable env _ = None"

definition string_toInt :: "QString \<Rightarrow> int" where
  "string_toInt s = (case toInt s of None \<Rightarrow> 0 | Some i \<Rightarrow> i)"

fun append_strings :: "QJsonValue list \<Rightarrow> QString list \<Rightarrow> QString list option" where
  "append_strings [] acc = Some acc"
| "append_strings (v # vs) acc = (if \<not> isString v then None else append_strings vs (acc @ [json_toString v]))"

definition parseStringList :: "QJsonObject \<Rightarrow> QString \<Rightarrow> QString list \<Rightarrow> QString list option" where
  "parseStringList obj name acc =
     (if obj_contains obj name then
        if \<not> isArray (obj_value obj name) then None
        else append_strings (json_toArray (obj_value obj name)) acc
      else Some acc)"

fun append_ranges ::
  "'e config_env_scheme \<Rightarrow> QJsonValue list \<Rightarrow> IPAddress list \<Rightarrow> IPAddress list option" where
  "append_ranges env [] acc = Some acc"
| "append_ranges env (v # vs) acc =
     (if \<not> isObject v then None
      else
        let ipObj = json_toObject v;
            address = obj_value ipObj ''address'';
            rng = obj_value ipObj ''range''
        in if \<not> isString address then None
           else if \<not> isDouble rng then None
           else if \<not> isBool (obj_value ipObj ''isIpv6'') then None
           else append_ranges env vs
                  (acc @ [\<lparr>m_address = parseHost env (json_toString address), m_prefixLength = json_toInt 0 rng\<rparr>]))"

definition parse_mtu :: "'e config_env_scheme \<Rightarrow> QJsonObject \<Rightarrow> int" where
  "parse_mtu env obj =
     (let mtu = string_toInt (json_toString (obj_value obj ''deviceMTU'')) in
      if \<not> obj_contains obj ''deviceMTU'' \<or> mtu = 0 then 1420
      else if os_windows env \<and> mtu < 1280 then 1280 else mtu)"

definition parse_dns :: "QJsonObject \<Rightarrow> QString \<Rightarrow> QString option" where
  "parse_dns obj name =
     (if \<not> obj_contains obj name then Some ''''
      else if \<not> isString (obj_value obj name) then None
      else Some (json_toString (obj_value obj name)))"

definition parse_hop :: "'e config_env_scheme \<Rightarrow> QJsonObject \<Rightarrow> HopType option" where
  "parse_hop env obj =
     (if \<not> obj_contains obj ''hopType'' then Some SingleHop
      else if \<not> isString (obj_value obj ''hopType'') then None
      else hopTypeKey env (json_toString (obj_value obj ''hopType'')))"

definition parse_ranges :: "'e config_env_scheme \<Rightarrow> QJsonObject \<Rightarrow> IPAddress list \<Rightarrow> IPAddress list option" where
  "parse_ranges env obj acc =
     (if \<not> obj_contains obj ''allowedIPAddressRanges'' then None
      else if \<not> isArray (obj_value obj ''allowedIPAddressRanges'') then None
      else map_option (std_sort env)
             (append_ranges env (json_toArray (obj_value obj ''allowedIPAddressRanges'')) acc))"

text \<open>The optional parameters of the obfuscated protocol: a value that is present is stored.\<close>

definition if_present ::
  "QJsonObject \<Rightarrow> QString \<Rightarrow> (QString \<Rightarrow> InterfaceConfig \<Rightarrow> InterfaceConfig) \<Rightarrow> InterfaceConfig \<Rightarrow> InterfaceConfig" where
  "if_present obj name upd c =
     (if obj_value obj name = JUndefined then c else upd (json_toString (obj_value obj name)) c)"

definition parse_awg :: "QJsonObject \<Rightarrow> InterfaceConfig \<Rightarrow> InterfaceConfig" where
  "parse_awg obj =
     if_present obj ''DisableCookies'' (\<lambda>v c. c\<lparr>m_disableCookies := v\<rparr>) \<circ>
     if_present obj ''RandomTrailers'' (\<lambda>v c. c\<lparr>m_randomTrailers := v\<rparr>) \<circ>
     if_present obj ''MaxHandshakeAttempts'' (\<lambda>v c. c\<lparr>m_maxHandshakeAttempts := v\<rparr>) \<circ>
     if_present obj ''KeepaliveTimeout'' (\<lambda>v c. c\<lparr>m_keepaliveTimeout := v\<rparr>) \<circ>
     if_present obj ''RejectAfterTime'' (\<lambda>v c. c\<lparr>m_rejectAfterTime := v\<rparr>) \<circ>
     if_present obj ''RekeyTimeout'' (\<lambda>v c. c\<lparr>m_rekeyTimeout := v\<rparr>) \<circ>
     if_present obj ''RekeyAfterTime'' (\<lambda>v c. c\<lparr>m_rekeyAfterTime := v\<rparr>) \<circ>
     if_present obj ''ContentPaddingAddition'' (\<lambda>v c. c\<lparr>m_contentPaddingAddition := v\<rparr>) \<circ>
     if_present obj ''HeaderProtectionKey'' (\<lambda>v c. c\<lparr>m_headerProtectionKey := v\<rparr>) \<circ>
     if_present obj ''I5'' (\<lambda>v c. c\<lparr>m_specialJunk := AList.update ''I5'' v (m_specialJunk c)\<rparr>) \<circ>
     if_present obj ''I4'' (\<lambda>v c. c\<lparr>m_specialJunk := AList.update ''I4'' v (m_specialJunk c)\<rparr>) \<circ>
     if_present obj ''I3'' (\<lambda>v c. c\<lparr>m_specialJunk := AList.update ''I3'' v (m_specialJunk c)\<rparr>) \<circ>
     if_present obj ''I2'' (\<lambda>v c. c\<lparr>m_specialJunk := AList.update ''I2'' v (m_specialJunk c)\<rparr>) \<circ>
     if_present obj ''I1'' (\<lambda>v c. c\<lparr>m_specialJunk := AList.update ''I1'' v (m_specialJunk c)\<rparr>) \<circ>
     if_present obj ''H4'' (\<lambda>v c. c\<lparr>m_transportPacketMagicHeader := v\<rparr>) \<circ>
     if_present obj ''H3'' (\<lambda>v c. c\<lparr>m_underloadPacketMagicHeader := v\<rparr>) \<circ>
     if_present obj ''H2'' (\<lambda>v c. c\<lparr>m_responsePacketMagicHeader := v\<rparr>) \<circ>
     if_present obj ''H1'' (\<lambda>v c. c\<lparr>m_initPacketMagicHeader := v\<rparr>) \<circ>
     if_present obj ''S4'' (\<lambda>v c. c\<lparr>m_transportPacketJunkSize := v\<rparr>) \<circ>
     if_present obj ''S3'' (\<lambda>v c. c\<lparr>m_cookieReplyPacketJunkSize := v\<rparr>) \<circ>
     if_present obj ''S2'' (\<lambda>v c. c\<lparr>m_responsePacketJunkSize := v\<rparr>) \<circ>
     if_present obj ''S1'' (\<lambda>v c. c\<lparr>m_initPacketJunkSize := v\<rparr>) \<circ>
     if_present obj ''Jmax'' (\<lambda>v c. c\<lparr>m_junkPacketMaxSize := v\<rparr>) \<circ>
     if_present obj ''Jmin'' (\<lambda>v c. c\<lparr>m_junkPacketMinSize := v\<rparr>) \<circ>
     if_present obj ''Jc'' (\<lambda>v c. c\<lparr>m_junkPacketCount := v\<rparr>)"

text \<open>\<open>GETVALUE\<close>: the key is present and has the type.\<close>

definition has_value :: "(QJsonValue \<Rightarrow> bool) \<Rightarrow> QJsonObject \<Rightarrow> QString \<Rightarrow> bool" where
  "has_value typ obj name = (obj_contains obj name \<and> typ (obj_value obj name))"

definition parseConfig ::
  "'e config_env_scheme \<Rightarrow> QJsonObject \<Rightarrow> InterfaceConfig \<Rightarrow> InterfaceConfig option" where
  "parseConfig env obj config =
     (if \<not> has_value isString obj ''privateKey'' then None
      else if \<not> has_value isString obj ''serverPublicKey'' then None
      else if \<not> has_value isDouble obj ''serverPort'' then None
      else
        let dev4 = json_nullable env (obj_value obj ''deviceIpv4Address'');
            dev6 = json_nullable env (obj_value obj ''deviceIpv6Address'');
            srv4 = json_nullable env (obj_value obj ''serverIpv4AddrIn'');
            srv6 = json_nullable env (obj_value obj ''serverIpv6AddrIn'')
        in if dev4 = None \<and> dev6 = None then None
           else if srv4 = None \<and> srv6 = None then None
           else
             Option.bind (parse_dns obj ''primaryDnsServer'') (\<lambda>dns1.
             Option.bind (parse_dns obj ''secondaryDnsServer'') (\<lambda>dns2.
             Option.bind (parse_hop env obj) (\<lambda>hop.
             Option.bind (parse_ranges env obj (m_allowedIPAddressRanges config)) (\<lambda>ranges.
             Option.bind (parseStringList obj ''excludedAddresses'' (m_excludedAddresses config)) (\<lambda>excluded.
             Option.bind (parseStringList obj ''vpnDisabledApps'' (m_vpnDisabledApps config)) (\<lambda>apps.
             Option.bind (parseStringList obj ''allowedDnsServers'' (m_allowedDnsServers config)) (\<lambda>allowedDns.
               Some (parse_awg obj (config\<lparr>
                 m_privateKey := json_toString (obj_value obj ''privateKey''),
                 m_serverPublicKey := json_toString (obj_value obj ''serverPublicKey''),
                 m_serverPort := cast_signed 32 (int_overflow env) (json_toDouble (obj_value obj ''serverPort'')),
                 m_serverPskKey := json_toString (obj_value obj ''serverPskKey''),
                 m_deviceMTU := parse_mtu env obj,
                 m_persistentKeepalive := json_toString (obj_value obj ''persistentKeepalive''),
                 m_deviceIpv4Address := dev4, m_deviceIpv6Address := dev6,
                 m_serverIpv4AddrIn := srv4, m_serverIpv6AddrIn := srv6,
                 m_serverIpv4Gateway := json_toString (obj_value obj ''serverIpv4Gateway''),
                 m_serverIpv6Gateway := json_toString (obj_value obj ''serverIpv6Gateway''),
                 m_primaryDnsServer := dns1, m_secondaryDnsServer := dns2, m_hopType := hop,
                 m_allowedIPAddressRanges := ranges, m_excludedAddresses := excluded,
                 m_vpnDisabledApps := apps, m_allowedDnsServers := allowedDns,
                 m_killSwitchEnabled :=
                   variant_toBool (VString (json_toString (obj_value obj ''killSwitchOption'')))\<rparr>))))))))))"

section \<open>Writing a configuration\<close>

definition range_json :: "'e config_env_scheme \<Rightarrow> IPAddress \<Rightarrow> QJsonValue" where
  "range_json env ip =
     JObject (obj_insert ''isIpv6'' (JBool (protocol (m_address ip) = IPv6Protocol))
       (obj_insert ''range'' (JDouble (of_int (m_prefixLength ip)))
       (obj_insert ''address'' (JString (hostToString env (m_address ip))) [])))"

definition text_of :: "QString option \<Rightarrow> QString" where
  "text_of s = (case s of None \<Rightarrow> '''' | Some t \<Rightarrow> t)"

definition resolves :: "InterfaceConfig \<Rightarrow> bool" where
  "resolves c = (m_hopType c = MultiHopExit \<or> m_hopType c = SingleHop)"

definition InterfaceConfig_toJson :: "'e config_env_scheme \<Rightarrow> InterfaceConfig \<Rightarrow> QJsonObject" where
  "InterfaceConfig_toJson env c =
     (let json1 =
        obj_insert ''deviceMTU'' (JDouble (of_int (m_deviceMTU c)))
        (obj_insert ''serverPort'' (JDouble (of_int (m_serverPort c)))
        (obj_insert ''serverIpv6AddrIn'' (JString (text_of (m_serverIpv6AddrIn c)))
        (obj_insert ''serverIpv4AddrIn'' (JString (text_of (m_serverIpv4AddrIn c)))
        (obj_insert ''serverPskKey'' (JString (m_serverPskKey c))
        (obj_insert ''serverPublicKey'' (JString (m_serverPublicKey c))
        (obj_insert ''deviceIpv6Address'' (JString (text_of (m_deviceIpv6Address c)))
        (obj_insert ''deviceIpv4Address'' (JString (text_of (m_deviceIpv4Address c)))
        (obj_insert ''privateKey'' (JString (m_privateKey c))
        (obj_insert ''hopType'' (JString (hopTypeName env (m_hopType c))) [])))))))));
      json2 = (if m_persistentKeepalive c \<noteq> ''''
               then obj_insert ''persistentKeepalive'' (JString (m_persistentKeepalive c)) json1 else json1);
      json3 = (if resolves c then
               obj_insert ''secondaryDnsServer'' (JString (m_secondaryDnsServer c))
               (obj_insert ''primaryDnsServer'' (JString (m_primaryDnsServer c))
               (obj_insert ''serverIpv6Gateway'' (JString (m_serverIpv6Gateway c))
               (obj_insert ''serverIpv4Gateway'' (JString (m_serverIpv4Gateway c)) json2)))
               else json2)
      in obj_insert ''vpnDisabledApps'' (JArray (map JString (m_vpnDisabledApps c)))
         (obj_insert ''allowedDnsServers'' (JArray (map JString (m_allowedDnsServers c)))
         (obj_insert ''excludedAddresses'' (JArray (map JString (m_excludedAddresses c)))
         (obj_insert ''allowedIPAddressRanges'' (JArray (map (range_json env) (m_allowedIPAddressRanges c)))
          json3))))"

abbreviation wg_newline :: char where
  "wg_newline \<equiv> CHR 0x0A"

definition wg_line :: "QString \<Rightarrow> QString \<Rightarrow> QString" where
  "wg_line key v = key @ '' = '' @ v @ [wg_newline]"

definition wg_optional :: "QString \<Rightarrow> QString \<Rightarrow> QString" where
  "wg_optional key v = (if v = '''' then '''' else wg_line key v)"

fun join :: "QString \<Rightarrow> QString list \<Rightarrow> QString" where
  "join sep [] = ''''"
| "join sep [s] = s"
| "join sep (s # t # ts) = s @ sep @ join sep (t # ts)"

definition wg_addresses :: "InterfaceConfig \<Rightarrow> QString list" where
  "wg_addresses c =
     (case m_deviceIpv4Address c of None \<Rightarrow> [] | Some a \<Rightarrow> [a]) @
     (case m_deviceIpv6Address c of None \<Rightarrow> [] | Some a \<Rightarrow> [a])"

definition wg_dns :: "InterfaceConfig \<Rightarrow> QString" where
  "wg_dns c =
     (if m_primaryDnsServer c = '''' then ''''
      else wg_line ''DNS'' (join '', ''
        ([m_primaryDnsServer c] @
         (if m_secondaryDnsServer c = '''' then [] else [m_secondaryDnsServer c]) @
         (if m_primaryDnsServer c = m_serverIpv4Gateway c then [m_serverIpv6Gateway c] else []))))"

definition wg_validated :: "InterfaceConfig \<Rightarrow> QString list" where
  "wg_validated c =
     [m_privateKey c, text_of (m_deviceIpv4Address c), text_of (m_deviceIpv6Address c),
      m_serverIpv4Gateway c, m_serverIpv6Gateway c, m_serverPublicKey c,
      text_of (m_serverIpv4AddrIn c), text_of (m_serverIpv6AddrIn c)]"

definition wg_awg :: "InterfaceConfig \<Rightarrow> QString" where
  "wg_awg c =
     wg_optional ''Jc'' (m_junkPacketCount c) @ wg_optional ''JMin'' (m_junkPacketMinSize c) @
     wg_optional ''JMax'' (m_junkPacketMaxSize c) @ wg_optional ''S1'' (m_initPacketJunkSize c) @
     wg_optional ''S2'' (m_responsePacketJunkSize c) @ wg_optional ''S3'' (m_cookieReplyPacketJunkSize c) @
     wg_optional ''S4'' (m_transportPacketJunkSize c) @ wg_optional ''H1'' (m_initPacketMagicHeader c) @
     wg_optional ''H2'' (m_responsePacketMagicHeader c) @ wg_optional ''H3'' (m_underloadPacketMagicHeader c) @
     wg_optional ''H4'' (m_transportPacketMagicHeader c) @
     concat (map (\<lambda>(key, v). wg_optional key v) (m_specialJunk c)) @
     wg_optional ''HeaderProtectionKey'' (m_headerProtectionKey c) @
     wg_optional ''ContentPaddingAddition'' (m_contentPaddingAddition c) @
     wg_optional ''RekeyAfterTime'' (m_rekeyAfterTime c) @ wg_optional ''RekeyTimeout'' (m_rekeyTimeout c) @
     wg_optional ''RejectAfterTime'' (m_rejectAfterTime c) @
     wg_optional ''KeepaliveTimeout'' (m_keepaliveTimeout c) @
     wg_optional ''MaxHandshakeAttempts'' (m_maxHandshakeAttempts c) @
     wg_optional ''RandomTrailers'' (m_randomTrailers c) @ wg_optional ''DisableCookies'' (m_disableCookies c)"

text \<open>\<open>extra\<close> is a map in the order of its keys.\<close>

definition toWgConf :: "'e config_env_scheme \<Rightarrow> (QString \<times> QString) list \<Rightarrow> InterfaceConfig \<Rightarrow> QString" where
  "toWgConf env extra c =
     (if list_ex (\<lambda>s. wg_newline \<in> set s) (wg_validated c) then ''''
      else if wg_addresses c = [] then ''''
      else
        ''[Interface]'' @ [wg_newline] @ wg_line ''PrivateKey'' (m_privateKey c) @
        wg_line ''Address'' (join '', '' (wg_addresses c)) @
        (if m_deviceMTU c = 0 then '''' else wg_line ''MTU'' (int_number (m_deviceMTU c))) @
        wg_dns c @ wg_awg c @ concat (map (\<lambda>(key, v). wg_line key v) extra) @
        [wg_newline] @ ''[Peer]'' @ [wg_newline] @ wg_line ''PublicKey'' (m_serverPublicKey c) @
        wg_line ''Endpoint'' (text_of (m_serverIpv4AddrIn c) @ '':'' @ int_number (m_serverPort c)) @
        wg_line ''AllowedIPs'' (join '', '' (map (IPAddress_toString env) (m_allowedIPAddressRanges c))) @
        wg_optional ''PersistentKeepalive'' (m_persistentKeepalive c))"

definition awgBoolToUapi :: "QString \<Rightarrow> QString" where
  "awgBoolToUapi s =
     (let v = toLower (trimmed s)
      in if v \<in> {''on'', ''1'', ''true'', ''t'', ''yes''} then ''1'' else ''0'')"

section \<open>Accepted requests\<close>

lemma if_present_field:
  "(\<And>v c. f (upd v c) = f c) \<Longrightarrow> f (if_present obj name upd c) = f c"
  by (simp add: if_present_def)

lemma parse_awg_fields [simp]:
  "m_hopType (parse_awg obj c) = m_hopType c" "m_privateKey (parse_awg obj c) = m_privateKey c"
  "m_serverPublicKey (parse_awg obj c) = m_serverPublicKey c"
  "m_deviceIpv4Address (parse_awg obj c) = m_deviceIpv4Address c"
  "m_deviceIpv6Address (parse_awg obj c) = m_deviceIpv6Address c"
  "m_serverIpv4AddrIn (parse_awg obj c) = m_serverIpv4AddrIn c"
  "m_serverIpv6AddrIn (parse_awg obj c) = m_serverIpv6AddrIn c"
  "m_deviceMTU (parse_awg obj c) = m_deviceMTU c"
  "m_allowedIPAddressRanges (parse_awg obj c) = m_allowedIPAddressRanges c"
  by (simp_all add: parse_awg_def if_present_field)

text \<open>What a configuration that the daemon acts on has been checked for.\<close>

definition config_checked :: "'e config_env_scheme \<Rightarrow> QJsonObject \<Rightarrow> InterfaceConfig \<Rightarrow> bool" where
  "config_checked env obj c =
     (obj_value obj ''privateKey'' = JString (m_privateKey c) \<and>
      obj_value obj ''serverPublicKey'' = JString (m_serverPublicKey c) \<and>
      isDouble (obj_value obj ''serverPort'') \<and>
      (m_deviceIpv4Address c \<noteq> None \<or> m_deviceIpv6Address c \<noteq> None) \<and>
      (m_serverIpv4AddrIn c \<noteq> None \<or> m_serverIpv6AddrIn c \<noteq> None) \<and>
      m_deviceMTU c \<noteq> 0 \<and> (os_windows env \<longrightarrow> 1280 \<le> m_deviceMTU c) \<and>
      sorted_wrt (\<lambda>a b. m_prefixLength b \<le> m_prefixLength a) (m_allowedIPAddressRanges c))"

lemma parse_mtu_range: "parse_mtu env obj \<noteq> 0" "os_windows env \<Longrightarrow> 1280 \<le> parse_mtu env obj"
  by (auto simp: parse_mtu_def Let_def)

lemma isString_eq: "isString v \<Longrightarrow> v = JString (json_toString v)"
  by (cases v) simp_all

lemma parse_ranges_sorted:
  "sorts_ranges env \<Longrightarrow> parse_ranges env obj acc = Some rs \<Longrightarrow>
   sorted_wrt (\<lambda>a b. m_prefixLength b \<le> m_prefixLength a) rs"
  by (auto simp: parse_ranges_def sorts_ranges_def split: if_splits)

lemma parseConfig_checked:
  assumes "parseConfig env obj c0 = Some c" "sorts_ranges env"
  shows "config_checked env obj c"
proof -
  have has: "has_value isString obj ''privateKey''" "has_value isString obj ''serverPublicKey''"
      "has_value isDouble obj ''serverPort''"
    using assms(1) by (auto simp: parseConfig_def split: if_splits)
  with assms(1) obtain dns1 dns2 hop rs ex apps dns where p:
    "parse_ranges env obj (m_allowedIPAddressRanges c0) = Some rs"
    "\<not> (json_nullable env (obj_value obj ''deviceIpv4Address'') = None \<and>
         json_nullable env (obj_value obj ''deviceIpv6Address'') = None)"
    "\<not> (json_nullable env (obj_value obj ''serverIpv4AddrIn'') = None \<and>
         json_nullable env (obj_value obj ''serverIpv6AddrIn'') = None)"
    "m_privateKey c = json_toString (obj_value obj ''privateKey'')"
    "m_serverPublicKey c = json_toString (obj_value obj ''serverPublicKey'')"
    "m_deviceIpv4Address c = json_nullable env (obj_value obj ''deviceIpv4Address'')"
    "m_deviceIpv6Address c = json_nullable env (obj_value obj ''deviceIpv6Address'')"
    "m_serverIpv4AddrIn c = json_nullable env (obj_value obj ''serverIpv4AddrIn'')"
    "m_serverIpv6AddrIn c = json_nullable env (obj_value obj ''serverIpv6AddrIn'')"
    "m_deviceMTU c = parse_mtu env obj" "m_allowedIPAddressRanges c = rs"
    unfolding parseConfig_def Let_def by (auto split: if_splits simp: bind_eq_Some_conv)
  show ?thesis
    unfolding config_checked_def p(4-11)
    using has p(2,3) parse_mtu_range [of env obj] parse_ranges_sorted [OF assms(2) p(1)]
    by (auto simp: has_value_def dest: isString_eq)
qed

text \<open>The JSON has the MTU as a number, the parser expects a string: reading it back gives the default.\<close>

lemma json_mtu_lost: "parse_mtu env (InterfaceConfig_toJson env c) = 1420"
proof -
  have "obj_value (InterfaceConfig_toJson env c) ''deviceMTU'' = JDouble (of_int (m_deviceMTU c))"
    by (simp add: InterfaceConfig_toJson_def Let_def)
  moreover have "string_toInt '''' = 0" by code_simp
  ultimately show ?thesis by (simp add: parse_mtu_def)
qed

section \<open>Properties\<close>

text \<open>
  C40: the check for line breaks does not cover the resolvers. A line break in the primary
  resolver of an accepted configuration ends its line in the WireGuard file, and the text
  after it becomes a line of its own.
\<close>

theorem wgconf_dns_injects:
  assumes "toWgConf env extra c \<noteq> ''''" "m_primaryDnsServer c = dns @ [CHR 0x0A] @ injected"
    and "m_secondaryDnsServer c = ''''" "m_primaryDnsServer c \<noteq> m_serverIpv4Gateway c"
  shows "\<exists>before after. toWgConf env extra c = before @ [CHR 0x0A] @ injected @ [CHR 0x0A] @ after"
proof -
  have "wg_dns c = (''DNS = '' @ dns) @ [CHR 0x0A] @ injected @ [CHR 0x0A]"
    using assms(2-4) by (simp add: wg_dns_def wg_line_def)
  moreover obtain x y where "toWgConf env extra c = x @ wg_dns c @ y"
    using assms(1) unfolding toWgConf_def by (auto split: if_splits) (metis append.assoc append_Cons)+
  ultimately show ?thesis by (metis append.assoc)
qed

definition injecting_config :: InterfaceConfig where
  "injecting_config = (InterfaceConfig_new SingleHop False)
     \<lparr>m_deviceIpv4Address := Some ''10.8.0.2'', m_primaryDnsServer := ''1.1.1.1'' @ [CHR 0x0A] @ ''PostUp = x''\<rparr>"

definition example_config_env :: config_env where
  "example_config_env =
     \<lparr>os_windows = True, parseHost = (\<lambda>t. NullAddress), parseSubnet = (\<lambda>t. (NullAddress, 0)),
      hostToString = (\<lambda>a. ''''), hopTypeKey = (\<lambda>t. Some SingleHop), hopTypeName = (\<lambda>h. ''SingleHop''),
      empty_is_null = True, int_overflow = (\<lambda>x. 0), std_sort = (\<lambda>xs. xs)\<rparr>"

theorem wgconf_dns_injects_witness:
  "\<exists>before after. toWgConf example_config_env [] injecting_config =
     before @ [CHR 0x0A] @ ''PostUp = x'' @ [CHR 0x0A] @ after"
  by (rule wgconf_dns_injects [where dns = "''1.1.1.1''"])
    (simp_all add: toWgConf_def wg_validated_def wg_addresses_def injecting_config_def InterfaceConfig_new_def text_of_def)

end
