(* ===== verification/Daemon.thy ===== *)
theory Daemon
  imports Interface_Config
begin

text \<open>
  \<^verbatim>\<open>client/daemon/daemon.cpp\<close>: the privileged daemon that brings tunnels up and down. The platform
  classes behind it (WireGuard, DNS and address utilities and the hooks a platform daemon
  overrides) are the parameter record \<open>daemon_env\<close> over a world; every call to them is
  recorded with its result, and so are the signals. Log lines are left out.
\<close>

section \<open>State and parameters\<close>

datatype Op = Up | Down | Switch

datatype daemon_call =
    PrepareActivation InterfaceConfig
  | AddInterface InterfaceConfig
  | DeleteInterface
  | AddInterfaceIPs InterfaceConfig
  | SetMTUAndUp InterfaceConfig
  | UpdatePeer InterfaceConfig
  | DeletePeer InterfaceConfig
  | UpdateRoutePrefix IPAddress
  | DeleteRoutePrefix IPAddress
  | AddExclusionRoute IPAddress
  | AddExclusionBatch "IPAddress list"
  | DeleteExclusionRoute IPAddress
  | UpdateResolvers QString "QHostAddress list"
  | RestoreResolvers
  | Run Op InterfaceConfig
  | Connected QString
  | ActivationFailure
  | Disconnected

record PeerStatus =
  ps_pubkey :: QString
  ps_handshake :: int
  ps_rxBytes :: int
  ps_txBytes :: int

text \<open>
  \<open>platform\<close> answers a call, \<open>batches\<close> tells whether the platform overrides the
  loop that adds exclusion routes, and \<open>hash_order\<close> is the order in which the keys of a
  hash are visited.
\<close>

record 'w daemon_env = config_env +
  platform :: "daemon_call \<Rightarrow> 'w \<Rightarrow> bool \<times> 'w"
  interfaceExists :: "'w \<Rightarrow> bool"
  interfaceName :: QString
  peerStatus :: "'w \<Rightarrow> PeerStatus list"
  supportIPUtils :: bool
  batches :: bool
  hash_order :: "IPAddress list \<Rightarrow> IPAddress list"
  dateToString :: "int option \<Rightarrow> QString"

record ConnectionState =
  cs_date :: "int option"
  cs_config :: InterfaceConfig

record 'w Daemon =
  m_connections :: "HopType \<Rightarrow> ConnectionState option"
  m_excludedAddrSet :: "(IPAddress \<times> int) list"
  m_handshakeTimer :: bool
  daemon_world :: 'w
  daemon_calls :: "(daemon_call \<times> bool) list"

definition Daemon_new :: "'w \<Rightarrow> 'w Daemon" where
  "Daemon_new w =
     \<lparr>m_connections = (\<lambda>h. None), m_excludedAddrSet = [], m_handshakeTimer = False,
      daemon_world = w, daemon_calls = []\<rparr>"

text \<open>The map of connections is ordered by hop type.\<close>

definition hops :: "HopType list" where
  "hops = [SingleHop, MultiHopEntry, MultiHopExit]"

definition connections :: "'w Daemon \<Rightarrow> ConnectionState list" where
  "connections s = List.map_filter (m_connections s) hops"

definition ConnectionState_new :: "InterfaceConfig \<Rightarrow> ConnectionState" where
  "ConnectionState_new config = \<lparr>cs_date = None, cs_config = config\<rparr>"

definition perform :: "('w, 'e) daemon_env_scheme \<Rightarrow> daemon_call \<Rightarrow> 'w Daemon \<Rightarrow> bool \<times> 'w Daemon" where
  "perform env c s =
     (let (ok, w) = platform env c (daemon_world s)
      in (ok, s\<lparr>daemon_world := w, daemon_calls := daemon_calls s @ [(c, ok)]\<rparr>))"

definition emit :: "daemon_call \<Rightarrow> 'w Daemon \<Rightarrow> 'w Daemon" where
  "emit c s = s\<lparr>daemon_calls := daemon_calls s @ [(c, True)]\<rparr>"

text \<open>Steps that stop at the first failure, and steps whose results are ignored.\<close>

fun and_then :: "bool \<times> 's \<Rightarrow> ('s \<Rightarrow> bool \<times> 's) \<Rightarrow> bool \<times> 's" where
  "and_then (ok, s) f = (if ok then f s else (False, s))"

fun perform_all ::
  "('w, 'e) daemon_env_scheme \<Rightarrow> daemon_call list \<Rightarrow> 'w Daemon \<Rightarrow> bool \<times> 'w Daemon" where
  "perform_all env [] s = (True, s)"
| "perform_all env (c # cs) s = and_then (perform env c s) (perform_all env cs)"

fun perform_each ::
  "('w, 'e) daemon_env_scheme \<Rightarrow> daemon_call list \<Rightarrow> 'w Daemon \<Rightarrow> 'w Daemon" where
  "perform_each env [] s = s"
| "perform_each env (c # cs) s = perform_each env cs (snd (perform env c s))"

section \<open>Exclusion routes\<close>

definition hash_get :: "('k \<times> int) list \<Rightarrow> 'k \<Rightarrow> int" where
  "hash_get h k = (case map_of h k of None \<Rightarrow> 0 | Some n \<Rightarrow> n)"

definition addExclusionRoute ::
  "('w, 'e) daemon_env_scheme \<Rightarrow> IPAddress \<Rightarrow> 'w Daemon \<Rightarrow> bool \<times> 'w Daemon" where
  "addExclusionRoute env pfx s =
     (if map_of (m_excludedAddrSet s) pfx \<noteq> None
      then (True, s\<lparr>m_excludedAddrSet :=
              AList.update pfx (hash_get (m_excludedAddrSet s) pfx + 1) (m_excludedAddrSet s)\<rparr>)
      else and_then (perform env (AddExclusionRoute pfx) s)
             (\<lambda>s1. (True, s1\<lparr>m_excludedAddrSet := AList.update pfx 1 (m_excludedAddrSet s1)\<rparr>)))"

text \<open>\<open>WireguardUtils::addExclusionRoutes\<close>: the loop of the base class, which takes back what it added.\<close>

fun add_routes_loop ::
  "('w, 'e) daemon_env_scheme \<Rightarrow> IPAddress list \<Rightarrow> IPAddress list \<Rightarrow> 'w Daemon \<Rightarrow> bool \<times> 'w Daemon" where
  "add_routes_loop env [] added s = (True, s)"
| "add_routes_loop env (pfx # pfxs) added s =
     (let (ok, s1) = perform env (AddExclusionRoute pfx) s
      in if \<not> ok then (False, perform_each env (map DeleteExclusionRoute added) s1)
         else add_routes_loop env pfxs (added @ [pfx]) s1)"

definition wg_addExclusionRoutes ::
  "('w, 'e) daemon_env_scheme \<Rightarrow> IPAddress list \<Rightarrow> 'w Daemon \<Rightarrow> bool \<times> 'w Daemon" where
  "wg_addExclusionRoutes env pfxs s =
     (if batches env then perform env (AddExclusionBatch pfxs) s
      else add_routes_loop env pfxs [] s)"

fun count_requests :: "IPAddress list \<Rightarrow> (IPAddress \<times> int) list \<Rightarrow> (IPAddress \<times> int) list" where
  "count_requests [] h = h"
| "count_requests (p # ps) h = count_requests ps (AList.update p (hash_get h p + 1) h)"

fun add_counts ::
  "(IPAddress \<times> int) list \<Rightarrow> IPAddress list \<Rightarrow> (IPAddress \<times> int) list \<Rightarrow> (IPAddress \<times> int) list" where
  "add_counts requested [] h = h"
| "add_counts requested (p # ps) h =
     add_counts requested ps (AList.update p (hash_get h p + hash_get requested p) h)"

definition addExclusionRoutes ::
  "('w, 'e) daemon_env_scheme \<Rightarrow> QString list \<Rightarrow> 'w Daemon \<Rightarrow> bool \<times> 'w Daemon" where
  "addExclusionRoutes env addresses s =
     (let requestedPrefixes = count_requests (map (IPAddress_of env) addresses) [];
          keys = hash_order env (map fst requestedPrefixes);
          newPrefixes = filter (\<lambda>p. map_of (m_excludedAddrSet s) p = None) keys
      in and_then (wg_addExclusionRoutes env newPrefixes s)
           (\<lambda>s1. (True, s1\<lparr>m_excludedAddrSet := add_counts requestedPrefixes keys (m_excludedAddrSet s1)\<rparr>)))"

text \<open>The index operator of a hash inserts a missing key with 0.\<close>

definition delExclusionRoute ::
  "('w, 'e) daemon_env_scheme \<Rightarrow> IPAddress \<Rightarrow> 'w Daemon \<Rightarrow> bool \<times> 'w Daemon" where
  "delExclusionRoute env pfx s =
     (let n = hash_get (m_excludedAddrSet s) pfx;
          s0 = s\<lparr>m_excludedAddrSet := AList.update pfx n (m_excludedAddrSet s)\<rparr>
      in if n > 1
         then (True, s0\<lparr>m_excludedAddrSet := AList.update pfx (n - 1) (m_excludedAddrSet s0)\<rparr>)
         else and_then (perform env (DeleteExclusionRoute pfx) s0)
                (\<lambda>s1. (True, s1\<lparr>m_excludedAddrSet := AList.delete pfx (m_excludedAddrSet s1)\<rparr>)))"

fun del_routes :: "('w, 'e) daemon_env_scheme \<Rightarrow> IPAddress list \<Rightarrow> 'w Daemon \<Rightarrow> 'w Daemon" where
  "del_routes env [] s = s"
| "del_routes env (p # ps) s = del_routes env ps (snd (delExclusionRoute env p s))"

section \<open>Resolvers\<close>

definition maybeUpdateResolvers ::
  "('w, 'e) daemon_env_scheme \<Rightarrow> InterfaceConfig \<Rightarrow> 'w Daemon \<Rightarrow> bool \<times> 'w Daemon" where
  "maybeUpdateResolvers env config s =
     (if resolves config then
        perform env (UpdateResolvers (interfaceName env)
          ([parseHost env (m_primaryDnsServer config)] @
           (if m_secondaryDnsServer config = '''' then [] else [parseHost env (m_secondaryDnsServer config)]) @
           (if m_primaryDnsServer config = m_serverIpv4Gateway config
            then [parseHost env (m_serverIpv6Gateway config)] else []))) s
      else (True, s))"

section \<open>Bringing tunnels down\<close>

definition peer_cleanup :: "InterfaceConfig \<Rightarrow> daemon_call list" where
  "peer_cleanup config = map DeleteRoutePrefix (m_allowedIPAddressRanges config) @ [DeletePeer config]"

definition run_down :: "('w, 'e) daemon_env_scheme \<Rightarrow> 'w Daemon \<Rightarrow> bool \<times> 'w Daemon" where
  "run_down env s =
     (case connections s of [] \<Rightarrow> (True, s) | c # cs \<Rightarrow> perform env (Run Down (cs_config c)) s)"

definition teardown :: "('w, 'e) daemon_env_scheme \<Rightarrow> bool \<Rightarrow> 'w Daemon \<Rightarrow> bool \<times> 'w Daemon" where
  "teardown env emitSignals s1 =
      (let s2 = (if emitSignals then emit Disconnected s1 else s1);
           s3 = snd (perform env RestoreResolvers s2);
           s4 = perform_each env (concat (map (peer_cleanup \<circ> cs_config) (connections s3))) s3;
           s5 = perform_each env
                  (map DeleteExclusionRoute (hash_order env (map fst (m_excludedAddrSet s4)))) s4
       in perform env DeleteInterface (s5\<lparr>m_excludedAddrSet := [], m_connections := (\<lambda>h. None)\<rparr>))"

definition deactivate :: "('w, 'e) daemon_env_scheme \<Rightarrow> bool \<Rightarrow> 'w Daemon \<Rightarrow> bool \<times> 'w Daemon" where
  "deactivate env emitSignals s = and_then (run_down env s) (teardown env emitSignals)"

section \<open>Bringing tunnels up\<close>

definition config_of :: "HopType \<Rightarrow> 'w Daemon \<Rightarrow> InterfaceConfig" where
  "config_of hop s =
     (case m_connections s hop of None \<Rightarrow> InterfaceConfig_new SingleHop False | Some c \<Rightarrow> cs_config c)"

definition supportServerSwitching :: "InterfaceConfig \<Rightarrow> 'w Daemon \<Rightarrow> bool" where
  "supportServerSwitching config s =
     (case m_connections s (m_hopType config) of
        None \<Rightarrow> False
      | Some c \<Rightarrow>
          let current = cs_config c in
          m_privateKey current = m_privateKey config \<and>
          text_of (m_deviceIpv4Address current) = text_of (m_deviceIpv4Address config) \<and>
          text_of (m_deviceIpv6Address current) = text_of (m_deviceIpv6Address config) \<and>
          m_serverIpv4Gateway current = m_serverIpv4Gateway config \<and>
          m_serverIpv6Gateway current = m_serverIpv6Gateway config)"

text \<open>The routes of a new peer; on failure the new ones are taken back and the old peer is restored.\<close>

fun switch_routes ::
  "('w, 'e) daemon_env_scheme \<Rightarrow> InterfaceConfig \<Rightarrow> IPAddress list \<Rightarrow> IPAddress list
   \<Rightarrow> 'w Daemon \<Rightarrow> bool \<times> 'w Daemon" where
  "switch_routes env lastConfig [] updated s = (True, s)"
| "switch_routes env lastConfig (ip # ips) updated s =
     (let (ok, s1) = perform env (UpdateRoutePrefix ip) s
      in if \<not> ok then
           let s2 = perform_each env (map DeleteRoutePrefix
                 (filter (\<lambda>p. p \<notin> set (m_allowedIPAddressRanges lastConfig)) updated)) s1
           in (False, snd (perform env (UpdatePeer lastConfig) s2))
         else switch_routes env lastConfig ips (updated @ [ip]) s1)"

definition guard_exclusions ::
  "('w, 'e) daemon_env_scheme \<Rightarrow> QString list \<Rightarrow> bool \<times> 'w Daemon \<Rightarrow> bool \<times> 'w Daemon" where
  "guard_exclusions env addresses r =
     (if fst r then r else (False, del_routes env (map (IPAddress_of env) addresses) (snd r)))"

definition set_connection :: "InterfaceConfig \<Rightarrow> 'w Daemon \<Rightarrow> 'w Daemon" where
  "set_connection config s =
     s\<lparr>m_connections := (m_connections s)(m_hopType config \<mapsto> ConnectionState_new config)\<rparr>"

text \<open>
  The old exclusions are looked up as plain host addresses, \<open>QHostAddress(i)\<close>, not as
  \<open>IPAddress(i)\<close>.
\<close>

definition switch_cleanup ::
  "('w, 'e) daemon_env_scheme \<Rightarrow> InterfaceConfig \<Rightarrow> InterfaceConfig \<Rightarrow> 'w Daemon \<Rightarrow> bool \<times> 'w Daemon" where
  "switch_cleanup env lastConfig config s =
     (let s1 = del_routes env (map (\<lambda>i. IPAddress_of_host (parseHost env i)) (m_excludedAddresses lastConfig)) s;
          s2 = perform_each env (map DeleteRoutePrefix
                 (filter (\<lambda>p. p \<notin> set (m_allowedIPAddressRanges config)) (m_allowedIPAddressRanges lastConfig))) s1
      in and_then (if m_serverPublicKey config \<noteq> m_serverPublicKey lastConfig
                   then perform env (DeletePeer lastConfig) s2 else (True, s2))
           (\<lambda>s3. (True, set_connection config s3)))"

definition switchServer ::
  "('w, 'e) daemon_env_scheme \<Rightarrow> InterfaceConfig \<Rightarrow> 'w Daemon \<Rightarrow> bool \<times> 'w Daemon" where
  "switchServer env config s =
     (let lastConfig = config_of (m_hopType config) s in
      and_then (addExclusionRoutes env (m_excludedAddresses config) s) (\<lambda>s1.
      and_then (guard_exclusions env (m_excludedAddresses config)
          (and_then (perform env (UpdatePeer config) s1)
             (switch_routes env lastConfig (m_allowedIPAddressRanges config) [])))
        (switch_cleanup env lastConfig config)))"

definition connect :: "InterfaceConfig \<Rightarrow> 'w Daemon \<Rightarrow> bool \<times> 'w Daemon" where
  "connect config s = (True, (set_connection config s)\<lparr>m_handshakeTimer := True\<rparr>)"

definition activate_switch ::
  "('w, 'e) daemon_env_scheme \<Rightarrow> InterfaceConfig \<Rightarrow> 'w Daemon \<Rightarrow> bool \<times> 'w Daemon" where
  "activate_switch env config s =
     and_then (and_then (and_then (and_then (switchServer env config s)
       (perform env RestoreResolvers))
       (maybeUpdateResolvers env config))
       (perform env (Run Switch config)))
       (connect config)"

definition bring_up ::
  "('w, 'e) daemon_env_scheme \<Rightarrow> InterfaceConfig \<Rightarrow> 'w Daemon \<Rightarrow> bool \<times> 'w Daemon" where
  "bring_up env config s =
     and_then (if \<not> interfaceExists env (daemon_world s) then perform env (AddInterface config) s else (True, s))
       (perform_all env (if supportIPUtils env then [AddInterfaceIPs config, SetMTUAndUp config] else []))"

definition activate_fresh ::
  "('w, 'e) daemon_env_scheme \<Rightarrow> InterfaceConfig \<Rightarrow> 'w Daemon \<Rightarrow> bool \<times> 'w Daemon" where
  "activate_fresh env config s =
     and_then (bring_up env config (snd (perform env (PrepareActivation config) s))) (\<lambda>s1.
     and_then (addExclusionRoutes env (m_excludedAddresses config) s1) (\<lambda>s2.
       guard_exclusions env (m_excludedAddresses config)
         (and_then (and_then (and_then (and_then (perform env (UpdatePeer config) s2)
           (maybeUpdateResolvers env config))
           (perform_all env (map UpdateRoutePrefix (m_allowedIPAddressRanges config))))
           (perform env (Run Up config)))
           (connect config))))"

text \<open>The scope guard that emits \<open>activationFailure\<close> on every failing return.\<close>

definition guard_failure :: "bool \<times> 'w Daemon \<Rightarrow> bool \<times> 'w Daemon" where
  "guard_failure r = (if fst r then r else (False, emit ActivationFailure (snd r)))"

lemma and_then_True [simp]:
  "fst (and_then r f) \<longleftrightarrow> fst r \<and> fst (f (snd r))" "fst r \<Longrightarrow> snd (and_then r f) = snd (f (snd r))"
  by (cases r; simp)+

lemma and_then_fail [simp]: "\<not> fst r \<Longrightarrow> and_then r f = (False, snd r)"
  by (cases r; simp)

lemma perform_fields [simp]:
  "m_connections (snd (perform env c s)) = m_connections s"
  "m_excludedAddrSet (snd (perform env c s)) = m_excludedAddrSet s"
  "m_handshakeTimer (snd (perform env c s)) = m_handshakeTimer s"
  by (simp_all add: perform_def case_prod_beta)

lemma deactivate_connections: "fst (deactivate env b s) \<Longrightarrow> m_connections (snd (deactivate env b s)) = (\<lambda>h. None)"
  by (simp add: deactivate_def teardown_def Let_def)

function activate ::
  "('w, 'e) daemon_env_scheme \<Rightarrow> InterfaceConfig \<Rightarrow> 'w Daemon \<Rightarrow> bool \<times> 'w Daemon" where
  "activate env config s = guard_failure
     (if m_connections s (m_hopType config) \<noteq> None then
        if supportServerSwitching config s then activate_switch env config s
        else if \<not> fst (deactivate env False s) then deactivate env False s
        else activate env config (snd (deactivate env False s))
      else activate_fresh env config s)"
  by pat_completeness auto
termination
  by (relation "measure (\<lambda>(env, config, s). if m_connections s (m_hopType config) = None then 0 else 1)")
    (simp_all add: deactivate_connections)

declare activate.simps [simp del]

section \<open>Handshakes and status\<close>

text \<open>One pending connection against the peers: the new date and the signals.\<close>

fun match_peers :: "QString \<Rightarrow> PeerStatus list \<Rightarrow> int option \<times> 'w Daemon \<Rightarrow> int option \<times> 'w Daemon" where
  "match_peers pubkey [] r = r"
| "match_peers pubkey (p # ps) (date, s) =
     match_peers pubkey ps
       (if ps_pubkey p = pubkey \<and> ps_handshake p \<noteq> 0
        then (Some (ps_handshake p), emit (Connected (ps_pubkey p)) s) else (date, s))"

fun check_connections :: "PeerStatus list \<Rightarrow> HopType list \<Rightarrow> nat \<times> 'w Daemon \<Rightarrow> nat \<times> 'w Daemon" where
  "check_connections peers [] r = r"
| "check_connections peers (h # hs) (pending, s) =
     check_connections peers hs
       (case m_connections s h of
          None \<Rightarrow> (pending, s)
        | Some c \<Rightarrow>
            if cs_date c \<noteq> None then (pending, s)
            else
              let (date, s1) = match_peers (m_serverPublicKey (cs_config c)) peers (None, s);
                  s2 = s1\<lparr>m_connections := (m_connections s1)(h \<mapsto> c\<lparr>cs_date := date\<rparr>)\<rparr>
              in (if date = None then pending + 1 else pending, s2))"

text \<open>Called when the single shot timer has fired.\<close>

definition checkHandshake :: "('w, 'e) daemon_env_scheme \<Rightarrow> 'w Daemon \<Rightarrow> 'w Daemon" where
  "checkHandshake env s =
     (let (pending, s1) = check_connections (peerStatus env (daemon_world s)) hops
            (0, s\<lparr>m_handshakeTimer := False\<rparr>)
      in if pending > 0 then s1\<lparr>m_handshakeTimer := True\<rparr> else s1)"

fun find_peer :: "QString \<Rightarrow> PeerStatus list \<Rightarrow> PeerStatus option" where
  "find_peer pubkey [] = None"
| "find_peer pubkey (p # ps) = (if ps_pubkey p \<noteq> pubkey then find_peer pubkey ps else Some p)"

definition getStatus :: "('w, 'e) daemon_env_scheme \<Rightarrow> 'w Daemon \<Rightarrow> QJsonObject" where
  "getStatus env s =
     (if \<not> interfaceExists env (daemon_world s) \<or> connections s = []
      then obj_insert ''connected'' (JBool False) []
      else
        let connection = hd (connections s) in
        case find_peer (m_serverPublicKey (cs_config connection)) (peerStatus env (daemon_world s)) of
          None \<Rightarrow> obj_insert ''connected'' (JBool False) []
        | Some status \<Rightarrow>
            obj_insert ''rxBytes'' (JDouble (of_int (ps_rxBytes status)))
            (obj_insert ''txBytes'' (JDouble (of_int (ps_txBytes status)))
            (obj_insert ''date'' (JString (dateToString env (cs_date connection)))
            (obj_insert ''deviceIpv4Address'' (JString (text_of (m_deviceIpv4Address (cs_config connection))))
            (obj_insert ''serverIpv4Gateway'' (JString (m_serverIpv4Gateway (cs_config connection)))
            (obj_insert ''connected'' (JBool True) []))))))"

end
