(* ===== verification/Daemon_Routes.thy ===== *)
theory Daemon_Routes
  imports Daemon
begin

text \<open>
  The exclusion routes of the daemon. The hash of counters is a multiset of prefixes, and the
  routes that the recorded platform calls have installed are its elements. The operations on
  exclusion routes are an interface, stated as a locale, on which activation and server
  switching rest.
\<close>

section \<open>The interface\<close>

text \<open>
  Routes that are requested in batches and released one by one. A batch is added completely
  or not at all.
\<close>

locale counted_requests =
  fixes key :: "'k \<Rightarrow> 'a"
    and add :: "'k list \<Rightarrow> 's \<Rightarrow> bool \<times> 's"
    and del :: "'a \<Rightarrow> 's \<Rightarrow> 's"
    and counted :: "'s \<Rightarrow> 'a multiset"
    and good :: "'s \<Rightarrow> bool"
  assumes add_good: "good s \<Longrightarrow> good (snd (add ks s))"
    and add_done: "good s \<Longrightarrow> fst (add ks s) \<Longrightarrow> counted (snd (add ks s)) = counted s + mset (map key ks)"
    and add_undone: "good s \<Longrightarrow> \<not> fst (add ks s) \<Longrightarrow> counted (snd (add ks s)) = counted s"
    and del_good: "good s \<Longrightarrow> p \<in># counted s \<Longrightarrow> good (del p s)"
    and del_counted: "good s \<Longrightarrow> p \<in># counted s \<Longrightarrow> counted (del p s) = counted s - {#p#}"
begin

lemma del_all:
  assumes "good s" "mset ps \<subseteq># counted s"
  shows "good (fold del ps s) \<and> counted (fold del ps s) = counted s - mset ps"
  using assms
proof (induction ps arbitrary: s)
  case (Cons p ps)
  have p: "p \<in># counted s" using Cons.prems(2) by (auto dest: mset_subset_eqD)
  have "mset ps \<subseteq># counted s - {#p#}"
    using Cons.prems(2) by (simp add: insert_subset_eq_iff)
  with p Cons.prems(1) have "good (del p s)" "mset ps \<subseteq># counted (del p s)"
    by (simp_all add: del_good del_counted)
  from Cons.IH [OF this] show ?case using p Cons.prems(1) by (simp add: del_counted)
qed simp

text \<open>A failed attempt that releases what it requested leaves nothing behind.\<close>

lemma rollback:
  assumes "good s" "fst (add ks s)" "good t" "counted t = counted (snd (add ks s))"
  shows "good (fold del (map key ks) t)" "counted (fold del (map key ks) t) = counted s"
  using del_all [OF assms(3), of "map key ks"] assms(4) add_done [OF assms(1,2)] by simp_all

text \<open>Requesting the new keys before the old ones are released replaces them.\<close>

lemma replace:
  assumes "good s" "fst (add ks s)" "good t" "counted t = counted (snd (add ks s))" "mset ps \<subseteq># counted s"
  shows "good (fold del ps t)" "counted (fold del ps t) = counted s - mset ps + mset (map key ks)"
proof -
  have c: "counted t = counted s + mset (map key ks)" using assms(1,2,4) by (simp add: add_done)
  then have "mset ps \<subseteq># counted t" using assms(5) by (simp add: subset_mset.add_increasing2)
  with del_all [OF assms(3)] show "good (fold del ps t)"
    and "counted (fold del ps t) = counted s - mset ps + mset (map key ks)"
    using assms(5) by (simp_all add: c multiset_diff_union_assoc add.commute)
qed

end

lemma and_then_snd: "snd (and_then r f) = (if fst r then snd (f (snd r)) else snd r)"
  by (cases r) simp

section \<open>Hashes of counters\<close>

definition hash_ok :: "('k \<times> int) list \<Rightarrow> bool" where
  "hash_ok h = (distinct (map fst h) \<and> (\<forall>k n. map_of h k = Some n \<longrightarrow> 0 < n))"

definition hash_mset :: "('k \<times> int) list \<Rightarrow> 'k multiset" where
  "hash_mset h = (\<Sum>(k, n)\<leftarrow>h. replicate_mset (nat n) k)"

lemma count_hash_mset: "distinct (map fst h) \<Longrightarrow> count (hash_mset h) k = nat (hash_get h k)"
proof (induction h)
  case (Cons e h)
  obtain k' n where e: "e = (k', n)" by fastforce
  have "k' \<notin> fst ` set h" using Cons.prems by (simp add: e)
  then have "map_of h k' = None" by (simp add: map_of_eq_None_iff)
  then show ?case using Cons by (auto simp: e hash_mset_def hash_get_def)
qed (simp add: hash_mset_def hash_get_def)

lemma hash_empty [simp]: "hash_ok []" "hash_get [] k = 0" "hash_mset [] = {#}"
  by (simp_all add: hash_ok_def hash_get_def hash_mset_def)

lemma hash_get_update [simp]: "hash_get (AList.update k v h) k' = (if k' = k then v else hash_get h k')"
  by (simp add: hash_get_def update_conv')

lemma hash_get_delete [simp]: "hash_get (AList.delete k h) k' = (if k' = k then 0 else hash_get h k')"
  by (simp add: hash_get_def delete_conv')

lemma hash_get_nonneg: "hash_ok h \<Longrightarrow> 0 \<le> hash_get h k"
  by (auto simp: hash_ok_def hash_get_def less_imp_le split: option.split)

lemma hash_get_pos: "hash_ok h \<Longrightarrow> 0 < hash_get h k \<longleftrightarrow> k \<in> fst ` set h"
proof (cases "map_of h k")
  case None
  then have "hash_get h k = 0" unfolding hash_get_def by (simp only: option.case)
  moreover have "k \<notin> fst ` set h" using None by (rule map_of_eq_None_iff [THEN iffD1])
  ultimately show ?thesis by simp
next
  case (Some n)
  then have "k \<in> fst ` set h" by (metis map_of_SomeD image_eqI fst_conv)
  moreover assume "hash_ok h"
  ultimately show ?thesis using Some unfolding hash_ok_def hash_get_def by simp
qed

lemma hash_mset_elem: "hash_ok h \<Longrightarrow> set_mset (hash_mset h) = fst ` set h"
  using hash_get_pos [of h] count_hash_mset [of h]
  by (auto simp: set_mset_def hash_ok_def)

lemma hash_ok_update: "hash_ok h \<Longrightarrow> 0 < v \<Longrightarrow> hash_ok (AList.update k v h)"
  by (simp add: hash_ok_def distinct_update update_conv')

lemma hash_ok_delete: "hash_ok h \<Longrightarrow> hash_ok (AList.delete k h)"
  by (simp add: hash_ok_def distinct_delete delete_conv')

lemma keys_update: "fst ` set (AList.update k v h) = insert k (fst ` set h)"
  using dom_update [of k v h] by simp

lemma keys_delete: "fst ` set (AList.delete k h) = fst ` set h - {k}"
  by (auto simp: delete_keys [symmetric] AList.delete_eq)

lemma count_requests_facts:
  "hash_ok h \<Longrightarrow> hash_ok (count_requests ps h) \<and>
   (\<forall>k. hash_get (count_requests ps h) k = hash_get h k + int (count (mset ps) k)) \<and>
   fst ` set (count_requests ps h) = fst ` set h \<union> set ps"
proof (induction ps arbitrary: h)
  case (Cons p ps)
  have "hash_ok (AList.update p (hash_get h p + 1) h)"
    using Cons.prems hash_get_nonneg [OF Cons.prems, of p] by (simp add: hash_ok_update)
  from Cons.IH [OF this] show ?case by (simp add: keys_update)
qed simp

lemma add_counts_facts:
  "hash_ok h \<Longrightarrow> distinct ks \<Longrightarrow> \<forall>k\<in>set ks. 0 < hash_get req k \<Longrightarrow>
   hash_ok (add_counts req ks h) \<and>
   (\<forall>k. hash_get (add_counts req ks h) k = hash_get h k + (if k \<in> set ks then hash_get req k else 0)) \<and>
   fst ` set (add_counts req ks h) = fst ` set h \<union> set ks"
proof (induction ks arbitrary: h)
  case (Cons p ps)
  have "hash_ok (AList.update p (hash_get h p + hash_get req p) h)"
    using Cons.prems hash_get_nonneg [OF Cons.prems(1), of p] by (simp add: hash_ok_update)
  from Cons.IH [OF this] Cons.prems show ?case by (auto simp: keys_update)
qed simp

section \<open>Installed routes\<close>

text \<open>The exclusion routes in place after a list of platform calls and their results.\<close>

fun route_effect :: "daemon_call \<times> bool \<Rightarrow> IPAddress set \<Rightarrow> IPAddress set" where
  "route_effect (AddExclusionRoute p, True) R = insert p R"
| "route_effect (AddExclusionBatch ps, True) R = R \<union> set ps"
| "route_effect (DeleteExclusionRoute p, True) R = R - {p}"
| "route_effect _ R = R"

definition routes :: "'w Daemon \<Rightarrow> IPAddress set" where
  "routes s = fold route_effect (daemon_calls s) {}"

fun touches_routes :: "daemon_call \<Rightarrow> bool" where
  "touches_routes (AddExclusionRoute p) = True"
| "touches_routes (AddExclusionBatch ps) = True"
| "touches_routes (DeleteExclusionRoute p) = True"
| "touches_routes _ = False"

lemma route_effect_other: "\<not> touches_routes c \<Longrightarrow> route_effect (c, ok) R = R"
  by (cases c) simp_all

lemma routes_perform: "routes (snd (perform env c s)) = route_effect (c, fst (perform env c s)) (routes s)"
  by (simp add: routes_def perform_def case_prod_beta)

lemma routes_emit: "\<not> touches_routes c \<Longrightarrow> routes (emit c s) = routes s"
  by (simp add: routes_def emit_def route_effect_other)

lemma routes_update [simp]:
  "routes (s\<lparr>m_excludedAddrSet := h\<rparr>) = routes s" "routes (s\<lparr>m_connections := m\<rparr>) = routes s"
  "routes (s\<lparr>m_handshakeTimer := b\<rparr>) = routes s"
  by (simp_all add: routes_def)

definition deletes_succeed :: "('w, 'e) daemon_env_scheme \<Rightarrow> bool" where
  "deletes_succeed env = (\<forall>p w. fst (platform env (DeleteExclusionRoute p) w))"

text \<open>Visiting the keys of a hash meets each key once.\<close>

definition order_ok :: "('w, 'e) daemon_env_scheme \<Rightarrow> bool" where
  "order_ok env = (\<forall>ks. distinct ks \<longrightarrow> distinct (hash_order env ks) \<and> set (hash_order env ks) = set ks)"

lemma routes_delete:
  "deletes_succeed env \<Longrightarrow> fst (perform env (DeleteExclusionRoute p) s)"
  "deletes_succeed env \<Longrightarrow> routes (snd (perform env (DeleteExclusionRoute p) s)) = routes s - {p}"
proof -
  assume "deletes_succeed env"
  then have "fst (perform env (DeleteExclusionRoute p) s) = True"
    by (simp add: deletes_succeed_def perform_def case_prod_beta)
  then show "fst (perform env (DeleteExclusionRoute p) s)"
    "routes (snd (perform env (DeleteExclusionRoute p) s)) = routes s - {p}"
    by (simp_all add: routes_perform)
qed

lemma perform_each_fields [simp]:
  "m_connections (perform_each env cs s) = m_connections s"
  "m_excludedAddrSet (perform_each env cs s) = m_excludedAddrSet s"
  "m_handshakeTimer (perform_each env cs s) = m_handshakeTimer s"
  by (induction cs arbitrary: s) simp_all

lemma routes_delete_each:
  "deletes_succeed env \<Longrightarrow> routes (perform_each env (map DeleteExclusionRoute ps) s) = routes s - set ps"
  by (induction ps arbitrary: s) (auto simp: routes_delete)

lemma add_routes_loop_fields [simp]:
  "m_connections (snd (add_routes_loop env ps added s)) = m_connections s"
  "m_excludedAddrSet (snd (add_routes_loop env ps added s)) = m_excludedAddrSet s"
  "m_handshakeTimer (snd (add_routes_loop env ps added s)) = m_handshakeTimer s"
  by (induction ps arbitrary: added s) (simp_all add: case_prod_beta)

lemma add_routes_loop_routes:
  "deletes_succeed env \<Longrightarrow> distinct ps \<Longrightarrow> set ps \<inter> routes s = {} \<Longrightarrow>
   routes (snd (add_routes_loop env ps added s)) =
     (if fst (add_routes_loop env ps added s) then routes s \<union> set ps else routes s - set added)"
proof (induction ps arbitrary: added s)
  case (Cons p ps)
  let ?r = "perform env (AddExclusionRoute p) s"
  show ?case
  proof (cases "fst ?r")
    case True
    then have "routes (snd ?r) = insert p (routes s)" by (simp add: routes_perform)
    moreover have "p \<notin> routes s" "p \<notin> set ps" using Cons.prems by auto
    ultimately show ?thesis
      using True Cons.prems Cons.IH [of "snd ?r"] by (auto simp: case_prod_beta)
  next
    case False
    then show ?thesis using Cons.prems(1)
      by (simp add: case_prod_beta routes_delete_each routes_perform)
  qed
qed simp

lemma wg_addExclusionRoutes_fields [simp]:
  "m_connections (snd (wg_addExclusionRoutes env ps s)) = m_connections s"
  "m_excludedAddrSet (snd (wg_addExclusionRoutes env ps s)) = m_excludedAddrSet s"
  "m_handshakeTimer (snd (wg_addExclusionRoutes env ps s)) = m_handshakeTimer s"
  by (simp_all add: wg_addExclusionRoutes_def)

lemma wg_addExclusionRoutes_routes:
  assumes "deletes_succeed env" "distinct ps" "set ps \<inter> routes s = {}"
  shows "routes (snd (wg_addExclusionRoutes env ps s)) =
    (if fst (wg_addExclusionRoutes env ps s) then routes s \<union> set ps else routes s)"
  using add_routes_loop_routes [OF assms, of "[]"]
  by (auto simp: wg_addExclusionRoutes_def routes_perform)

section \<open>The daemon provides the interface\<close>

text \<open>The counters are positive, one per prefix, and the installed routes are the counted prefixes.\<close>

definition table_ok :: "'w Daemon \<Rightarrow> bool" where
  "table_ok s = (hash_ok (m_excludedAddrSet s) \<and> routes s = fst ` set (m_excludedAddrSet s))"

definition routes_good :: "('w, 'e) daemon_env_scheme \<Rightarrow> 'w Daemon \<Rightarrow> bool" where
  "routes_good env s = (deletes_succeed env \<and> order_ok env \<and> table_ok s)"

definition counted_routes :: "'w Daemon \<Rightarrow> IPAddress multiset" where
  "counted_routes s = hash_mset (m_excludedAddrSet s)"

lemma count_counted: "table_ok s \<Longrightarrow> count (counted_routes s) p = nat (hash_get (m_excludedAddrSet s) p)"
  by (simp add: counted_routes_def table_ok_def hash_ok_def count_hash_mset)

lemma addExclusionRoutes_facts:
  assumes "routes_good env s"
  shows "routes_good env (snd (addExclusionRoutes env as s)) \<and>
    counted_routes (snd (addExclusionRoutes env as s)) =
      (if fst (addExclusionRoutes env as s) then counted_routes s + mset (map (IPAddress_of env) as)
       else counted_routes s)"
proof -
  let ?ps = "map (IPAddress_of env) as"
  define req where "req = count_requests ?ps []"
  define ks where "ks = hash_order env (map fst req)"
  define new where "new = filter (\<lambda>p. map_of (m_excludedAddrSet s) p = None) ks"
  define r where "r = wg_addExclusionRoutes env new s"
  have g: "deletes_succeed env" "order_ok env" "table_ok s" using assms by (simp_all add: routes_good_def)
  have req: "hash_ok req" "\<And>k. hash_get req k = int (count (mset ?ps) k)" "fst ` set req = set ?ps"
    using count_requests_facts [of "[]" ?ps] by (simp_all add: req_def)
  then have ks: "distinct ks" "set ks = set ?ps"
    using g(2) by (auto simp: ks_def order_ok_def hash_ok_def)
  have pos: "\<forall>k\<in>set ks. 0 < hash_get req k" using req(1,3) ks(2) hash_get_pos [OF req(1)] by simp
  have new: "distinct new" "set new = set ?ps - fst ` set (m_excludedAddrSet s)"
    using ks by (auto simp: new_def map_of_eq_None_iff)
  then have disj: "set new \<inter> routes s = {}" using g(3) by (auto simp: table_ok_def)
  have eq: "addExclusionRoutes env as s = and_then r
      (\<lambda>s1. (True, s1\<lparr>m_excludedAddrSet := add_counts req ks (m_excludedAddrSet s1)\<rparr>))"
    by (simp add: addExclusionRoutes_def Let_def r_def new_def ks_def req_def)
  have rr: "routes (snd r) = (if fst r then routes s \<union> set new else routes s)"
    unfolding r_def by (rule wg_addExclusionRoutes_routes [OF g(1) new(1) disj])
  show ?thesis
  proof (cases "fst r")
    case False
    then show ?thesis unfolding eq using g rr
      by (simp add: routes_good_def table_ok_def counted_routes_def r_def)
  next
    case True
    let ?h = "add_counts req ks (m_excludedAddrSet s)"
    have h: "hash_ok ?h" "\<And>k. hash_get ?h k = hash_get (m_excludedAddrSet s) k + (if k \<in> set ks then hash_get req k else 0)"
        "fst ` set ?h = fst ` set (m_excludedAddrSet s) \<union> set ks"
      using add_counts_facts [OF _ ks(1) pos, of "m_excludedAddrSet s"] g(3) by (auto simp: table_ok_def)
    have s': "snd (addExclusionRoutes env as s) = (snd r)\<lparr>m_excludedAddrSet := ?h\<rparr>"
      "fst (addExclusionRoutes env as s)" unfolding eq using True by (simp_all add: r_def)
    have t: "table_ok (snd (addExclusionRoutes env as s))"
      using h(1,3) rr True g(3) new(2) ks(2) by (auto simp: s' table_ok_def)
    have "counted_routes (snd (addExclusionRoutes env as s)) = counted_routes s + mset ?ps"
    proof (rule multiset_eqI)
      fix k
      have "count (mset ?ps) k = 0" if "k \<notin> set ks"
        using that ks(2) by (simp only: count_eq_zero_iff set_mset_mset not_False_eq_True)
      then have "hash_get ?h k = hash_get (m_excludedAddrSet s) k + int (count (mset ?ps) k)"
        unfolding h(2) req(2) by simp
      moreover have "0 \<le> hash_get (m_excludedAddrSet s) k"
        using g(3) by (simp add: table_ok_def hash_get_nonneg)
      ultimately have "nat (hash_get ?h k) = nat (hash_get (m_excludedAddrSet s) k) + count (mset ?ps) k"
        by linarith
      then show "count (counted_routes (snd (addExclusionRoutes env as s))) k = count (counted_routes s + mset ?ps) k"
        unfolding count_union s'(1) count_counted [OF t [unfolded s'(1)]] count_counted [OF g(3)] by simp
    qed
    with t s'(2) g show ?thesis by (simp add: routes_good_def)
  qed
qed

lemma delExclusionRoute_facts:
  assumes "routes_good env s" "p \<in># counted_routes s"
  shows "routes_good env (snd (delExclusionRoute env p s)) \<and>
    counted_routes (snd (delExclusionRoute env p s)) = counted_routes s - {#p#}"
proof -
  let ?h = "m_excludedAddrSet s" and ?s' = "snd (delExclusionRoute env p s)"
  have g: "deletes_succeed env" "order_ok env" "table_ok s" using assms(1) by (simp_all add: routes_good_def)
  have h: "hash_ok ?h" "routes s = fst ` set ?h" using g(3) by (simp_all add: table_ok_def)
  have p: "p \<in> fst ` set ?h" using assms(2) hash_mset_elem [OF h(1)] by (simp add: counted_routes_def)
  then have n: "0 < hash_get ?h p" using hash_get_pos [OF h(1)] by blast
  define h' where "h' = (if hash_get ?h p > 1 then AList.update p (hash_get ?h p - 1) (AList.update p (hash_get ?h p) ?h)
    else AList.delete p (AList.update p (hash_get ?h p) ?h))"
  have s': "m_excludedAddrSet ?s' = h'"
    "routes ?s' = (if hash_get ?h p > 1 then routes s else routes s - {p})"
    using routes_delete [OF g(1), of p] by (auto simp: delExclusionRoute_def Let_def h'_def)
  have "hash_ok h'" using h(1) n by (simp add: h'_def hash_ok_update hash_ok_delete)
  moreover have "routes ?s' = fst ` set h'" using p h(2) by (auto simp: s' h'_def keys_update keys_delete)
  ultimately have t: "table_ok ?s'" by (simp add: table_ok_def s')
  have "counted_routes ?s' = counted_routes s - {#p#}"
  proof (rule multiset_eqI)
    fix k
    have "nat (hash_get h' k) = nat (hash_get ?h k) - count {#p#} k" using n by (auto simp: h'_def)
    then show "count (counted_routes ?s') k = count (counted_routes s - {#p#}) k"
      by (simp only: count_diff count_counted [OF t] count_counted [OF g(3)] s'(1))
  qed
  with t g show ?thesis by (simp add: routes_good_def)
qed

interpretation exclusions: counted_requests "IPAddress_of env" "addExclusionRoutes env"
    "\<lambda>p s. snd (delExclusionRoute env p s)" counted_routes "routes_good env" for env
  by unfold_locales (simp_all add: addExclusionRoutes_facts delExclusionRoute_facts)

lemma del_routes_fold: "del_routes env ps s = fold (\<lambda>p s. snd (delExclusionRoute env p s)) ps s"
  by (induction ps arbitrary: s) simp_all

lemma addExclusionRoutes_fields [simp]:
  "m_connections (snd (addExclusionRoutes env as s)) = m_connections s"
  "m_handshakeTimer (snd (addExclusionRoutes env as s)) = m_handshakeTimer s"
  by (simp_all add: addExclusionRoutes_def Let_def and_then_snd)

lemma delExclusionRoute_fields [simp]:
  "m_connections (snd (delExclusionRoute env p s)) = m_connections s"
  "m_handshakeTimer (snd (delExclusionRoute env p s)) = m_handshakeTimer s"
  by (auto simp: delExclusionRoute_def Let_def and_then_snd)

lemma del_routes_fields [simp]:
  "m_connections (del_routes env ps s) = m_connections s"
  "m_handshakeTimer (del_routes env ps s) = m_handshakeTimer s"
  by (induction ps arbitrary: s) simp_all

end
