(* ===== verification/Daemon_Facts.thy ===== *)
theory Daemon_Facts
  imports Daemon_Routes
begin

text \<open>
  Facts about the daemon: the exclusion routes always are those of the connected
  configurations, what a failed activation leaves behind, the signals, and the polling for
  handshakes.
\<close>

section \<open>Steps that leave connections and routes alone\<close>

definition same_tables :: "'w Daemon \<Rightarrow> 'w Daemon \<Rightarrow> bool" where
  "same_tables s s' =
     (m_connections s' = m_connections s \<and> m_excludedAddrSet s' = m_excludedAddrSet s \<and> routes s' = routes s)"

lemma same_tables_refl [simp]: "same_tables s s"
  by (simp add: same_tables_def)

lemma same_tables_trans: "same_tables s t \<Longrightarrow> same_tables t u \<Longrightarrow> same_tables s u"
  by (simp add: same_tables_def)

lemma same_perform: "\<not> touches_routes c \<Longrightarrow> same_tables s (snd (perform env c s))"
  by (simp add: same_tables_def routes_perform route_effect_other)

lemma same_emit: "\<not> touches_routes c \<Longrightarrow> same_tables s (emit c s)"
  by (simp add: same_tables_def routes_emit) (simp add: emit_def)

lemma same_and_then:
  "same_tables s (snd r) \<Longrightarrow> (\<And>t. same_tables t (snd (f t))) \<Longrightarrow> same_tables s (snd (and_then r f))"
  by (auto simp: and_then_snd intro: same_tables_trans)

lemma same_perform_all:
  "list_all (\<lambda>c. \<not> touches_routes c) cs \<Longrightarrow> same_tables s (snd (perform_all env cs s))"
proof (induction cs arbitrary: s)
  case (Cons c cs)
  then show ?case by (auto intro!: same_and_then same_perform)
qed simp

lemma same_perform_each:
  "list_all (\<lambda>c. \<not> touches_routes c) cs \<Longrightarrow> same_tables s (perform_each env cs s)"
proof (induction cs arbitrary: s)
  case (Cons c cs)
  then show ?case using same_perform [of c s env] by (auto intro: same_tables_trans)
qed simp

lemma same_resolvers: "same_tables s (snd (maybeUpdateResolvers env config s))"
  by (simp add: maybeUpdateResolvers_def same_perform)

lemma same_bring_up: "same_tables s (snd (bring_up env config s))"
  unfolding bring_up_def by (intro same_and_then same_perform_all) (simp_all add: same_perform)

lemma same_switch_routes: "same_tables s (snd (switch_routes env lastConfig ips updated s))"
proof (induction ips arbitrary: updated s)
  case (Cons ip ips)
  let ?s1 = "snd (perform env (UpdateRoutePrefix ip) s)"
  let ?s2 = "perform_each env (map DeleteRoutePrefix
    (filter (\<lambda>p. p \<notin> set (m_allowedIPAddressRanges lastConfig)) updated)) ?s1"
  have 1: "same_tables s ?s1" by (simp add: same_perform)
  have "same_tables ?s1 ?s2" by (rule same_perform_each) (simp add: list_all_iff)
  moreover have "same_tables ?s2 (snd (perform env (UpdatePeer lastConfig) ?s2))" by (simp add: same_perform)
  ultimately show ?case using 1 Cons by (auto simp: case_prod_beta intro: same_tables_trans)
qed simp

lemma same_run_down: "same_tables s (snd (run_down env s))"
  by (simp add: run_down_def same_perform split: list.split)

lemma same_tables_good: "same_tables s s' \<Longrightarrow> routes_good env s' = routes_good env s"
  by (simp add: same_tables_def routes_good_def table_ok_def)

lemma same_tables_counted: "same_tables s s' \<Longrightarrow> counted_routes s' = counted_routes s"
  by (simp add: same_tables_def counted_routes_def)

lemma table_ok_routes: "table_ok s \<Longrightarrow> routes s = set_mset (counted_routes s)"
  by (simp add: table_ok_def counted_routes_def hash_mset_elem)

section \<open>The invariant\<close>

definition requests :: "('w, 'e) daemon_env_scheme \<Rightarrow> InterfaceConfig \<Rightarrow> IPAddress multiset" where
  "requests env config = mset (map (IPAddress_of env) (m_excludedAddresses config))"

text \<open>What the connected configurations exclude, with multiplicity.\<close>

definition wanted :: "('w, 'e) daemon_env_scheme \<Rightarrow> 'w Daemon \<Rightarrow> IPAddress multiset" where
  "wanted env s =
     (\<Sum>h\<leftarrow>hops. case m_connections s h of None \<Rightarrow> {#} | Some c \<Rightarrow> requests env (cs_config c))"

text \<open>The excluded addresses are single hosts, without a prefix length.\<close>

definition plain_hosts :: "('w, 'e) daemon_env_scheme \<Rightarrow> InterfaceConfig \<Rightarrow> bool" where
  "plain_hosts env config =
     list_all (\<lambda>a. IPAddress_of_host (parseHost env a) = IPAddress_of env a) (m_excludedAddresses config)"

definition peers_deleted :: "('w, 'e) daemon_env_scheme \<Rightarrow> bool" where
  "peers_deleted env = (\<forall>config w. fst (platform env (DeletePeer config) w))"

definition daemon_ok :: "('w, 'e) daemon_env_scheme \<Rightarrow> 'w Daemon \<Rightarrow> bool" where
  "daemon_ok env s =
     (routes_good env s \<and> counted_routes s = wanted env s \<and>
      (\<forall>h c. m_connections s h = Some c \<longrightarrow> m_hopType (cs_config c) = h \<and> plain_hosts env (cs_config c)))"

lemma same_tables_ok: "same_tables s s' \<Longrightarrow> daemon_ok env s' = daemon_ok env s"
  using same_tables_good [of s s' env] same_tables_counted [of s s'] by (simp add: daemon_ok_def wanted_def same_tables_def)

text \<open>Replacing one connection replaces its requests.\<close>

lemma wanted_requests:
  "m_connections s h = Some c \<Longrightarrow> requests env (cs_config c) \<subseteq># wanted env s"
  by (cases h) (simp_all add: wanted_def hops_def)

lemma wanted_set_connection:
  "wanted env (set_connection config s) =
     wanted env s - (case m_connections s (m_hopType config) of None \<Rightarrow> {#} | Some c \<Rightarrow> requests env (cs_config c))
       + requests env config"
  by (cases "m_hopType config"; cases "m_connections s (m_hopType config)")
    (simp_all add: wanted_def hops_def set_connection_def ConnectionState_new_def)

lemma set_connection_good:
  "routes_good env (set_connection config s) = routes_good env s"
  "counted_routes (set_connection config s) = counted_routes s"
  by (simp_all add: set_connection_def routes_good_def table_ok_def counted_routes_def)

lemma daemon_ok_timer [simp]: "daemon_ok env (s\<lparr>m_handshakeTimer := b\<rparr>) = daemon_ok env s"
  by (rule same_tables_ok) (simp add: same_tables_def)

lemma daemon_ok_connect:
  assumes "routes_good env s" "plain_hosts env config"
    and "\<forall>h c. m_connections s h = Some c \<longrightarrow> m_hopType (cs_config c) = h \<and> plain_hosts env (cs_config c)"
    and "counted_routes s = wanted env (set_connection config s)"
  shows "daemon_ok env (set_connection config s)"
  using assms
  by (auto simp: daemon_ok_def set_connection_good) (auto simp: set_connection_def ConnectionState_new_def split: if_splits)

lemma connect_snd: "snd (connect config s) = (set_connection config s)\<lparr>m_handshakeTimer := True\<rparr>" "fst (connect config s)"
  by (simp_all add: connect_def)

section \<open>Every operation keeps the invariant\<close>

lemma deactivate_facts:
  assumes "routes_good env s"
  shows "fst (deactivate env b s) \<Longrightarrow> daemon_ok env (snd (deactivate env b s))"
    and "daemon_ok env s \<Longrightarrow> daemon_ok env (snd (deactivate env b s))"
proof -
  define s1 where "s1 = snd (run_down env s)"
  define s2 where "s2 = (if b then emit Disconnected s1 else s1)"
  define s3 where "s3 = snd (perform env RestoreResolvers s2)"
  define s4 where "s4 = perform_each env (concat (map (peer_cleanup \<circ> cs_config) (connections s3))) s3"
  define s5 where "s5 = perform_each env
    (map DeleteExclusionRoute (hash_order env (map fst (m_excludedAddrSet s4)))) s4"
  define s6 where "s6 = s5\<lparr>m_excludedAddrSet := [], m_connections := (\<lambda>h. None)\<rparr>"
  have 1: "same_tables s s1" unfolding s1_def by (rule same_run_down)
  have "same_tables s1 s2" by (simp add: s2_def same_emit)
  moreover have "same_tables s2 s3" by (simp add: s3_def same_perform)
  moreover have "same_tables s3 s4" unfolding s4_def
    by (rule same_perform_each) (auto simp: list_all_iff peer_cleanup_def)
  ultimately have 4: "same_tables s s4" using 1 by (blast intro: same_tables_trans)
  then have g: "deletes_succeed env" "order_ok env" "table_ok s4"
    using assms same_tables_good [of s s4 env] by (simp_all add: routes_good_def)
  then have "routes s5 = {}"
    by (auto simp: s5_def routes_delete_each table_ok_def order_ok_def hash_ok_def)
  then have "table_ok s6" by (simp add: s6_def table_ok_def)
  then have "daemon_ok env s6"
    using g by (simp add: daemon_ok_def routes_good_def s6_def counted_routes_def wanted_def hops_def)
  then have ok: "daemon_ok env (snd (perform env DeleteInterface s6))"
    using same_tables_ok [OF same_perform [of DeleteInterface s6 env], of env] by simp
  have eq: "deactivate env b s = (if fst (run_down env s) then perform env DeleteInterface s6 else (False, s1))"
    unfolding deactivate_def teardown_def s6_def s5_def s4_def s3_def s2_def s1_def Let_def
    by (cases "run_down env s") simp
  show "fst (deactivate env b s) \<Longrightarrow> daemon_ok env (snd (deactivate env b s))"
    using ok by (auto simp: eq split: if_splits)
  show "daemon_ok env s \<Longrightarrow> daemon_ok env (snd (deactivate env b s))"
    using ok same_tables_ok [OF 1, of env] by (simp add: eq)
qed

lemma guard_exclusions_facts:
  assumes "routes_good env s" "fst (addExclusionRoutes env as s)"
    and "same_tables (snd (addExclusionRoutes env as s)) (snd r)" "\<not> fst r"
  shows "routes_good env (snd (guard_exclusions env as r)) \<and>
    counted_routes (snd (guard_exclusions env as r)) = counted_routes s \<and>
    m_connections (snd (guard_exclusions env as r)) = m_connections s \<and> \<not> fst (guard_exclusions env as r)"
proof -
  have "routes_good env (snd r)" "counted_routes (snd r) = counted_routes (snd (addExclusionRoutes env as s))"
    using same_tables_good [OF assms(3), of env] same_tables_counted [OF assms(3)] assms(1) by (simp_all add: exclusions.add_good)
  from exclusions.rollback [OF assms(1,2) this] show ?thesis
    using assms(3,4) by (simp add: guard_exclusions_def del_routes_fold [symmetric] same_tables_def)
qed

text \<open>The state is good and the same requests are counted for the same connections.\<close>

definition same_requests :: "('w, 'e) daemon_env_scheme \<Rightarrow> 'w Daemon \<Rightarrow> 'w Daemon \<Rightarrow> bool" where
  "same_requests env s s' =
     (routes_good env s' \<and> counted_routes s' = counted_routes s \<and> m_connections s' = m_connections s)"

lemma same_requests_ok: "daemon_ok env s \<Longrightarrow> same_requests env s s' \<Longrightarrow> daemon_ok env s'"
  by (simp add: daemon_ok_def same_requests_def wanted_def)

lemma same_requests_tables:
  "same_tables s t \<Longrightarrow> same_requests env t u \<Longrightarrow> same_requests env s u"
  using same_tables_counted [of s t] by (simp add: same_requests_def same_tables_def)

lemma add_failed:
  assumes "routes_good env s" "\<not> fst (addExclusionRoutes env as s)"
  shows "same_requests env s (snd (addExclusionRoutes env as s))"
  using assms by (simp add: same_requests_def exclusions.add_good exclusions.add_undone)

text \<open>A fresh activation connects with its requests added, or changes nothing that is counted.\<close>

lemma activate_fresh_facts:
  assumes "routes_good env s"
  shows "if fst (activate_fresh env config s)
    then \<exists>t. routes_good env t \<and> m_connections t = m_connections s \<and>
      counted_routes t = counted_routes s + requests env config \<and>
      snd (activate_fresh env config s) = (set_connection config t)\<lparr>m_handshakeTimer := True\<rparr>
    else same_requests env s (snd (activate_fresh env config s))"
proof -
  let ?as = "m_excludedAddresses config"
  define r1 where "r1 = bring_up env config (snd (perform env (PrepareActivation config) s))"
  define r2 where "r2 = addExclusionRoutes env ?as (snd r1)"
  define r3 where "r3 = and_then (and_then (and_then (perform env (UpdatePeer config) (snd r2))
    (maybeUpdateResolvers env config))
    (perform_all env (map UpdateRoutePrefix (m_allowedIPAddressRanges config))))
    (perform env (Run Up config))"
  have 1: "same_tables s (snd r1)"
    unfolding r1_def by (rule same_tables_trans [OF same_perform same_bring_up]) simp
  then have g1: "routes_good env (snd r1)" using assms same_tables_good [of s "snd r1" env] by simp
  have 3: "same_tables (snd r2) (snd r3)" unfolding r3_def
    by (intro same_and_then same_resolvers same_perform_all same_perform) (simp_all add: list_all_iff)
  have eq: "activate_fresh env config s = (if fst r1 then if fst r2
      then guard_exclusions env ?as (and_then r3 (connect config)) else (False, snd r2) else (False, snd r1))"
    unfolding activate_fresh_def r1_def [symmetric] by (cases r1; cases r2) (auto simp: r2_def r3_def)
  show ?thesis
  proof (cases "fst r1 \<and> fst r2")
    case False
    then have "same_requests env (snd r1) (snd (activate_fresh env config s))"
      using add_failed [OF g1, of ?as] g1 by (auto simp: eq r2_def same_requests_def)
    with False 1 show ?thesis by (auto simp: eq intro: same_requests_tables)
  next
    case both: True
    show ?thesis
    proof (cases "fst r3")
      case True
      have "routes_good env (snd r2)" "counted_routes (snd r2) = counted_routes (snd r1) + requests env config"
        using g1 both by (simp_all add: r2_def exclusions.add_good exclusions.add_done requests_def)
      then have "routes_good env (snd r3)" "counted_routes (snd r3) = counted_routes s + requests env config"
        using same_tables_good [OF 3, of env] same_tables_counted [OF 3] same_tables_counted [OF 1] by simp_all
      moreover have "m_connections (snd r3) = m_connections s"
        using 1 3 by (simp add: same_tables_def r2_def)
      moreover have "activate_fresh env config s = (True, snd (connect config (snd r3)))"
        using both True by (cases r3) (simp add: eq guard_exclusions_def connect_snd prod_eq_iff)
      ultimately show ?thesis by (auto simp: connect_snd)
    next
      case False
      then have "same_requests env (snd r1) (snd (activate_fresh env config s)) \<and> \<not> fst (activate_fresh env config s)"
        using guard_exclusions_facts [OF g1, of ?as "(False, snd r3)"] both 3 by (simp add: eq same_requests_def r2_def)
      with 1 show ?thesis by (auto intro: same_requests_tables)
    qed
  qed
qed

lemma activate_fresh_ok:
  assumes "daemon_ok env s" "plain_hosts env config" "m_connections s (m_hopType config) = None"
  shows "daemon_ok env (snd (activate_fresh env config s))"
proof -
  have g: "routes_good env s" using assms(1) by (simp add: daemon_ok_def)
  note facts = activate_fresh_facts [OF g, of config]
  show ?thesis
  proof (cases "fst (activate_fresh env config s)")
    case True
    with facts obtain t where t: "routes_good env t" "m_connections t = m_connections s"
        "counted_routes t = counted_routes s + requests env config"
        "snd (activate_fresh env config s) = (set_connection config t)\<lparr>m_handshakeTimer := True\<rparr>"
      by auto
    have "wanted env (set_connection config t) = wanted env s + requests env config"
      using wanted_set_connection [of env config t] assms(3) t(2) by (simp add: wanted_def)
    then have "daemon_ok env (set_connection config t)"
      using t assms(1,2) by (intro daemon_ok_connect) (simp_all add: daemon_ok_def)
    then show ?thesis by (simp add: t(4))
  next
    case False
    with facts assms(1) show ?thesis by (auto intro: same_requests_ok)
  qed
qed

text \<open>The cleanup of a switch, once the routes of the new server are in place.\<close>

lemma switch_cleanup_facts:
  assumes "peers_deleted env" "plain_hosts env lastConfig" "routes_good env s" "fst (addExclusionRoutes env as s)"
    and "same_tables (snd (addExclusionRoutes env as s)) t" "requests env lastConfig \<subseteq># counted_routes s"
  shows "\<exists>u. switch_cleanup env lastConfig config t = (True, set_connection config u) \<and>
    routes_good env u \<and> m_connections u = m_connections s \<and>
    counted_routes u = counted_routes s - requests env lastConfig + mset (map (IPAddress_of env) as)"
proof -
  let ?old = "map (IPAddress_of env) (m_excludedAddresses lastConfig)"
  let ?drop = "map DeleteRoutePrefix (filter (\<lambda>p. p \<notin> set (m_allowedIPAddressRanges config))
    (m_allowedIPAddressRanges lastConfig))"
  have old: "map (\<lambda>i. IPAddress_of_host (parseHost env i)) (m_excludedAddresses lastConfig) = ?old"
    using assms(2) by (simp add: plain_hosts_def list_all_iff)
  define s1 where "s1 = del_routes env ?old t"
  define s2 where "s2 = perform_each env ?drop s1"
  define s3 where "s3 = (if m_serverPublicKey config \<noteq> m_serverPublicKey lastConfig
    then snd (perform env (DeletePeer lastConfig) s2) else s2)"
  have t: "routes_good env t" "counted_routes t = counted_routes (snd (addExclusionRoutes env as s))"
    using same_tables_good [OF assms(5), of env] same_tables_counted [OF assms(5)] assms(3)
    by (simp_all add: exclusions.add_good)
  have "routes_good env s1" "counted_routes s1 = counted_routes s - mset ?old + mset (map (IPAddress_of env) as)"
    using exclusions.replace [OF assms(3,4) t, of ?old] assms(6)
    by (simp_all add: s1_def del_routes_fold requests_def)
  moreover have "same_tables s1 s2" unfolding s2_def by (rule same_perform_each) (simp add: list_all_iff)
  then have 3: "same_tables s1 s3" unfolding s3_def using same_perform [of "DeletePeer lastConfig" s2 env]
    by (auto intro: same_tables_trans)
  moreover have "m_connections s1 = m_connections s" using assms(5) by (simp add: s1_def same_tables_def)
  ultimately have "routes_good env s3" "m_connections s3 = m_connections s"
      "counted_routes s3 = counted_routes s - requests env lastConfig + mset (map (IPAddress_of env) as)"
    using same_tables_good [OF 3, of env] same_tables_counted [OF 3] 3
    by (simp_all add: same_tables_def requests_def)
  moreover have "fst (perform env (DeletePeer lastConfig) s2)"
    using assms(1) by (simp add: peers_deleted_def perform_def case_prod_beta)
  then have "switch_cleanup env lastConfig config t = (True, set_connection config s3)"
    unfolding switch_cleanup_def Let_def old s1_def [symmetric] s2_def [symmetric] s3_def
    by (cases "perform env (DeletePeer lastConfig) s2") simp
  ultimately show ?thesis by blast
qed

lemma switchServer_ok:
  assumes "daemon_ok env s" "peers_deleted env" "plain_hosts env config"
    and "m_connections s (m_hopType config) = Some c"
  shows "daemon_ok env (snd (switchServer env config s))"
    and "fst (switchServer env config s) \<Longrightarrow>
      m_connections (snd (switchServer env config s)) (m_hopType config) = Some (ConnectionState_new config)"
proof -
  let ?as = "m_excludedAddresses config" and ?last = "cs_config c"
  have s: "routes_good env s" "counted_routes s = wanted env s" "m_hopType ?last = m_hopType config" "plain_hosts env ?last"
    using assms(1,4) by (simp_all add: daemon_ok_def)
  define r1 where "r1 = addExclusionRoutes env ?as s"
  define r2 where "r2 = and_then (perform env (UpdatePeer config) (snd r1))
    (switch_routes env ?last (m_allowedIPAddressRanges config) [])"
  have 2: "same_tables (snd r1) (snd r2)" unfolding r2_def
    by (intro same_and_then same_switch_routes same_perform) simp
  have eq: "switchServer env config s = and_then r1 (\<lambda>s1. and_then (guard_exclusions env ?as r2) (switch_cleanup env ?last config))"
    unfolding switchServer_def Let_def r1_def [symmetric] config_of_def assms(4) option.case
    by (cases r1) (simp add: r2_def)
  have "daemon_ok env (snd (switchServer env config s)) \<and> (fst (switchServer env config s) \<longrightarrow>
      m_connections (snd (switchServer env config s)) (m_hopType config) = Some (ConnectionState_new config))"
  proof (cases "fst r1")
    case False
    then show ?thesis using same_requests_ok [OF assms(1) add_failed [OF s(1), of ?as]] by (simp add: eq r1_def)
  next
    case add: True
    show ?thesis
    proof (cases "fst r2")
      case False
      then have "same_requests env s (snd (guard_exclusions env ?as r2)) \<and> \<not> fst (guard_exclusions env ?as r2)"
        using guard_exclusions_facts [OF s(1), of ?as r2] add 2 by (simp add: r1_def same_requests_def)
      with add assms(1) show ?thesis by (auto simp: eq intro: same_requests_ok)
    next
      case True
      obtain u where u: "switch_cleanup env ?last config (snd r2) = (True, set_connection config u)"
          "routes_good env u" "m_connections u = m_connections s"
          "counted_routes u = counted_routes s - requests env ?last + requests env config"
        using switch_cleanup_facts [OF assms(2) s(4,1) _ 2 [unfolded r1_def], of config] add
          wanted_requests [OF assms(4), of env] s(2) by (auto simp: r1_def requests_def)
      have "wanted env (set_connection config u) = wanted env s - requests env ?last + requests env config"
        using wanted_set_connection [of env config u] u(3) assms(4) by (simp add: wanted_def)
      then have "daemon_ok env (set_connection config u)"
        using u(2-4) s(2) assms(1,3) by (intro daemon_ok_connect) (simp_all add: daemon_ok_def)
      moreover have "switchServer env config s = (True, set_connection config u)"
        using add True u(1) by (cases r1; cases r2) (simp add: eq guard_exclusions_def)
      ultimately show ?thesis by (simp add: set_connection_def)
    qed
  qed
  then show "daemon_ok env (snd (switchServer env config s))"
    and "fst (switchServer env config s) \<Longrightarrow>
      m_connections (snd (switchServer env config s)) (m_hopType config) = Some (ConnectionState_new config)"
    by blast+
qed

lemma set_connection_idem:
  "m_connections s (m_hopType config) = Some (ConnectionState_new config) \<Longrightarrow> set_connection config s = s"
  by (simp add: set_connection_def fun_upd_idem)

lemma activate_switch_ok:
  assumes "daemon_ok env s" "peers_deleted env" "plain_hosts env config"
    and "m_connections s (m_hopType config) = Some c"
  shows "daemon_ok env (snd (activate_switch env config s))"
proof -
  define r0 where "r0 = switchServer env config s"
  define r where "r = and_then (and_then (and_then r0 (perform env RestoreResolvers))
    (maybeUpdateResolvers env config)) (perform env (Run Switch config))"
  have 1: "same_tables (snd r0) (snd r)" unfolding r_def
    by (intro same_and_then same_resolvers same_perform) simp_all
  have 2: "daemon_ok env (snd r)"
    using switchServer_ok(1) [OF assms] same_tables_ok [OF 1, of env] by (simp add: r0_def)
  have "m_connections (snd r) (m_hopType config) = Some (ConnectionState_new config)" if "fst r"
    using that switchServer_ok(2) [OF assms] 1 by (simp add: r_def r0_def same_tables_def)
  then have "fst r \<Longrightarrow> set_connection config (snd r) = snd r" by (rule set_connection_idem)
  then show ?thesis using 2
    unfolding activate_switch_def r0_def [symmetric] r_def [symmetric] by (simp add: and_then_snd connect_snd)
qed

lemma guard_failure_ok: "daemon_ok env (snd (guard_failure r)) = daemon_ok env (snd r)"
  using same_tables_ok [OF same_emit [of ActivationFailure "snd r"], of env] by (simp add: guard_failure_def)

lemma activate_ok:
  assumes "daemon_ok env s" "peers_deleted env" "plain_hosts env config"
  shows "daemon_ok env (snd (activate env config s))"
  using assms
proof (induction env config s rule: activate.induct)
  case (1 env config s)
  have d: "daemon_ok env (snd (deactivate env False s))"
    using deactivate_facts(2) [of env s False] "1.prems"(1) by (simp add: daemon_ok_def)
  show ?case
  proof (cases "m_connections s (m_hopType config)")
    case None
    then show ?thesis using "1.prems"
      by (subst activate.simps) (simp add: guard_failure_ok activate_fresh_ok)
  next
    case (Some c)
    then show ?thesis using "1.prems" "1.IH" d
      by (subst activate.simps) (simp add: guard_failure_ok activate_switch_ok)
  qed
qed

section \<open>Handshakes\<close>

definition completed :: "QString \<Rightarrow> PeerStatus list \<Rightarrow> PeerStatus list" where
  "completed pubkey peers = filter (\<lambda>p. ps_pubkey p = pubkey \<and> ps_handshake p \<noteq> 0) peers"

lemma match_peers_eq:
  "match_peers k ps (d, s) =
     (if completed k ps = [] then d else Some (ps_handshake (last (completed k ps))),
      s\<lparr>daemon_calls := daemon_calls s @ map (\<lambda>p. (Connected k, True)) (completed k ps)\<rparr>)"
  by (induction ps arbitrary: d s) (auto simp: completed_def emit_def)

text \<open>What one poll makes of a connection.\<close>

definition shake :: "PeerStatus list \<Rightarrow> ConnectionState \<Rightarrow> ConnectionState" where
  "shake peers c =
     (let ps = completed (m_serverPublicKey (cs_config c)) peers
      in if cs_date c = None \<and> ps \<noteq> [] then c\<lparr>cs_date := Some (ps_handshake (last ps))\<rparr> else c)"

definition shake_calls :: "PeerStatus list \<Rightarrow> ConnectionState option \<Rightarrow> (daemon_call \<times> bool) list" where
  "shake_calls peers x =
     (case x of
        None \<Rightarrow> []
      | Some c \<Rightarrow> if cs_date c \<noteq> None then []
          else map (\<lambda>p. (Connected (m_serverPublicKey (cs_config c)), True))
                 (completed (m_serverPublicKey (cs_config c)) peers))"

definition pending :: "ConnectionState option \<Rightarrow> bool" where
  "pending x = (case x of None \<Rightarrow> False | Some c \<Rightarrow> cs_date c = None)"

lemma check_connections_eq:
  assumes "distinct hs"
  shows "check_connections peers hs (n, s) =
    (n + length (filter (\<lambda>h. pending (map_option (shake peers) (m_connections s h))) hs),
     s\<lparr>m_connections := (\<lambda>h. if h \<in> set hs then map_option (shake peers) (m_connections s h) else m_connections s h),
       daemon_calls := daemon_calls s @ concat (map (\<lambda>h. shake_calls peers (m_connections s h)) hs)\<rparr>)"
  using assms
proof (induction hs arbitrary: n s)
  case (Cons h hs)
  define s1 where "s1 = s\<lparr>daemon_calls := daemon_calls s @ shake_calls peers (m_connections s h),
    m_connections := (m_connections s)(h := map_option (shake peers) (m_connections s h))\<rparr>"
  define n1 where "n1 = (if pending (map_option (shake peers) (m_connections s h)) then n + 1 else n)"
  have step: "check_connections peers (h # hs) (n, s) = check_connections peers hs (n1, s1)"
    by (cases "m_connections s h")
      (auto simp: s1_def n1_def match_peers_eq shake_def shake_calls_def pending_def Let_def fun_upd_idem)
  have h: "h \<notin> set hs" using Cons.prems by simp
  then have eq: "filter (\<lambda>k. pending (map_option (shake peers) (m_connections s1 k))) hs =
      filter (\<lambda>k. pending (map_option (shake peers) (m_connections s k))) hs"
    "map (\<lambda>k. shake_calls peers (m_connections s1 k)) hs = map (\<lambda>k. shake_calls peers (m_connections s k)) hs"
    by (auto simp: s1_def intro!: filter_cong)
  have "check_connections peers hs (n1, s1) = (n1 + length (filter (\<lambda>h. pending (map_option (shake peers) (m_connections s1 h))) hs),
     s1\<lparr>m_connections := (\<lambda>h. if h \<in> set hs then map_option (shake peers) (m_connections s1 h) else m_connections s1 h),
       daemon_calls := daemon_calls s1 @ concat (map (\<lambda>h. shake_calls peers (m_connections s1 h)) hs)\<rparr>)"
    using Cons.prems by (intro Cons.IH) simp
  then show ?case unfolding step eq using h by (auto simp: s1_def n1_def fun_eq_iff)
qed simp

lemma set_hops [simp]: "set hops = UNIV" "distinct hops"
proof -
  have "h \<in> set hops" for h by (cases h) (simp_all add: hops_def)
  then show "set hops = UNIV" by blast
qed (simp add: hops_def)

lemma checkHandshake_eq:
  "checkHandshake env s =
    (let peers = peerStatus env (daemon_world s)
     in s\<lparr>m_connections := (\<lambda>h. map_option (shake peers) (m_connections s h)),
          m_handshakeTimer := (\<exists>h. pending (map_option (shake peers) (m_connections s h))),
          daemon_calls := daemon_calls s @ concat (map (\<lambda>h. shake_calls peers (m_connections s h)) hops)\<rparr>)"
proof -
  have "(\<exists>h. P h) = (0 < length (filter P hops))" for P
    by (simp add: filter_empty_conv)
  then show ?thesis by (simp add: checkHandshake_def check_connections_eq Let_def)
qed

lemma shake_config [simp]: "cs_config (shake peers c) = cs_config c"
  by (simp add: shake_def Let_def)

lemma shake_calls_neutral: "list_all (\<lambda>(c, ok). \<not> touches_routes c) (shake_calls peers x)"
  by (auto simp: shake_calls_def list_all_iff split: option.split)

lemma fold_neutral: "list_all (\<lambda>(c, ok). \<not> touches_routes c) cs \<Longrightarrow> fold route_effect cs R = R"
  by (induction cs arbitrary: R) (auto simp: route_effect_other)

lemma checkHandshake_ok: "daemon_ok env s \<Longrightarrow> daemon_ok env (checkHandshake env s)"
proof -
  assume ok: "daemon_ok env s"
  have "list_all (\<lambda>(c, b). \<not> touches_routes c) (concat (map (\<lambda>h. shake_calls peers (m_connections s h)) hops))" for peers
    using shake_calls_neutral by (fastforce simp: list_all_iff)
  then have "routes (checkHandshake env s) = routes s"
    by (simp add: checkHandshake_eq Let_def routes_def fold_neutral)
  moreover have "wanted env (checkHandshake env s) = wanted env s"
    by (simp add: wanted_def hops_def checkHandshake_eq Let_def split: option.split)
  ultimately show ?thesis using ok
    by (auto simp: daemon_ok_def routes_good_def table_ok_def counted_routes_def checkHandshake_eq Let_def)
qed

section \<open>Reachable states\<close>

text \<open>The requests a client makes, in any order, and the timer; excluded addresses are single hosts.\<close>

inductive daemon_reachable :: "('w, 'e) daemon_env_scheme \<Rightarrow> 'w Daemon \<Rightarrow> bool" for env where
  start: "daemon_reachable env (Daemon_new w)"
| activated: "daemon_reachable env s \<Longrightarrow> plain_hosts env config \<Longrightarrow>
    daemon_reachable env (snd (activate env config s))"
| deactivated: "daemon_reachable env s \<Longrightarrow> daemon_reachable env (snd (deactivate env b s))"
| timeout: "daemon_reachable env s \<Longrightarrow> daemon_reachable env (checkHandshake env s)"

lemma daemon_ok_new: "deletes_succeed env \<Longrightarrow> order_ok env \<Longrightarrow> daemon_ok env (Daemon_new w)"
  by (simp add: daemon_ok_def routes_good_def table_ok_def Daemon_new_def counted_routes_def wanted_def
      hops_def routes_def)

lemma reachable_daemon_ok:
  assumes "daemon_reachable env s" "deletes_succeed env" "order_ok env" "peers_deleted env"
  shows "daemon_ok env s"
  using assms(1)
proof induction
  case (deactivated s b)
  then show ?case using deactivate_facts(2) [of env s b] by (simp add: daemon_ok_def)
qed (simp_all add: daemon_ok_new activate_ok checkHandshake_ok assms(2-4))

section \<open>Signals of an activation\<close>

text \<open>Steps that do not signal a failed activation.\<close>

definition no_failure :: "'w Daemon \<Rightarrow> 'w Daemon \<Rightarrow> bool" where
  "no_failure s s' =
     (\<exists>new. daemon_calls s' = daemon_calls s @ new \<and> list_all (\<lambda>(c, ok). c \<noteq> ActivationFailure) new)"

lemma no_failure_same [intro, simp]: "daemon_calls s' = daemon_calls s \<Longrightarrow> no_failure s s'"
  by (simp add: no_failure_def)

lemma no_failure_trans [trans]: "no_failure s t \<Longrightarrow> no_failure t u \<Longrightarrow> no_failure s u"
  by (fastforce simp: no_failure_def)

lemma no_failure_perform: "c \<noteq> ActivationFailure \<Longrightarrow> no_failure s (snd (perform env c s))"
  by (simp add: no_failure_def perform_def case_prod_beta)

lemma no_failure_emit: "c \<noteq> ActivationFailure \<Longrightarrow> no_failure s (emit c s)"
  by (simp add: no_failure_def emit_def)

lemma no_failure_and_then:
  "no_failure s (snd r) \<Longrightarrow> (\<And>t. no_failure t (snd (f t))) \<Longrightarrow> no_failure s (snd (and_then r f))"
  by (auto simp: and_then_snd intro: no_failure_trans)

lemma no_failure_perform_all:
  "list_all (\<lambda>c. c \<noteq> ActivationFailure) cs \<Longrightarrow> no_failure s (snd (perform_all env cs s))"
proof (induction cs arbitrary: s)
  case (Cons c cs)
  then show ?case by (auto intro!: no_failure_and_then no_failure_perform)
qed simp

lemma no_failure_perform_each:
  "list_all (\<lambda>c. c \<noteq> ActivationFailure) cs \<Longrightarrow> no_failure s (perform_each env cs s)"
proof (induction cs arbitrary: s)
  case (Cons c cs)
  then show ?case using no_failure_perform [of c s env] by (auto intro: no_failure_trans)
qed simp

lemma no_failure_update [simp]:
  "no_failure s (t\<lparr>m_excludedAddrSet := h\<rparr>) = no_failure s t" "no_failure s (t\<lparr>m_connections := m\<rparr>) = no_failure s t"
  "no_failure s (t\<lparr>m_handshakeTimer := b\<rparr>) = no_failure s t"
  "no_failure (s\<lparr>m_excludedAddrSet := h\<rparr>) t = no_failure s t"
  by (simp_all add: no_failure_def)

lemma no_failure_add: "no_failure s (snd (addExclusionRoutes env as s))"
proof -
  have loop: "no_failure s (snd (add_routes_loop env ps added s))" for ps added s
  proof (induction ps arbitrary: added s)
    case (Cons p ps)
    let ?s1 = "snd (perform env (AddExclusionRoute p) s)"
    have "no_failure s ?s1" by (simp add: no_failure_perform)
    moreover have "no_failure ?s1 (perform_each env (map DeleteExclusionRoute added) ?s1)"
      by (rule no_failure_perform_each) (simp add: list_all_iff)
    ultimately show ?case using Cons by (auto simp: case_prod_beta intro: no_failure_trans)
  qed simp
  have "no_failure s (snd (wg_addExclusionRoutes env ps s))" for ps
    by (simp add: wg_addExclusionRoutes_def loop no_failure_perform)
  then show ?thesis by (auto simp: addExclusionRoutes_def Let_def intro!: no_failure_and_then)
qed

lemma no_failure_del: "no_failure s (del_routes env ps s)"
proof (induction ps arbitrary: s)
  case (Cons p ps)
  have "no_failure s (snd (perform env (DeleteExclusionRoute p) (s\<lparr>m_excludedAddrSet := h\<rparr>)))" for h
    using no_failure_perform [of "DeleteExclusionRoute p" "s\<lparr>m_excludedAddrSet := h\<rparr>" env] by simp
  then have "no_failure s (snd (delExclusionRoute env p s))"
    by (simp add: delExclusionRoute_def Let_def and_then_snd)
  with Cons show ?case by (auto intro: no_failure_trans)
qed simp

lemma no_failure_guard: "no_failure s (snd r) \<Longrightarrow> no_failure s (snd (guard_exclusions env as r))"
  by (auto simp: guard_exclusions_def intro: no_failure_trans no_failure_del)

lemma no_failure_connect: "no_failure s (set_connection config t) = no_failure s t" "no_failure s (snd (connect config s))"
  by (simp_all add: set_connection_def connect_snd)

lemma no_failure_resolvers: "no_failure s (snd (maybeUpdateResolvers env config s))"
  by (simp add: maybeUpdateResolvers_def no_failure_perform)

lemma no_failure_switch_routes: "no_failure s (snd (switch_routes env lastConfig ips updated s))"
proof (induction ips arbitrary: updated s)
  case (Cons ip ips)
  let ?s1 = "snd (perform env (UpdateRoutePrefix ip) s)"
  let ?s2 = "perform_each env (map DeleteRoutePrefix
    (filter (\<lambda>p. p \<notin> set (m_allowedIPAddressRanges lastConfig)) updated)) ?s1"
  have 1: "no_failure s ?s1" by (simp add: no_failure_perform)
  have "no_failure ?s1 ?s2" by (rule no_failure_perform_each) (simp add: list_all_iff)
  moreover have "no_failure ?s2 (snd (perform env (UpdatePeer lastConfig) ?s2))" by (simp add: no_failure_perform)
  ultimately show ?case using 1 Cons by (auto simp: case_prod_beta intro: no_failure_trans)
qed simp

lemma no_failure_switch_cleanup: "no_failure s (snd (switch_cleanup env lastConfig config s))"
proof -
  define s1 where "s1 = del_routes env (map (\<lambda>i. IPAddress_of_host (parseHost env i)) (m_excludedAddresses lastConfig)) s"
  define s2 where "s2 = perform_each env (map DeleteRoutePrefix
    (filter (\<lambda>p. p \<notin> set (m_allowedIPAddressRanges config)) (m_allowedIPAddressRanges lastConfig))) s1"
  have "no_failure s s1" by (simp add: s1_def no_failure_del)
  also have "no_failure s1 s2" unfolding s2_def by (rule no_failure_perform_each) (simp add: list_all_iff)
  finally have "no_failure s s2" .
  then show ?thesis
    unfolding switch_cleanup_def Let_def s1_def [symmetric] s2_def [symmetric]
    by (intro no_failure_and_then) (auto simp: no_failure_connect intro: no_failure_trans no_failure_perform)
qed

lemma no_failure_switchServer: "no_failure s (snd (switchServer env config s))"
  unfolding switchServer_def Let_def
  by (intro no_failure_and_then no_failure_add no_failure_guard no_failure_switch_cleanup
      no_failure_switch_routes no_failure_perform) simp

lemma no_failure_activate_switch: "no_failure s (snd (activate_switch env config s))"
  unfolding activate_switch_def
  by (intro no_failure_and_then no_failure_switchServer no_failure_resolvers no_failure_perform
      no_failure_connect) simp_all

lemma no_failure_activate_fresh: "no_failure s (snd (activate_fresh env config s))"
proof -
  have "no_failure t (snd (bring_up env config t))" for t
    unfolding bring_up_def
    by (intro no_failure_and_then no_failure_perform_all) (simp_all add: no_failure_perform)
  then have "no_failure s (snd (bring_up env config (snd (perform env (PrepareActivation config) s))))"
    by (rule no_failure_trans [OF no_failure_perform, rotated]) simp
  then show ?thesis unfolding activate_fresh_def
    by (intro no_failure_and_then no_failure_add no_failure_guard no_failure_resolvers
        no_failure_perform_all no_failure_perform no_failure_connect) (simp_all add: list_all_iff)
qed

lemma no_failure_deactivate: "no_failure s (snd (deactivate env b s))"
proof -
  have "no_failure t (snd (run_down env t))" for t
    by (simp add: run_down_def no_failure_perform split: list.split)
  moreover have "no_failure t (snd (teardown env b t))" for t
  proof -
    define s2 where "s2 = (if b then emit Disconnected t else t)"
    define s3 where "s3 = snd (perform env RestoreResolvers s2)"
    define s4 where "s4 = perform_each env (concat (map (peer_cleanup \<circ> cs_config) (connections s3))) s3"
    define s5 where "s5 = perform_each env
      (map DeleteExclusionRoute (hash_order env (map fst (m_excludedAddrSet s4)))) s4"
    define s6 where "s6 = s5\<lparr>m_excludedAddrSet := [], m_connections := (\<lambda>h. None)\<rparr>"
    have "no_failure t s2" by (simp add: s2_def no_failure_emit)
    also have "no_failure s2 s3" by (simp add: s3_def no_failure_perform)
    also have "no_failure s3 s4" unfolding s4_def
      by (rule no_failure_perform_each) (auto simp: list_all_iff peer_cleanup_def)
    also have "no_failure s4 s5" unfolding s5_def by (rule no_failure_perform_each) (simp add: list_all_iff)
    also have "no_failure s5 s6" by (simp add: s6_def no_failure_def)
    also have "no_failure s6 (snd (perform env DeleteInterface s6))" by (simp add: no_failure_perform)
    finally show ?thesis unfolding teardown_def s6_def s5_def s4_def s3_def s2_def Let_def .
  qed
  ultimately show ?thesis unfolding deactivate_def by (intro no_failure_and_then) simp_all
qed

lemma connected_after:
  assumes "fst (and_then r (connect config))"
  shows "m_connections (snd (and_then r (connect config))) (m_hopType config) = Some (ConnectionState_new config) \<and>
    m_handshakeTimer (snd (and_then r (connect config)))"
  using assms by (simp add: connect_snd set_connection_def)

lemma activate_fresh_connected:
  assumes "fst (activate_fresh env config s)"
  shows "m_connections (snd (activate_fresh env config s)) (m_hopType config) = Some (ConnectionState_new config) \<and>
    m_handshakeTimer (snd (activate_fresh env config s))"
  using assms unfolding activate_fresh_def guard_exclusions_def
  by (simp add: connect_snd set_connection_def split: if_splits)

lemma activate_switch_connected:
  assumes "fst (activate_switch env config s)"
  shows "m_connections (snd (activate_switch env config s)) (m_hopType config) = Some (ConnectionState_new config) \<and>
    m_handshakeTimer (snd (activate_switch env config s))"
  using assms unfolding activate_switch_def by (rule connected_after)

text \<open>What an attempt to activate reports, relative to the state it started from.\<close>

definition activation_reported :: "InterfaceConfig \<Rightarrow> 'w Daemon \<Rightarrow> bool \<times> 'w Daemon \<Rightarrow> bool" where
  "activation_reported config s r =
     (\<exists>new. daemon_calls (snd r) = daemon_calls s @ new \<and>
       (if fst r
        then list_all (\<lambda>(c, ok). c \<noteq> ActivationFailure) new \<and> m_handshakeTimer (snd r) \<and>
          m_connections (snd r) (m_hopType config) = Some (ConnectionState_new config)
        else new \<noteq> [] \<and> last new = (ActivationFailure, True)))"

lemma reported_guard:
  assumes "no_failure s (snd r)" and "fst r \<Longrightarrow> m_handshakeTimer (snd r) \<and>
    m_connections (snd r) (m_hopType config) = Some (ConnectionState_new config)"
  shows "activation_reported config s (guard_failure r)"
  using assms by (auto simp: activation_reported_def guard_failure_def no_failure_def emit_def)

lemma reported_again:
  assumes "no_failure s t" "activation_reported config t r"
  shows "activation_reported config s (guard_failure r)"
proof -
  obtain new1 where 1: "daemon_calls t = daemon_calls s @ new1" "list_all (\<lambda>(c, ok). c \<noteq> ActivationFailure) new1"
    using assms(1) by (auto simp: no_failure_def)
  obtain new2 where 2: "daemon_calls (snd r) = daemon_calls t @ new2"
      "if fst r then list_all (\<lambda>(c, ok). c \<noteq> ActivationFailure) new2 \<and> m_handshakeTimer (snd r) \<and>
          m_connections (snd r) (m_hopType config) = Some (ConnectionState_new config)
        else new2 \<noteq> [] \<and> last new2 = (ActivationFailure, True)"
    using assms(2) by (auto simp: activation_reported_def)
  then show ?thesis using 1 by (cases "fst r") (auto simp: activation_reported_def guard_failure_def emit_def)
qed

lemma activate_reported: "activation_reported config s (activate env config s)"
proof (induction env config s rule: activate.induct)
  case (1 env config s)
  have fresh: "activation_reported config s (guard_failure (activate_fresh env config s))"
    by (rule reported_guard [OF no_failure_activate_fresh]) (simp add: activate_fresh_connected)
  have switch: "activation_reported config s (guard_failure (activate_switch env config s))"
    by (rule reported_guard [OF no_failure_activate_switch]) (simp add: activate_switch_connected)
  have down: "\<not> fst (deactivate env False s) \<Longrightarrow> activation_reported config s (guard_failure (deactivate env False s))"
    by (rule reported_guard [OF no_failure_deactivate]) simp
  show ?case
  proof (cases "m_connections s (m_hopType config) \<noteq> None \<and> \<not> supportServerSwitching config s \<and> fst (deactivate env False s)")
    case True
    then have "activation_reported config (snd (deactivate env False s)) (activate env config (snd (deactivate env False s)))"
      by (intro "1.IH") auto
    from reported_again [OF no_failure_deactivate this] True show ?thesis by (subst activate.simps) simp
  next
    case False
    with fresh switch down show ?thesis by (subst activate.simps) auto
  qed
qed

section \<open>Properties\<close>

text \<open>
  An instance: the platform accepts every call except those of a given kind, the only host
  that parses is \<open>1.1.1.1\<close> and the only subnet is \<open>10.0.0.0/8\<close>.
\<close>

definition example_daemon_env :: "(daemon_call \<Rightarrow> bool) \<Rightarrow> unit daemon_env" where
  "example_daemon_env fails =
     \<lparr>os_windows = False,
      parseHost = (\<lambda>t. if t = ''1.1.1.1'' then HostV4 0x01010101 else NullAddress),
      parseSubnet = (\<lambda>t. (HostV4 0x0A000000, 8)), hostToString = (\<lambda>a. ''''), hopTypeKey = (\<lambda>t. Some SingleHop),
      hopTypeName = (\<lambda>h. ''SingleHop''), empty_is_null = True, int_overflow = (\<lambda>x. 0), std_sort = (\<lambda>xs. xs),
      platform = (\<lambda>c w. (\<not> fails c, w)), interfaceExists = (\<lambda>w. False), interfaceName = ''amn0'',
      peerStatus = (\<lambda>w. [\<lparr>ps_pubkey = ''key'', ps_handshake = 7, ps_rxBytes = 0, ps_txBytes = 0\<rparr>]),
      supportIPUtils = True, batches = False, hash_order = (\<lambda>ks. ks), dateToString = (\<lambda>d. '''')\<rparr>"

definition accepting_env :: "unit daemon_env" where
  "accepting_env = example_daemon_env (\<lambda>c. False)"

definition no_peer_env :: "unit daemon_env" where
  "no_peer_env = example_daemon_env (\<lambda>c. case c of UpdatePeer x \<Rightarrow> True | _ \<Rightarrow> False)"

definition excluding :: "QString list \<Rightarrow> InterfaceConfig" where
  "excluding as = (InterfaceConfig_new SingleHop False)\<lparr>m_serverPublicKey := ''key'', m_excludedAddresses := as\<rparr>"

lemma example_platform:
  "deletes_succeed accepting_env" "order_ok accepting_env" "peers_deleted accepting_env"
  "deletes_succeed no_peer_env" "order_ok no_peer_env" "plain_hosts accepting_env (excluding [''1.1.1.1''])"
  by (simp_all add: deletes_succeed_def order_ok_def peers_deleted_def accepting_env_def no_peer_env_def
      example_daemon_env_def plain_hosts_def excluding_def IPAddress_of_def IPAddress_of_string_def IPAddress_of_host_def)



text \<open>
  C21: an activation reports truthfully. It returns true exactly if it has not signalled a
  failure; then the tunnel is registered with a pending handshake and the poll is running.
  Otherwise the failure signal is its last call.
\<close>

theorem activate_outcome:
  "\<exists>new. daemon_calls (snd (activate env config s)) = daemon_calls s @ new \<and>
    (if fst (activate env config s)
     then list_all (\<lambda>(c, ok). c \<noteq> ActivationFailure) new \<and> m_handshakeTimer (snd (activate env config s)) \<and>
       m_connections (snd (activate env config s)) (m_hopType config) = Some (ConnectionState_new config)
     else new \<noteq> [] \<and> last new = (ActivationFailure, True))"
  using activate_reported [of config s env] by (simp only: activation_reported_def)

text \<open>
  C14: a failed activation of a new tunnel takes back its exclusions: the registered tunnels,
  the counters and the installed exclusion routes are those from before.
\<close>

theorem failed_activation_undone:
  assumes "deletes_succeed env" "order_ok env" "table_ok s"
    and "m_connections s (m_hopType config) = None" "\<not> fst (activate env config s)"
  shows "m_connections (snd (activate env config s)) = m_connections s \<and>
    counted_routes (snd (activate env config s)) = counted_routes s \<and>
    routes (snd (activate env config s)) = routes s"
proof -
  let ?r = "activate_fresh env config s"
  have g: "routes_good env s" using assms(1-3) by (simp add: routes_good_def)
  have eq: "activate env config s = guard_failure ?r" using assms(4) by (subst activate.simps) simp
  then have "\<not> fst ?r" using assms(5) by (auto simp: guard_failure_def)
  with activate_fresh_facts [OF g, of config] have r: "same_requests env s (snd ?r)"
    "activate env config s = (False, emit ActivationFailure (snd ?r))" by (simp_all add: eq guard_failure_def)
  have e: "same_tables (snd ?r) (emit ActivationFailure (snd ?r))" by (simp add: same_emit)
  have "routes (snd ?r) = set_mset (counted_routes (snd ?r))" "routes s = set_mset (counted_routes s)"
    using r(1) g by (simp_all add: same_requests_def routes_good_def table_ok_routes)
  with r e same_tables_counted [OF e] show ?thesis by (simp add: same_requests_def same_tables_def)
qed

theorem failed_activation_undone_witness:
  "routes (snd (activate no_peer_env (excluding [''1.1.1.1'']) (Daemon_new ()))) = {}"
proof -
  have "\<not> fst (activate no_peer_env (excluding [''1.1.1.1'']) (Daemon_new ()))"
    "m_connections (Daemon_new ()) (m_hopType (excluding [''1.1.1.1''])) = None"
    "table_ok (Daemon_new ())" "routes (Daemon_new ()) = {}"
    by (code_simp, simp_all add: Daemon_new_def table_ok_def routes_def)
  then show ?thesis
    using failed_activation_undone [OF example_platform(4,5), of "Daemon_new ()" "excluding [''1.1.1.1'']"] by simp
qed


text \<open>
  One poll for handshakes. A pending tunnel gets the date of the handshake exactly if
  its peer reports one, every other tunnel is unchanged, the signal \<open>connected\<close> is sent
  for exactly the keys of the tunnels that got a date, and the poll is repeated exactly as
  long as a tunnel is pending.
\<close>

theorem handshake_poll:
  "\<exists>new. daemon_calls (checkHandshake env s) = daemon_calls s @ new \<and>
    set new = {(Connected (m_serverPublicKey (cs_config c)), True) | c h.
      m_connections s h = Some c \<and> cs_date c = None \<and>
      completed (m_serverPublicKey (cs_config c)) (peerStatus env (daemon_world s)) \<noteq> []} \<and>
    (\<forall>h. m_connections (checkHandshake env s) h =
       map_option (shake (peerStatus env (daemon_world s))) (m_connections s h)) \<and>
    (m_handshakeTimer (checkHandshake env s) \<longleftrightarrow>
       (\<exists>h c. m_connections (checkHandshake env s) h = Some c \<and> cs_date c = None))"
proof -
  let ?peers = "peerStatus env (daemon_world s)"
  let ?new = "concat (map (\<lambda>h. shake_calls ?peers (m_connections s h)) hops)"
  have 1: "set (shake_calls ?peers (m_connections s h)) = {(Connected (m_serverPublicKey (cs_config c)), True) | c.
      m_connections s h = Some c \<and> cs_date c = None \<and> completed (m_serverPublicKey (cs_config c)) ?peers \<noteq> []}" for h
    by (cases "m_connections s h")
      (auto simp: shake_calls_def image_constant_conv split: if_splits)
  have "set ?new = {(Connected (m_serverPublicKey (cs_config c)), True) | c h.
      m_connections s h = Some c \<and> cs_date c = None \<and> completed (m_serverPublicKey (cs_config c)) ?peers \<noteq> []}"
    unfolding set_concat set_map set_hops by (auto simp: 1)
  moreover have "pending x \<longleftrightarrow> (\<exists>c. x = Some c \<and> cs_date c = None)" for x
    by (simp add: pending_def split: option.split)
  ultimately show ?thesis by (intro exI [of _ ?new]) (simp add: checkHandshake_eq Let_def)
qed

end
