(* ===== verification/App_Settings.thy ===== *)
theory App_Settings
  imports Settings_Store "HOL-Library.List_Lexorder" "HOL-Library.Char_ord"
begin

text \<open>
  \<^verbatim>\<open>client/core/repositories/secureAppSettingsRepository.cpp\<close>: the typed preferences over the settings
  store, among them the lists of sites and applications of split tunnelling. None of these
  preferences is encrypted. Emitted signals are recorded in order.
\<close>

section \<open>Preferences that are not encrypted\<close>

text \<open>The interface of the store for such a key: it has a value or not, and writing another key does not change it.\<close>

locale plain_store =
  fixes get :: "'s \<Rightarrow> QString \<Rightarrow> QVariant \<Rightarrow> QVariant \<times> 's"
    and put :: "'s \<Rightarrow> QString \<Rightarrow> QVariant \<Rightarrow> 's"
    and stored :: "'s \<Rightarrow> QString \<Rightarrow> QVariant option"
    and plain :: "QString \<Rightarrow> bool"
    and ok :: "'s \<Rightarrow> bool"
  assumes get_stored: "ok s \<Longrightarrow> plain k \<Longrightarrow> fst (get s k d) = (case stored s k of None \<Rightarrow> d | Some v \<Rightarrow> v)"
    and get_keeps: "ok s \<Longrightarrow> plain k \<Longrightarrow> plain k' \<Longrightarrow> stored (snd (get s k d)) k' = stored s k'"
    and get_ok: "ok s \<Longrightarrow> plain k \<Longrightarrow> ok (snd (get s k d))"
    and put_stored: "plain k \<Longrightarrow> plain k' \<Longrightarrow> stored (put s k v) k' = (if k' = k then Some v else stored s k')"
    and put_plain_ok: "ok s \<Longrightarrow> plain k \<Longrightarrow> ok (put s k v)"
begin

lemma read_back: "ok s \<Longrightarrow> plain k \<Longrightarrow> fst (get (put s k v) k d) = v"
  by (simp add: get_stored put_stored put_plain_ok)

lemma read_other:
  "ok s \<Longrightarrow> plain k \<Longrightarrow> plain k' \<Longrightarrow> k' \<noteq> k \<Longrightarrow> fst (get (put s k v) k' d) = fst (get s k' d)"
  by (simp add: get_stored put_stored put_plain_ok)

lemma read_twice:
  "ok s \<Longrightarrow> plain k \<Longrightarrow> plain k' \<Longrightarrow> fst (get (snd (get s k d)) k' d') = fst (get s k' d')"
  by (simp add: get_stored get_keeps get_ok)

end

definition plain_key :: "QString \<Rightarrow> bool" where
  "plain_key k = (k \<notin> set encryptedKeys)"

definition plain_value :: "SecureQSettings \<Rightarrow> QString \<Rightarrow> QVariant option" where
  "plain_value s k = (case m_cache s k of None \<Rightarrow> map_of (m_settings s) k | Some v \<Rightarrow> Some v)"

text \<open>A value that was written in plain text does not look encrypted.\<close>

definition plain_ok :: "SecureQSettings \<Rightarrow> bool" where
  "plain_ok s = (\<forall>k v. plain_key k \<longrightarrow> m_cache s k = None \<longrightarrow> map_of (m_settings s) k = Some v \<longrightarrow> \<not> has_magic v)"

lemma plain_okD:
  "plain_ok s \<Longrightarrow> plain_key k \<Longrightarrow> m_cache s k = None \<Longrightarrow> map_of (m_settings s) k = Some v \<Longrightarrow> \<not> has_magic v"
  by (simp add: plain_ok_def)

lemma settings_value_plain:
  assumes "plain_ok s" "plain_key k"
  shows "settings_value env k d s =
    (case plain_value s k of
       None \<Rightarrow> (d, s)
     | Some v \<Rightarrow> (v, if m_cache s k = None then s\<lparr>m_cache := (m_cache s)(k \<mapsto> v)\<rparr> else s))"
  using plain_okD [OF assms] by (auto simp: settings_value_def plain_value_def split: option.split)

lemma setValue_plain_key:
  "plain_key k \<Longrightarrow>
   setValue env k v s = s\<lparr>m_settings := AList.update k v (m_settings s), m_cache := (m_cache s)(k \<mapsto> v)\<rparr>"
  by (simp add: setValue_def plain_key_def)

interpretation prefs: plain_store
  "\<lambda>s k d. settings_value env k d s" "\<lambda>s k v. setValue env k v s" plain_value plain_key plain_ok
  for env :: "'e settings_env_scheme"
proof unfold_locales
  fix s k k' v d
  show "plain_ok s \<Longrightarrow> plain_key k \<Longrightarrow>
      fst (settings_value env k d s) = (case plain_value s k of None \<Rightarrow> d | Some v \<Rightarrow> v)"
    by (simp add: settings_value_plain split: option.split)
  show "plain_ok s \<Longrightarrow> plain_key k \<Longrightarrow> plain_value (snd (settings_value env k d s)) k' = plain_value s k'"
    by (auto simp: settings_value_plain plain_value_def split: option.split)
  show "plain_ok s \<Longrightarrow> plain_key k \<Longrightarrow> plain_ok (snd (settings_value env k d s))"
    by (auto simp: settings_value_plain plain_ok_def split: option.split)
  show "plain_key k \<Longrightarrow> plain_value (setValue env k v s) k' = (if k' = k then Some v else plain_value s k')"
    by (simp add: setValue_plain_key plain_value_def update_conv' split: option.split)
  show "plain_ok s \<Longrightarrow> plain_key k \<Longrightarrow> plain_ok (setValue env k v s)"
    by (auto simp: setValue_plain_key plain_ok_def update_conv')
qed

section \<open>The repository\<close>

text \<open>An enumeration read from a stored number may have a value without a name.\<close>

datatype RouteMode = VpnAllSites | VpnOnlyForwardSites | VpnAllExceptSites | OtherRouteMode int

datatype AppsRouteMode = VpnAllApps | VpnOnlyForwardApps | VpnAllExceptApps | OtherAppsRouteMode int

record InstalledAppInfo =
  appName :: QString
  packageName :: QString
  appPath :: QString

definition same_app :: "InstalledAppInfo \<Rightarrow> InstalledAppInfo \<Rightarrow> bool" where
  "same_app a b = (if packageName a \<noteq> '''' then packageName a = packageName b else appPath a = appPath b)"

datatype app_signal =
    UseAmneziaDnsChanged bool | AllowedDnsServersChanged "QString list" | RouteModeChanged RouteMode
  | SitesChanged RouteMode | SitesSplitTunnelingEnabledChanged bool | AppsRouteModeChanged AppsRouteMode
  | AppsChanged AppsRouteMode | AppsSplitTunnelingEnabledChanged bool | ScreenshotsEnabledChanged bool
  | SaveLogsChanged bool | SettingsCleared

record AppSettings =
  app_store :: SecureQSettings
  m_gatewayEndpoint :: QString
  app_signals :: "app_signal list"

definition app_value ::
  "'e settings_env_scheme \<Rightarrow> QString \<Rightarrow> QVariant \<Rightarrow> AppSettings \<Rightarrow> QVariant \<times> AppSettings" where
  "app_value env key d s =
     (let (v, st) = settings_value env key d (app_store s) in (v, s\<lparr>app_store := st\<rparr>))"

definition app_setValue ::
  "'e settings_env_scheme \<Rightarrow> QString \<Rightarrow> QVariant \<Rightarrow> AppSettings \<Rightarrow> AppSettings" where
  "app_setValue env key v s = s\<lparr>app_store := setValue env key v (app_store s)\<rparr>"

definition app_emit :: "app_signal \<Rightarrow> AppSettings \<Rightarrow> AppSettings" where
  "app_emit sg s = s\<lparr>app_signals := app_signals s @ [sg]\<rparr>"

section \<open>Preferences\<close>

definition gatewayEndpoint :: QString where
  "gatewayEndpoint = ''http://gw.amnezia.org:80/''"

definition open_app_settings :: "'e settings_env_scheme \<Rightarrow> SecureQSettings \<Rightarrow> AppSettings" where
  "open_app_settings env store =
     (let (v, s) = app_value env ''Conf/gatewayEndpoint'' (VString gatewayEndpoint)
            \<lparr>app_store = store, m_gatewayEndpoint = '''', app_signals = []\<rparr>;
          storedEndpoint = variant_toString v
      in s\<lparr>m_gatewayEndpoint := (if storedEndpoint = '''' then gatewayEndpoint else storedEndpoint)\<rparr>)"

definition bool_setting ::
  "'e settings_env_scheme \<Rightarrow> QString \<Rightarrow> bool \<Rightarrow> AppSettings \<Rightarrow> bool \<times> AppSettings" where
  "bool_setting env key d s = (let (v, s1) = app_value env key (VBool d) s in (variant_toBool v, s1))"

definition useAmneziaDns :: "'e settings_env_scheme \<Rightarrow> AppSettings \<Rightarrow> bool \<times> AppSettings" where
  "useAmneziaDns env = bool_setting env ''Conf/useAmneziaDns'' True"

definition setUseAmneziaDns :: "'e settings_env_scheme \<Rightarrow> bool \<Rightarrow> AppSettings \<Rightarrow> AppSettings" where
  "setUseAmneziaDns env enabled s =
     app_emit (UseAmneziaDnsChanged enabled) (app_setValue env ''Conf/useAmneziaDns'' (VBool enabled) s)"

definition getAllowedDnsServers :: "'e settings_env_scheme \<Rightarrow> AppSettings \<Rightarrow> QString list \<times> AppSettings" where
  "getAllowedDnsServers env s =
     (let (v, s1) = app_value env ''Conf/allowedDnsServers'' VInvalid s in (variant_toStringList v, s1))"

definition setAllowedDnsServers :: "'e settings_env_scheme \<Rightarrow> QString list \<Rightarrow> AppSettings \<Rightarrow> AppSettings" where
  "setAllowedDnsServers env servers s =
     app_emit (AllowedDnsServersChanged servers)
       (app_setValue env ''Conf/allowedDnsServers'' (VStringList servers) s)"

definition string_setting ::
  "'e settings_env_scheme \<Rightarrow> QString \<Rightarrow> QString \<Rightarrow> AppSettings \<Rightarrow> QString \<times> AppSettings" where
  "string_setting env key d s = (let (v, s1) = app_value env key (VString d) s in (variant_toString v, s1))"

definition primaryDns :: "'e settings_env_scheme \<Rightarrow> AppSettings \<Rightarrow> QString \<times> AppSettings" where
  "primaryDns env = string_setting env ''Conf/primaryDns'' ''1.1.1.1''"

definition setPrimaryDns :: "'e settings_env_scheme \<Rightarrow> QString \<Rightarrow> AppSettings \<Rightarrow> AppSettings" where
  "setPrimaryDns env dns = app_setValue env ''Conf/primaryDns'' (VString dns)"

definition secondaryDns :: "'e settings_env_scheme \<Rightarrow> AppSettings \<Rightarrow> QString \<times> AppSettings" where
  "secondaryDns env = string_setting env ''Conf/secondaryDns'' ''1.0.0.1''"

definition setSecondaryDns :: "'e settings_env_scheme \<Rightarrow> QString \<Rightarrow> AppSettings \<Rightarrow> AppSettings" where
  "setSecondaryDns env dns = app_setValue env ''Conf/secondaryDns'' (VString dns)"

definition isKillSwitchEnabled :: "'e settings_env_scheme \<Rightarrow> AppSettings \<Rightarrow> bool \<times> AppSettings" where
  "isKillSwitchEnabled env = bool_setting env ''Conf/killSwitchEnabled'' True"

definition setKillSwitchEnabled :: "'e settings_env_scheme \<Rightarrow> bool \<Rightarrow> AppSettings \<Rightarrow> AppSettings" where
  "setKillSwitchEnabled env enabled = app_setValue env ''Conf/killSwitchEnabled'' (VBool enabled)"

definition isStrictKillSwitchEnabled :: "'e settings_env_scheme \<Rightarrow> AppSettings \<Rightarrow> bool \<times> AppSettings" where
  "isStrictKillSwitchEnabled env = bool_setting env ''Conf/strictKillSwitchEnabled'' False"

definition setStrictKillSwitchEnabled :: "'e settings_env_scheme \<Rightarrow> bool \<Rightarrow> AppSettings \<Rightarrow> AppSettings" where
  "setStrictKillSwitchEnabled env enabled = app_setValue env ''Conf/strictKillSwitchEnabled'' (VBool enabled)"

text \<open>A new identifier is drawn by the caller with its braces.\<close>

definition strip_ends :: "QString \<Rightarrow> QString" where
  "strip_ends s = butlast (tl s)"

definition getInstallationUuid ::
  "'e settings_env_scheme \<Rightarrow> QString \<Rightarrow> bool \<Rightarrow> AppSettings \<Rightarrow> QString \<times> AppSettings" where
  "getInstallationUuid env fresh createIfNotExists s =
     (let (uuid, s1) = string_setting env ''Conf/installationUuid'' '''' s in
      if createIfNotExists \<and> uuid = ''''
      then (strip_ends fresh, app_setValue env ''Conf/installationUuid'' (VString (strip_ends fresh)) s1)
      else if CHR ''{'' \<in> set uuid \<and> CHR ''}'' \<in> set uuid
      then (strip_ends uuid, app_setValue env ''Conf/installationUuid'' (VString (strip_ends uuid)) s1)
      else (uuid, s1))"

definition setInstallationUuid :: "'e settings_env_scheme \<Rightarrow> QString \<Rightarrow> AppSettings \<Rightarrow> AppSettings" where
  "setInstallationUuid env uuid = app_setValue env ''Conf/installationUuid'' (VString uuid)"

definition app_clearSettings :: "'e settings_env_scheme \<Rightarrow> AppSettings \<Rightarrow> AppSettings" where
  "app_clearSettings env s =
     (let (uuid, s1) = getInstallationUuid env '''' False s;
          s2 = s1\<lparr>app_store := clearSettings (app_store s1)\<rparr>
      in app_emit SettingsCleared (app_setValue env ''Conf/installationUuid'' (VString uuid) s2))"

section \<open>Sites\<close>

type_synonym site_list = "(QString \<times> QString list) list"

fun routeModeString :: "RouteMode \<Rightarrow> QString" where
  "routeModeString VpnAllSites = ''AllSites''"
| "routeModeString VpnOnlyForwardSites = ''ForwardSites''"
| "routeModeString VpnAllExceptSites = ''ExceptSites''"
| "routeModeString (OtherRouteMode i) = ''''"

definition routeMode_key :: "RouteMode \<Rightarrow> QString" where
  "routeMode_key mode = ''Conf/'' @ routeModeString mode"

fun routeMode_int :: "RouteMode \<Rightarrow> int" where
  "routeMode_int VpnAllSites = 0"
| "routeMode_int VpnOnlyForwardSites = 1"
| "routeMode_int VpnAllExceptSites = 2"
| "routeMode_int (OtherRouteMode i) = i"

definition routeMode_of_int :: "int \<Rightarrow> RouteMode" where
  "routeMode_of_int i =
     (if i = 0 then VpnAllSites else if i = 1 then VpnOnlyForwardSites
      else if i = 2 then VpnAllExceptSites else OtherRouteMode i)"

definition routeMode :: "'e settings_env_scheme \<Rightarrow> AppSettings \<Rightarrow> RouteMode \<times> AppSettings" where
  "routeMode env s =
     (let (v, s1) = app_value env ''Conf/routeMode'' (VInt 0) s in (routeMode_of_int (variant_toInt v), s1))"

definition setRouteMode :: "'e settings_env_scheme \<Rightarrow> RouteMode \<Rightarrow> AppSettings \<Rightarrow> AppSettings" where
  "setRouteMode env mode s =
     app_emit (RouteModeChanged mode) (app_setValue env ''Conf/routeMode'' (VInt (routeMode_int mode)) s)"

text \<open>Maps are association lists in the order of their keys.\<close>

fun qmap_insert :: "'k::linorder \<Rightarrow> 'v \<Rightarrow> ('k \<times> 'v) list \<Rightarrow> ('k \<times> 'v) list" where
  "qmap_insert k v [] = [(k, v)]"
| "qmap_insert k v ((k', v') # m) =
     (if k < k' then (k, v) # (k', v') # m
      else if k = k' then (k, v) # m
      else (k', v') # qmap_insert k v m)"

definition vpnSites ::
  "'e settings_env_scheme \<Rightarrow> RouteMode \<Rightarrow> AppSettings \<Rightarrow> (QString \<times> QVariant) list \<times> AppSettings" where
  "vpnSites env mode s =
     (let (v, s1) = app_value env (routeMode_key mode) VInvalid s in (variant_toMap v, s1))"

text \<open>\<open>removeAll(QString())\<close> and \<open>removeDuplicates\<close>, which keeps the first of equal elements.\<close>

definition normalized_ips :: "QString list \<Rightarrow> QString list" where
  "normalized_ips ips = rev (remdups (rev (filter (\<lambda>ip. ip \<noteq> '''') ips)))"

definition siteIpList :: "QVariant \<Rightarrow> QString list" where
  "siteIpList v = normalized_ips (variant_toStringList v)"

definition setVpnSites ::
  "'e settings_env_scheme \<Rightarrow> RouteMode \<Rightarrow> (QString \<times> QVariant) list \<Rightarrow> AppSettings \<Rightarrow> AppSettings" where
  "setVpnSites env mode sites = app_setValue env (routeMode_key mode) (VMap sites)"

fun merge_ips :: "QString list \<Rightarrow> QString list \<Rightarrow> QString list" where
  "merge_ips merged [] = merged"
| "merge_ips merged (ip # ips) =
     merge_ips (if ip \<noteq> '''' \<and> ip \<notin> set merged then merged @ [ip] else merged) ips"

definition site_value :: "(QString \<times> QVariant) list \<Rightarrow> QString \<Rightarrow> QVariant" where
  "site_value sites site = (case map_of sites site of None \<Rightarrow> VInvalid | Some v \<Rightarrow> v)"

definition addVpnSite ::
  "'e settings_env_scheme \<Rightarrow> RouteMode \<Rightarrow> QString \<Rightarrow> QString list \<Rightarrow> AppSettings \<Rightarrow> bool \<times> AppSettings" where
  "addVpnSite env mode site ips s =
     (let (sites, s1) = vpnSites env mode s;
          siteExisted = (map_of sites site \<noteq> None)
      in if siteExisted \<and> ips = [] then (False, s1)
         else
           let known = siteIpList (site_value sites site);
               mergedIps = merge_ips known ips;
               changed = (\<not> siteExisted \<or> mergedIps \<noteq> known)
           in if \<not> changed then (False, s1)
              else (True, app_emit (SitesChanged mode)
                     (setVpnSites env mode (qmap_insert site (VStringList mergedIps) sites) s1)))"

fun merge_sites :: "site_list \<Rightarrow> (QString \<times> QVariant) list \<Rightarrow> (QString \<times> QVariant) list" where
  "merge_sites [] allSites = allSites"
| "merge_sites ((site, ips) # sites) allSites =
     merge_sites sites
       (qmap_insert site (VStringList (merge_ips (siteIpList (site_value allSites site)) ips)) allSites)"

definition addVpnSites :: "'e settings_env_scheme \<Rightarrow> RouteMode \<Rightarrow> site_list \<Rightarrow> AppSettings \<Rightarrow> AppSettings" where
  "addVpnSites env mode sites s =
     (let (allSites, s1) = vpnSites env mode s
      in app_emit (SitesChanged mode) (setVpnSites env mode (merge_sites sites allSites) s1))"

definition replaceVpnSites :: "'e settings_env_scheme \<Rightarrow> RouteMode \<Rightarrow> site_list \<Rightarrow> AppSettings \<Rightarrow> AppSettings" where
  "replaceVpnSites env mode sites s =
     (let replacement = map (\<lambda>(site, ips). (site, VStringList (normalized_ips ips))) sites;
          (current, s1) = vpnSites env mode s
      in if current = replacement then s1
         else app_emit (SitesChanged mode) (setVpnSites env mode replacement s1))"

definition removeVpnSite :: "'e settings_env_scheme \<Rightarrow> RouteMode \<Rightarrow> QString \<Rightarrow> AppSettings \<Rightarrow> AppSettings" where
  "removeVpnSite env mode site s =
     (let (sites, s1) = vpnSites env mode s
      in if map_of sites site = None then s1
         else app_emit (SitesChanged mode) (setVpnSites env mode (AList.delete site sites) s1))"

definition removeAllVpnSites :: "'e settings_env_scheme \<Rightarrow> RouteMode \<Rightarrow> AppSettings \<Rightarrow> AppSettings" where
  "removeAllVpnSites env mode s = app_emit (SitesChanged mode) (setVpnSites env mode [] s)"

definition isSitesSplitTunnelingEnabled :: "'e settings_env_scheme \<Rightarrow> AppSettings \<Rightarrow> bool \<times> AppSettings" where
  "isSitesSplitTunnelingEnabled env = bool_setting env ''Conf/sitesSplitTunnelingEnabled'' False"

definition setSitesSplitTunnelingEnabled :: "'e settings_env_scheme \<Rightarrow> bool \<Rightarrow> AppSettings \<Rightarrow> AppSettings" where
  "setSitesSplitTunnelingEnabled env enabled s =
     app_emit (SitesSplitTunnelingEnabledChanged enabled)
       (app_setValue env ''Conf/sitesSplitTunnelingEnabled'' (VBool enabled) s)"

section \<open>Applications\<close>

fun appsRouteModeString :: "AppsRouteMode \<Rightarrow> QString" where
  "appsRouteModeString VpnAllApps = ''AllApps''"
| "appsRouteModeString VpnOnlyForwardApps = ''ForwardApps''"
| "appsRouteModeString VpnAllExceptApps = ''ExceptApps''"
| "appsRouteModeString (OtherAppsRouteMode i) = ''''"

definition appsRouteMode_key :: "AppsRouteMode \<Rightarrow> QString" where
  "appsRouteMode_key mode = ''Conf/'' @ appsRouteModeString mode"

fun appsRouteMode_int :: "AppsRouteMode \<Rightarrow> int" where
  "appsRouteMode_int VpnAllApps = 0"
| "appsRouteMode_int VpnOnlyForwardApps = 1"
| "appsRouteMode_int VpnAllExceptApps = 2"
| "appsRouteMode_int (OtherAppsRouteMode i) = i"

definition appsRouteMode_of_int :: "int \<Rightarrow> AppsRouteMode" where
  "appsRouteMode_of_int i =
     (if i = 0 then VpnAllApps else if i = 1 then VpnOnlyForwardApps
      else if i = 2 then VpnAllExceptApps else OtherAppsRouteMode i)"

definition appsRouteMode :: "'e settings_env_scheme \<Rightarrow> AppSettings \<Rightarrow> AppsRouteMode \<times> AppSettings" where
  "appsRouteMode env s =
     (let (v, s1) = app_value env ''Conf/appsRouteMode'' (VInt 0) s in (appsRouteMode_of_int (variant_toInt v), s1))"

definition setAppsRouteMode :: "'e settings_env_scheme \<Rightarrow> AppsRouteMode \<Rightarrow> AppSettings \<Rightarrow> AppSettings" where
  "setAppsRouteMode env mode s =
     app_emit (AppsRouteModeChanged mode)
       (app_setValue env ''Conf/appsRouteMode'' (VInt (appsRouteMode_int mode)) s)"

definition app_of_json :: "QJsonValue \<Rightarrow> InstalledAppInfo" where
  "app_of_json v =
     (let obj = json_toObject v
      in \<lparr>appName = json_toString (obj_value obj ''appName''),
          packageName = json_toString (obj_value obj ''packageName''),
          appPath = json_toString (obj_value obj ''appPath'')\<rparr>)"

definition json_of_app :: "InstalledAppInfo \<Rightarrow> QJsonValue" where
  "json_of_app app =
     JObject (obj_insert ''appPath'' (JString (appPath app)) (obj_insert ''packageName'' (JString (packageName app))
       (obj_insert ''appName'' (JString (appName app)) [])))"

definition vpnApps ::
  "'e settings_env_scheme \<Rightarrow> AppsRouteMode \<Rightarrow> AppSettings \<Rightarrow> InstalledAppInfo list \<times> AppSettings" where
  "vpnApps env mode s =
     (let (v, s1) = app_value env (appsRouteMode_key mode) VInvalid s in (map app_of_json (variant_toJsonArray v), s1))"

definition setVpnApps ::
  "'e settings_env_scheme \<Rightarrow> AppsRouteMode \<Rightarrow> InstalledAppInfo list \<Rightarrow> AppSettings \<Rightarrow> AppSettings" where
  "setVpnApps env mode apps s =
     app_emit (AppsChanged mode) (app_setValue env (appsRouteMode_key mode) (VJsonArray (map json_of_app apps)) s)"

definition isAppsSplitTunnelingEnabled :: bool where
  "isAppsSplitTunnelingEnabled = False"

text \<open>The argument is ignored: the preference can only be cleared.\<close>

definition setAppsSplitTunnelingEnabled :: "'e settings_env_scheme \<Rightarrow> bool \<Rightarrow> AppSettings \<Rightarrow> AppSettings" where
  "setAppsSplitTunnelingEnabled env enabled s =
     (let (b, s1) = bool_setting env ''Conf/appsSplitTunnelingEnabled'' False s
      in if b then app_emit (AppsSplitTunnelingEnabledChanged False)
                     (app_setValue env ''Conf/appsSplitTunnelingEnabled'' (VBool False) s1)
         else s1)"

section \<open>The remaining preferences\<close>

definition setGatewayEndpoint :: "'e settings_env_scheme \<Rightarrow> QString \<Rightarrow> AppSettings \<Rightarrow> AppSettings" where
  "setGatewayEndpoint env endpoint s =
     app_setValue env ''Conf/gatewayEndpoint'' (VString endpoint) (s\<lparr>m_gatewayEndpoint := endpoint\<rparr>)"

definition resetGatewayEndpoint :: "'e settings_env_scheme \<Rightarrow> AppSettings \<Rightarrow> AppSettings" where
  "resetGatewayEndpoint env = setGatewayEndpoint env gatewayEndpoint"

text \<open>The endpoint for development is a constant of the build.\<close>

definition setDevGatewayEndpoint :: "'e settings_env_scheme \<Rightarrow> QString \<Rightarrow> AppSettings \<Rightarrow> AppSettings" where
  "setDevGatewayEndpoint env dev_endpoint = setGatewayEndpoint env dev_endpoint"

definition getGatewayEndpoint :: "QString \<Rightarrow> bool \<Rightarrow> AppSettings \<Rightarrow> QString" where
  "getGatewayEndpoint dev_endpoint isTestPurchase s = (if isTestPurchase then dev_endpoint else m_gatewayEndpoint s)"

definition isDevGatewayEnv :: "'e settings_env_scheme \<Rightarrow> bool \<Rightarrow> AppSettings \<Rightarrow> bool \<times> AppSettings" where
  "isDevGatewayEnv env isTestPurchase s =
     (if isTestPurchase then (True, s) else bool_setting env ''Conf/devGatewayEnv'' False s)"

definition toggleDevGatewayEnv :: "'e settings_env_scheme \<Rightarrow> bool \<Rightarrow> AppSettings \<Rightarrow> AppSettings" where
  "toggleDevGatewayEnv env enabled = app_setValue env ''Conf/devGatewayEnv'' (VBool enabled)"

definition readGatewayProxyUrls ::
  "'e settings_env_scheme \<Rightarrow> QString \<Rightarrow> AppSettings \<Rightarrow> QByteArray \<times> AppSettings" where
  "readGatewayProxyUrls env cacheKey s =
     (if cacheKey = '''' then ('''', s)
      else let (v, s1) = app_value env (''Conf/proxyUrls/'' @ cacheKey) VInvalid s in (variant_toByteArray v, s1))"

definition writeGatewayProxyUrls ::
  "'e settings_env_scheme \<Rightarrow> QString \<Rightarrow> QByteArray \<Rightarrow> AppSettings \<Rightarrow> AppSettings" where
  "writeGatewayProxyUrls env cacheKey urls s =
     (if cacheKey = '''' then s else app_setValue env (''Conf/proxyUrls/'' @ cacheKey) (VByteArray urls) s)"

definition isAutoConnect :: "'e settings_env_scheme \<Rightarrow> AppSettings \<Rightarrow> bool \<times> AppSettings" where
  "isAutoConnect env = bool_setting env ''Conf/autoConnect'' False"

definition setAutoConnect :: "'e settings_env_scheme \<Rightarrow> bool \<Rightarrow> AppSettings \<Rightarrow> AppSettings" where
  "setAutoConnect env enabled = app_setValue env ''Conf/autoConnect'' (VBool enabled)"

definition isStartMinimized :: "'e settings_env_scheme \<Rightarrow> AppSettings \<Rightarrow> bool \<times> AppSettings" where
  "isStartMinimized env = bool_setting env ''Conf/startMinimized'' False"

definition setStartMinimized :: "'e settings_env_scheme \<Rightarrow> bool \<Rightarrow> AppSettings \<Rightarrow> AppSettings" where
  "setStartMinimized env enabled = app_setValue env ''Conf/startMinimized'' (VBool enabled)"

definition isScreenshotsEnabled :: "'e settings_env_scheme \<Rightarrow> AppSettings \<Rightarrow> bool \<times> AppSettings" where
  "isScreenshotsEnabled env = bool_setting env ''Conf/screenshotsEnabled'' True"

definition setScreenshotsEnabled :: "'e settings_env_scheme \<Rightarrow> bool \<Rightarrow> AppSettings \<Rightarrow> AppSettings" where
  "setScreenshotsEnabled env enabled s =
     app_emit (ScreenshotsEnabledChanged enabled) (app_setValue env ''Conf/screenshotsEnabled'' (VBool enabled) s)"

definition isNewsNotifications :: "'e settings_env_scheme \<Rightarrow> AppSettings \<Rightarrow> bool \<times> AppSettings" where
  "isNewsNotifications env = bool_setting env ''Conf/newsNotifications'' True"

definition setNewsNotifications :: "'e settings_env_scheme \<Rightarrow> bool \<Rightarrow> AppSettings \<Rightarrow> AppSettings" where
  "setNewsNotifications env enabled = app_setValue env ''Conf/newsNotifications'' (VBool enabled)"

definition isAutoUpdateCheckEnabled :: "'e settings_env_scheme \<Rightarrow> AppSettings \<Rightarrow> bool \<times> AppSettings" where
  "isAutoUpdateCheckEnabled env = bool_setting env ''Conf/autoUpdateCheck'' True"

definition setAutoUpdateCheckEnabled :: "'e settings_env_scheme \<Rightarrow> bool \<Rightarrow> AppSettings \<Rightarrow> AppSettings" where
  "setAutoUpdateCheckEnabled env enabled = app_setValue env ''Conf/autoUpdateCheck'' (VBool enabled)"

definition isSaveLogs :: "'e settings_env_scheme \<Rightarrow> AppSettings \<Rightarrow> bool \<times> AppSettings" where
  "isSaveLogs env = bool_setting env ''Conf/saveLogs'' False"

definition setSaveLogs :: "'e settings_env_scheme \<Rightarrow> bool \<Rightarrow> AppSettings \<Rightarrow> AppSettings" where
  "setSaveLogs env enabled s =
     app_emit (SaveLogsChanged enabled) (app_setValue env ''Conf/saveLogs'' (VBool enabled) s)"

definition getReadNewsIds :: "'e settings_env_scheme \<Rightarrow> AppSettings \<Rightarrow> QString list \<times> AppSettings" where
  "getReadNewsIds env s = (let (v, s1) = app_value env ''News/readIds'' VInvalid s in (variant_toStringList v, s1))"

definition setReadNewsIds :: "'e settings_env_scheme \<Rightarrow> QString list \<Rightarrow> AppSettings \<Rightarrow> AppSettings" where
  "setReadNewsIds env ids = app_setValue env ''News/readIds'' (VStringList ids)"

definition isHomeAdLabelVisible :: "'e settings_env_scheme \<Rightarrow> AppSettings \<Rightarrow> bool \<times> AppSettings" where
  "isHomeAdLabelVisible env = bool_setting env ''Conf/homeAdLabelVisible'' True"

definition disableHomeAdLabel :: "'e settings_env_scheme \<Rightarrow> AppSettings \<Rightarrow> AppSettings" where
  "disableHomeAdLabel env = app_setValue env ''Conf/homeAdLabelVisible'' (VBool False)"

definition xraySavedConfigs :: "'e settings_env_scheme \<Rightarrow> AppSettings \<Rightarrow> QByteArray \<times> AppSettings" where
  "xraySavedConfigs env s = (let (v, s1) = app_value env ''Xray/savedConfigs'' VInvalid s in (variant_toByteArray v, s1))"

definition setXraySavedConfigs :: "'e settings_env_scheme \<Rightarrow> QByteArray \<Rightarrow> AppSettings \<Rightarrow> AppSettings" where
  "setXraySavedConfigs env data = app_setValue env ''Xray/savedConfigs'' (VByteArray data)"

section \<open>Facts on preferences\<close>

definition pref :: "AppSettings \<Rightarrow> QString \<Rightarrow> QVariant option" where
  "pref s k = plain_value (app_store s) k"

definition app_ok :: "AppSettings \<Rightarrow> bool" where
  "app_ok s = plain_ok (app_store s)"

lemma plain_keys [simp]:
  "plain_key (''Conf/'' @ x)" "plain_key (CHR ''C'' # CHR ''o'' # x)" "plain_key (routeMode_key mode)"
  "plain_key (appsRouteMode_key amode)"
  by (simp_all add: plain_key_def encryptedKeys_def routeMode_key_def appsRouteMode_key_def)

lemma app_value_facts:
  assumes "app_ok s" "plain_key k"
  shows "fst (app_value env k d s) = (case pref s k of None \<Rightarrow> d | Some v \<Rightarrow> v)"
    "plain_key k' \<Longrightarrow> pref (snd (app_value env k d s)) k' = pref s k'" "app_ok (snd (app_value env k d s))"
  using assms prefs.get_stored [of "app_store s" k env d] prefs.get_keeps [of "app_store s" k k' env d]
    prefs.get_ok [of "app_store s" k env d]
  by (simp_all add: app_value_def pref_def app_ok_def case_prod_beta)

lemma app_setValue_facts [simp]:
  "plain_key k \<Longrightarrow> plain_key k' \<Longrightarrow> pref (app_setValue env k v s) k' = (if k' = k then Some v else pref s k')"
  "plain_key k \<Longrightarrow> app_ok s \<Longrightarrow> app_ok (app_setValue env k v s)"
  by (simp_all add: app_setValue_def pref_def app_ok_def prefs.put_stored prefs.put_plain_ok)

lemma app_emit_facts [simp]: "pref (app_emit sg s) k = pref s k" "app_ok (app_emit sg s) = app_ok s"
  by (simp_all add: app_emit_def pref_def app_ok_def)

lemma bool_setting_facts:
  assumes "app_ok s" "plain_key k"
  shows "fst (bool_setting env k d s) = (case pref s k of None \<Rightarrow> d | Some v \<Rightarrow> variant_toBool v)"
    "plain_key k' \<Longrightarrow> pref (snd (bool_setting env k d s)) k' = pref s k'" "app_ok (snd (bool_setting env k d s))"
  using app_value_facts(1,3) [OF assms, of env "VBool d"] app_value_facts(2) [OF assms, of k' env "VBool d"]
  by (simp_all add: bool_setting_def case_prod_beta split: option.split)

lemma route_keys [simp]:
  "routeMode_key mode \<noteq> ''Conf/routeMode''" "routeMode_key mode \<noteq> ''Conf/sitesSplitTunnelingEnabled''"
  "routeMode_key mode = routeMode_key mode' \<longleftrightarrow> routeModeString mode = routeModeString mode'"
  by (cases mode; simp add: routeMode_key_def)+

section \<open>Facts on maps and lists of addresses\<close>

lemma map_of_qmap_insert [simp]: "map_of (qmap_insert k v m) = (map_of m)(k \<mapsto> v)"
  by (induction k v m rule: qmap_insert.induct) auto

definition qmap_ok :: "('k::linorder \<times> 'v) list \<Rightarrow> bool" where
  "qmap_ok m = sorted_wrt (<) (map fst m)"

lemma keys_qmap_insert [simp]: "fst ` set (qmap_insert k v m) = insert k (fst ` set m)"
  by (induction k v m rule: qmap_insert.induct) auto

lemma qmap_ok_insert: "qmap_ok m \<Longrightarrow> qmap_ok (qmap_insert k v m)"
proof (induction k v m rule: qmap_insert.induct)
  case (2 k v k' v' m)
  then have "\<forall>x \<in> fst ` set m. k' < x" "qmap_ok m" by (auto simp: qmap_ok_def)
  with 2 show ?case
    by (cases "k = k'"; cases "k < k'") (auto simp: qmap_ok_def keys_qmap_insert [simplified image_def] dest: less_trans)
qed (simp add: qmap_ok_def)

lemma qmap_ok_distinct: "qmap_ok m \<Longrightarrow> distinct (map fst m)"
  unfolding qmap_ok_def by (induction m) auto

lemma qmap_ok_delete: "qmap_ok m \<Longrightarrow> qmap_ok (AList.delete k m)"
proof (induction m)
  case (Cons kv m)
  then show ?case using delete_keys [of k m] by (auto simp: qmap_ok_def split: prod.split)
qed (simp add: qmap_ok_def)

definition ips_ok :: "QString list \<Rightarrow> bool" where
  "ips_ok ips = (distinct ips \<and> '''' \<notin> set ips)"

lemma normalized_ips_ok [simp]: "ips_ok (normalized_ips ips)"
  by (simp add: ips_ok_def normalized_ips_def)

lemma normalized_id: "ips_ok ips \<Longrightarrow> normalized_ips ips = ips"
proof -
  assume "ips_ok ips"
  then have f: "filter (\<lambda>ip. ip \<noteq> '''') ips = ips" "remdups (rev ips) = rev ips"
    by (auto simp: ips_ok_def intro: filter_True)
  show ?thesis by (simp only: normalized_ips_def f rev_rev_ident)
qed

lemma merge_ips_ok: "ips_ok merged \<Longrightarrow> ips_ok (merge_ips merged ips)"
proof (induction ips arbitrary: merged)
  case (Cons ip ips)
  from Cons.prems have "ips_ok (if ip \<noteq> '''' \<and> ip \<notin> set merged then merged @ [ip] else merged)"
    by (auto simp: ips_ok_def)
  then show ?case by (simp only: merge_ips.simps Cons.IH)
qed simp

lemma merge_into: "ips_ok (acc @ ips) \<Longrightarrow> merge_ips acc ips = acc @ ips"
  by (induction acc ips rule: merge_ips.induct) (auto simp: ips_ok_def)

lemma siteIpList_list: "ips_ok ips \<Longrightarrow> siteIpList (VStringList ips) = ips"
  by (simp add: siteIpList_def normalized_id)

lemma siteIpList_ok [simp]: "ips_ok (siteIpList v)"
  by (simp add: siteIpList_def)

section \<open>Facts on sites\<close>

definition sites_of :: "AppSettings \<Rightarrow> RouteMode \<Rightarrow> (QString \<times> QVariant) list" where
  "sites_of s mode = (case pref s (routeMode_key mode) of None \<Rightarrow> [] | Some v \<Rightarrow> variant_toMap v)"

text \<open>What is stored for a site: its addresses, without empty and repeated ones.\<close>

definition site_ips :: "AppSettings \<Rightarrow> RouteMode \<Rightarrow> QString \<Rightarrow> QString list option" where
  "site_ips s mode site = map_option siteIpList (map_of (sites_of s mode) site)"

lemma vpnSites_facts:
  assumes "app_ok s"
  shows "fst (vpnSites env mode s) = sites_of s mode" "app_ok (snd (vpnSites env mode s))"
    "sites_of (snd (vpnSites env mode s)) mode' = sites_of s mode'"
    "plain_key k \<Longrightarrow> pref (snd (vpnSites env mode s)) k = pref s k"
proof -
  note f = app_value_facts [OF assms, of "routeMode_key mode"]
  show "fst (vpnSites env mode s) = sites_of s mode" "app_ok (snd (vpnSites env mode s))"
    "sites_of (snd (vpnSites env mode s)) mode' = sites_of s mode'"
    "plain_key k \<Longrightarrow> pref (snd (vpnSites env mode s)) k = pref s k"
    by (simp_all add: vpnSites_def sites_of_def f case_prod_beta split: option.split)
qed

lemma setVpnSites_facts [simp]:
  "app_ok s \<Longrightarrow> app_ok (setVpnSites env mode m s)"
  "sites_of (setVpnSites env mode m s) mode' =
     (if routeModeString mode' = routeModeString mode then m else sites_of s mode')"
  "plain_key k \<Longrightarrow> pref (setVpnSites env mode m s) k = (if k = routeMode_key mode then Some (VMap m) else pref s k)"
  by (simp_all add: setVpnSites_def sites_of_def)

lemma sites_of_emit [simp]: "sites_of (app_emit sg s) mode = sites_of s mode"
  by (simp add: sites_of_def)

lemma site_value_ips: "siteIpList (site_value (sites_of s mode) site) = (case site_ips s mode site of None \<Rightarrow> [] | Some l \<Rightarrow> l)"
  by (simp add: site_value_def site_ips_def siteIpList_def normalized_ips_def split: option.split)

lemma site_ips_ok: "site_ips s mode site = Some l \<Longrightarrow> ips_ok l"
  by (auto simp: site_ips_def)

text \<open>A step of the repository that changes only the sites of one mode.\<close>

definition keeps_rest :: "RouteMode \<Rightarrow> AppSettings \<Rightarrow> AppSettings \<Rightarrow> bool" where
  "keeps_rest mode s s' =
     (app_ok s' \<and> (\<forall>mode'. routeModeString mode' \<noteq> routeModeString mode \<longrightarrow> sites_of s' mode' = sites_of s mode') \<and>
      pref s' ''Conf/routeMode'' = pref s ''Conf/routeMode'')"

lemma keeps_vpnSites: "app_ok s \<Longrightarrow> keeps_rest mode s (snd (vpnSites env mode' s))"
  by (simp add: keeps_rest_def vpnSites_facts)

lemma keeps_set: "keeps_rest mode s s' \<Longrightarrow> keeps_rest mode s (app_emit sg (setVpnSites env mode m s'))"
  by (simp add: keeps_rest_def route_keys(1) [symmetric])

lemma same_mode_sites: "routeModeString mode' = routeModeString mode \<Longrightarrow> sites_of s mode' = sites_of s mode"
  by (simp add: sites_of_def routeMode_key_def)

abbreviation known_ips :: "AppSettings \<Rightarrow> RouteMode \<Rightarrow> QString \<Rightarrow> QString list" where
  "known_ips s mode site \<equiv> (case site_ips s mode site of None \<Rightarrow> [] | Some l \<Rightarrow> l)"

lemma known_ips_ok: "ips_ok (known_ips s mode site)"
  using site_ips_ok [of s mode site] by (auto simp: ips_ok_def split: option.split)

lemma site_ips_insert:
  "ips_ok l \<Longrightarrow> map_option siteIpList \<circ> (map_of (qmap_insert site (VStringList l) (sites_of s mode))) =
     (site_ips s mode)(site \<mapsto> l)"
  by (rule ext) (simp add: siteIpList_list site_ips_def)

lemma site_ips_comp: "site_ips s mode = map_option siteIpList \<circ> map_of (sites_of s mode)"
  by (rule ext) (simp add: site_ips_def)

lemma addVpnSite_eq:
  assumes "app_ok s"
  shows "addVpnSite env mode site ips s =
    (let s1 = snd (vpnSites env mode s); merged = merge_ips (known_ips s mode site) ips
     in if site_ips s mode site = Some merged then (False, s1)
        else (True, app_emit (SitesChanged mode)
               (setVpnSites env mode (qmap_insert site (VStringList merged) (sites_of s mode)) s1)))"
proof -
  have "map_of (sites_of s mode) site = None \<longleftrightarrow> site_ips s mode site = None" by (simp add: site_ips_def)
  then show ?thesis
    by (cases "site_ips s mode site")
      (auto simp: addVpnSite_def vpnSites_facts(1) [OF assms] site_value_ips case_prod_beta Let_def)
qed

lemma addVpnSite_sites:
  assumes "app_ok s"
  shows "site_ips (snd (addVpnSite env mode site ips s)) mode =
      (site_ips s mode)(site \<mapsto> merge_ips (known_ips s mode site) ips)"
    "keeps_rest mode s (snd (addVpnSite env mode site ips s))"
    "qmap_ok (sites_of s mode) \<Longrightarrow> qmap_ok (sites_of (snd (addVpnSite env mode site ips s)) mode)"
proof -
  note v = vpnSites_facts [OF assms, where env = env and mode = mode]
  let ?m = "merge_ips (known_ips s mode site) ips" and ?s1 = "snd (vpnSites env mode s)"
  have m: "ips_ok ?m" by (intro merge_ips_ok known_ips_ok)
  show "site_ips (snd (addVpnSite env mode site ips s)) mode = (site_ips s mode)(site \<mapsto> ?m)"
  proof (cases "site_ips s mode site = Some ?m")
    case True
    then have "snd (addVpnSite env mode site ips s) = ?s1" by (simp only: addVpnSite_eq [OF assms] Let_def if_True snd_conv simp_thms)
    with True show ?thesis by (simp add: site_ips_comp v(3) fun_upd_idem)
  next
    case False
    then have "sites_of (snd (addVpnSite env mode site ips s)) mode = qmap_insert site (VStringList ?m) (sites_of s mode)"
      by (simp only: addVpnSite_eq [OF assms] Let_def if_False snd_conv sites_of_emit setVpnSites_facts simp_thms if_True)
    then show ?thesis using site_ips_insert [OF m] by (simp only: site_ips_comp [of "snd _"])
  qed
  show "keeps_rest mode s (snd (addVpnSite env mode site ips s))"
    using keeps_vpnSites [OF assms, of mode env mode] by (simp add: addVpnSite_eq [OF assms] Let_def keeps_set)
  show "qmap_ok (sites_of s mode) \<Longrightarrow> qmap_ok (sites_of (snd (addVpnSite env mode site ips s)) mode)"
    by (simp add: addVpnSite_eq [OF assms] v Let_def qmap_ok_insert)
qed

definition merged_view :: "site_list \<Rightarrow> (QString \<Rightarrow> QString list option) \<Rightarrow> QString \<Rightarrow> QString list option" where
  "merged_view sites view =
     fold (\<lambda>(site, ips) w. w(site \<mapsto> merge_ips (case w site of None \<Rightarrow> [] | Some l \<Rightarrow> l) ips)) sites view"

lemma merge_sites_view:
  "map_option siteIpList \<circ> map_of (merge_sites sites m) = merged_view sites (map_option siteIpList \<circ> map_of m)"
proof (induction sites m rule: merge_sites.induct)
  case (2 site ips sites m)
  let ?w = "map_option siteIpList \<circ> map_of m"
  have k: "siteIpList (site_value m site) = (case ?w site of None \<Rightarrow> [] | Some l \<Rightarrow> l)"
    by (simp add: site_value_def siteIpList_def normalized_ips_def split: option.split)
  have "ips_ok (merge_ips (siteIpList (site_value m site)) ips)" by (intro merge_ips_ok) simp
  then have "map_option siteIpList \<circ> map_of (qmap_insert site
      (VStringList (merge_ips (siteIpList (site_value m site)) ips)) m) =
    ?w(site \<mapsto> merge_ips (case ?w site of None \<Rightarrow> [] | Some l \<Rightarrow> l) ips)"
    unfolding k [symmetric] by (intro ext) (simp add: siteIpList_list)
  with 2 show ?case by (simp only: merge_sites.simps merged_view_def fold_simps split_conv)
qed (simp add: merged_view_def)

lemma merge_sites_ok: "qmap_ok m \<Longrightarrow> qmap_ok (merge_sites sites m)"
  by (induction sites m rule: merge_sites.induct) (simp_all add: qmap_ok_insert)

lemma addVpnSites_sites:
  assumes "app_ok s"
  shows "site_ips (addVpnSites env mode sites s) mode = merged_view sites (site_ips s mode)"
    "keeps_rest mode s (addVpnSites env mode sites s)"
    "qmap_ok (sites_of s mode) \<Longrightarrow> qmap_ok (sites_of (addVpnSites env mode sites s) mode)"
  using keeps_vpnSites [OF assms, of mode env mode]
  by (simp_all add: addVpnSites_def case_prod_beta Let_def vpnSites_facts [OF assms] site_ips_comp merge_sites_view
      keeps_set merge_sites_ok)

lemma map_of_map_value: "map_of (map (\<lambda>(k, v). (k, f v)) m) = map_option f \<circ> map_of m"
  by (rule ext) (simp add: map_of_map)

lemma replaceVpnSites_sites:
  assumes "app_ok s"
  shows "site_ips (replaceVpnSites env mode sites s) mode = map_option normalized_ips \<circ> map_of sites"
    "keeps_rest mode s (replaceVpnSites env mode sites s)"
    "qmap_ok sites \<Longrightarrow> qmap_ok (sites_of (replaceVpnSites env mode sites s) mode)"
proof -
  let ?r = "map (\<lambda>(site, ips). (site, VStringList (normalized_ips ips))) sites"
  have r: "sites_of (replaceVpnSites env mode sites s) mode = ?r"
    by (simp add: replaceVpnSites_def case_prod_beta Let_def vpnSites_facts [OF assms])
  show "site_ips (replaceVpnSites env mode sites s) mode = map_option normalized_ips \<circ> map_of sites"
    by (rule ext) (simp add: site_ips_comp r map_of_map_value option.map_comp comp_def siteIpList_list)
  show "qmap_ok sites \<Longrightarrow> qmap_ok (sites_of (replaceVpnSites env mode sites s) mode)"
    by (simp add: r qmap_ok_def comp_def case_prod_beta)
  show "keeps_rest mode s (replaceVpnSites env mode sites s)"
    using keeps_vpnSites [OF assms, of mode env mode]
    by (simp add: replaceVpnSites_def case_prod_beta Let_def keeps_set)
qed

lemma removeVpnSite_sites:
  assumes "app_ok s"
  shows "site_ips (removeVpnSite env mode site s) mode = (site_ips s mode)(site := None)"
    "keeps_rest mode s (removeVpnSite env mode site s)"
    "qmap_ok (sites_of s mode) \<Longrightarrow> qmap_ok (sites_of (removeVpnSite env mode site s) mode)"
proof -
  have r: "sites_of (removeVpnSite env mode site s) mode = AList.delete site (sites_of s mode)"
  proof (cases "map_of (sites_of s mode) site")
    case None
    then have "AList.delete site (sites_of s mode) = sites_of s mode"
      by (simp add: map_of_eq_None_iff delete_id)
    with None show ?thesis by (simp add: removeVpnSite_def case_prod_beta Let_def vpnSites_facts [OF assms])
  qed (simp add: removeVpnSite_def case_prod_beta Let_def vpnSites_facts [OF assms])
  show "site_ips (removeVpnSite env mode site s) mode = (site_ips s mode)(site := None)"
    by (rule ext) (simp add: site_ips_comp r delete_conv')
  show "qmap_ok (sites_of s mode) \<Longrightarrow> qmap_ok (sites_of (removeVpnSite env mode site s) mode)"
    by (simp add: r qmap_ok_delete)
  show "keeps_rest mode s (removeVpnSite env mode site s)"
    using keeps_vpnSites [OF assms, of mode env mode]
    by (simp add: removeVpnSite_def case_prod_beta Let_def keeps_set)
qed

lemma removeAllVpnSites_sites:
  assumes "app_ok s"
  shows "site_ips (removeAllVpnSites env mode s) mode = Map.empty"
    "keeps_rest mode s (removeAllVpnSites env mode s)" "qmap_ok (sites_of (removeAllVpnSites env mode s) mode)"
proof -
  have "keeps_rest mode s s" using assms by (simp add: keeps_rest_def)
  then show "keeps_rest mode s (removeAllVpnSites env mode s)" by (simp add: removeAllVpnSites_def keeps_set)
qed (simp_all add: removeAllVpnSites_def site_ips_comp qmap_ok_def fun_eq_iff)

end
