(* ===== verification/Split_Tunneling.thy ===== *)
theory Split_Tunneling
  imports App_Settings
begin

text \<open>
  The controllers of split tunnelling over the application settings:
  \<^verbatim>\<open>client/core/controllers/ipSplitTunnelingController.cpp\<close> keeps a list of sites that mirrors the
  stored one, \<^verbatim>\<open>allowedDnsController.cpp\<close> and \<^verbatim>\<open>appSplitTunnelingController.cpp\<close> do the same for
  resolvers and applications. A name lookup is recorded when it is started; its answer is an
  operation of its own, which may come after any other.
\<close>

section \<open>Names of sites\<close>

fun split_str :: "QString \<Rightarrow> QString \<Rightarrow> QString list" where
  "split_str sep [] = [[]]"
| "split_str sep (c # cs) =
     (if sep \<noteq> [] \<and> take (length sep) (c # cs) = sep then [] # split_str sep (drop (length sep - 1) cs)
      else case split_str sep cs of p # ps \<Rightarrow> (c # p) # ps | [] \<Rightarrow> [[c]])"

text \<open>\<open>replace\<close> of every occurrence by the empty string.\<close>

fun remove_str :: "QString \<Rightarrow> QString \<Rightarrow> QString" where
  "remove_str pat [] = []"
| "remove_str pat (c # cs) =
     (if pat \<noteq> [] \<and> take (length pat) (c # cs) = pat then remove_str pat (drop (length pat - 1) cs)
      else c # remove_str pat cs)"

text \<open>A number without leading zeros up to a bound, as the regular expression spells it out.\<close>

definition plain_number :: "nat \<Rightarrow> QString \<Rightarrow> bool" where
  "plain_number bound s =
     (s \<noteq> [] \<and> list_all isDigit s \<and> (length s = 1 \<or> hd s \<noteq> CHR ''0'') \<and> digits_value s \<le> bound)"

definition ip_text :: "QString \<Rightarrow> bool" where
  "ip_text s = (let ps = split_str ''.'' s in length ps = 4 \<and> list_all (plain_number 255) ps)"

definition ipAddressWithSubnetRegExp :: "QString \<Rightarrow> bool" where
  "ipAddressWithSubnetRegExp s =
     (case split_str ''/'' s of
        [a] \<Rightarrow> ip_text a
      | [a, m] \<Rightarrow> ip_text a \<and> plain_number 32 m
      | _ \<Rightarrow> False)"

definition normalizeHostname :: "QString \<Rightarrow> QString" where
  "normalizeHostname hostname =
     (let normalized = remove_str ''ftp://'' (remove_str ''http://'' (remove_str ''https://'' hostname))
      in if ipAddressWithSubnetRegExp normalized then normalized
         else case filter (\<lambda>p. p \<noteq> []) (split_str ''/'' normalized) of [] \<Rightarrow> '''' | p # ps \<Rightarrow> p)"

definition validateHostname :: "QString \<Rightarrow> bool" where
  "validateHostname hostname =
     (hostname \<noteq> '''' \<and> (CHR ''.'' \<in> set hostname \<or> ipAddressWithSubnetRegExp hostname))"

section \<open>Sites\<close>

record IpSplitTunneling =
  split_settings :: AppSettings
  m_currentRouteMode :: RouteMode
  m_sites :: site_list
  split_lookups :: "QString list"

definition fillSites :: "'e settings_env_scheme \<Rightarrow> IpSplitTunneling \<Rightarrow> IpSplitTunneling" where
  "fillSites env s =
     (let (sitesMap, r) = vpnSites env (m_currentRouteMode s) (split_settings s)
      in s\<lparr>split_settings := r, m_sites := map (\<lambda>(k, v). (k, siteIpList v)) sitesMap\<rparr>)"

definition IpSplitTunneling_new :: "'e settings_env_scheme \<Rightarrow> AppSettings \<Rightarrow> IpSplitTunneling" where
  "IpSplitTunneling_new env repo =
     (let (mode, r) = routeMode env repo;
          (mode1, r1) = (if mode = VpnAllSites then (VpnOnlyForwardSites, setRouteMode env VpnOnlyForwardSites r)
                         else (mode, r))
      in fillSites env \<lparr>split_settings = r1, m_currentRouteMode = mode1, m_sites = [], split_lookups = []\<rparr>)"

text \<open>The first entry of a site, with addresses merged into it.\<close>

fun merge_site :: "QString \<Rightarrow> QString list \<Rightarrow> site_list \<Rightarrow> site_list" where
  "merge_site hostname ips [] = []"
| "merge_site hostname ips ((h, l) # sites) =
     (if h = hostname then (h, merge_ips l ips) # sites else (h, l) # merge_site hostname ips sites)"

definition repo_addSite ::
  "'e settings_env_scheme \<Rightarrow> QString \<Rightarrow> QString list \<Rightarrow> IpSplitTunneling \<Rightarrow> IpSplitTunneling" where
  "repo_addSite env hostname ips s =
     s\<lparr>split_settings := snd (addVpnSite env (m_currentRouteMode s) hostname ips (split_settings s))\<rparr>"

definition addSiteInternal ::
  "'e settings_env_scheme \<Rightarrow> QString \<Rightarrow> QString list \<Rightarrow> IpSplitTunneling \<Rightarrow> bool \<times> IpSplitTunneling" where
  "addSiteInternal env hostname ips s =
     (let (existing, r) = vpnSites env (m_currentRouteMode s) (split_settings s);
          s1 = s\<lparr>split_settings := r\<rparr>
      in if map_of existing hostname \<noteq> None \<and> ips = [] then (False, s1)
         else
           case map_of (m_sites s1) hostname of
             Some known \<Rightarrow>
               if merge_ips known ips = known then (False, s1)
               else (True, repo_addSite env hostname ips (s1\<lparr>m_sites := merge_site hostname ips (m_sites s1)\<rparr>))
           | None \<Rightarrow> (True, repo_addSite env hostname ips (s1\<lparr>m_sites := m_sites s1 @ [(hostname, ips)]\<rparr>)))"

fun add_or_merge :: "site_list \<Rightarrow> site_list \<Rightarrow> site_list" where
  "add_or_merge [] known = known"
| "add_or_merge ((hostname, ips) # sites) known =
     add_or_merge sites
       (if map_of known hostname = None then known @ [(hostname, ips)] else merge_site hostname ips known)"

definition addSites ::
  "'e settings_env_scheme \<Rightarrow> site_list \<Rightarrow> bool \<Rightarrow> IpSplitTunneling \<Rightarrow> IpSplitTunneling" where
  "addSites env sites replaceExisting s =
     (if replaceExisting
      then s\<lparr>m_sites := map (\<lambda>(k, ips). (k, normalized_ips ips)) sites,
             split_settings := replaceVpnSites env (m_currentRouteMode s) sites (split_settings s)\<rparr>
      else s\<lparr>m_sites := add_or_merge sites (m_sites s),
             split_settings := addVpnSites env (m_currentRouteMode s) sites (split_settings s)\<rparr>)"

definition addSite :: "'e settings_env_scheme \<Rightarrow> QString \<Rightarrow> IpSplitTunneling \<Rightarrow> bool \<times> IpSplitTunneling" where
  "addSite env hostname s =
     (let normalizedHostname = normalizeHostname hostname in
      if \<not> validateHostname normalizedHostname then (False, s)
      else if ipAddressWithSubnetRegExp normalizedHostname
      then (True, snd (addSiteInternal env normalizedHostname [] s))
      else
        let (added, s1) = addSiteInternal env normalizedHostname [] s
        in if added then (True, s1\<lparr>split_lookups := split_lookups s1 @ [normalizedHostname]\<rparr>)
           else (False, s1))"

fun remove_site :: "QString \<Rightarrow> site_list \<Rightarrow> site_list" where
  "remove_site hostname [] = []"
| "remove_site hostname ((h, l) # sites) = (if h = hostname then sites else (h, l) # remove_site hostname sites)"

definition removeSite :: "'e settings_env_scheme \<Rightarrow> QString \<Rightarrow> IpSplitTunneling \<Rightarrow> bool \<times> IpSplitTunneling" where
  "removeSite env hostname s =
     (if map_of (m_sites s) hostname = None then (False, s)
      else (True, s\<lparr>m_sites := remove_site hostname (m_sites s),
                    split_settings := removeVpnSite env (m_currentRouteMode s) hostname (split_settings s)\<rparr>))"

definition removeSites :: "'e settings_env_scheme \<Rightarrow> IpSplitTunneling \<Rightarrow> IpSplitTunneling" where
  "removeSites env s =
     s\<lparr>m_sites := [], split_settings := removeAllVpnSites env (m_currentRouteMode s) (split_settings s)\<rparr>"

definition split_setRouteMode :: "'e settings_env_scheme \<Rightarrow> RouteMode \<Rightarrow> IpSplitTunneling \<Rightarrow> IpSplitTunneling" where
  "split_setRouteMode env mode s =
     (let s1 = fillSites env (s\<lparr>m_currentRouteMode := mode\<rparr>)
      in s1\<lparr>split_settings := setRouteMode env mode (split_settings s1)\<rparr>)"

definition split_toggle :: "'e settings_env_scheme \<Rightarrow> bool \<Rightarrow> IpSplitTunneling \<Rightarrow> IpSplitTunneling" where
  "split_toggle env enabled s =
     s\<lparr>split_settings := setSitesSplitTunnelingEnabled env enabled (split_settings s)\<rparr>"

text \<open>
  \<open>onHostResolved\<close> gets the texts of the IPv4 addresses that a lookup has found. The site is
  stored again even if it is no longer in the list.
\<close>

definition onHostResolved ::
  "'e settings_env_scheme \<Rightarrow> QString \<Rightarrow> QString list \<Rightarrow> IpSplitTunneling \<Rightarrow> IpSplitTunneling" where
  "onHostResolved env hostname ipv4 s =
     (let allIpv4 = rev (remdups (rev ipv4)) in
      if allIpv4 = [] then s
      else repo_addSite env hostname allIpv4 (s\<lparr>m_sites := merge_site hostname allIpv4 (m_sites s)\<rparr>))"

section \<open>Import and export\<close>

definition import_ips :: "QJsonObject \<Rightarrow> QString list" where
  "import_ips obj =
     (let ips = (if isArray (obj_value obj ''ips'') then map json_toString (json_toArray (obj_value obj ''ips'')) else []);
          singleIp = json_toString (obj_value obj ''ip'')
      in normalized_ips (if singleIp \<noteq> '''' then ips @ [singleIp] else ips))"

fun import_sites :: "QJsonValue list \<Rightarrow> site_list \<Rightarrow> site_list" where
  "import_sites [] sites = sites"
| "import_sites (v # vs) sites =
     (let obj = json_toObject v;
          hostname = normalizeHostname (json_toString (obj_value obj ''hostname''))
      in import_sites vs (if \<not> validateHostname hostname then sites else qmap_insert hostname (import_ips obj) sites))"

text \<open>\<open>parsed\<close> is the document, or the message of the parser.\<close>

definition importSitesFromJson ::
  "'e settings_env_scheme \<Rightarrow> QString + QJsonValue \<Rightarrow> bool \<Rightarrow> IpSplitTunneling \<Rightarrow> QString option \<times> IpSplitTunneling" where
  "importSitesFromJson env parsed replaceExisting s =
     (case parsed of
        Inl err \<Rightarrow> (Some (''Failed to parse JSON data: '' @ err), s)
      | Inr v \<Rightarrow>
          if \<not> isArray v then (Some ''The JSON data is not an array'', s)
          else (None, addSites env (import_sites (json_toArray v) []) replaceExisting s))"

definition site_json :: "QString \<times> QString list \<Rightarrow> QJsonValue" where
  "site_json site =
     JObject (obj_insert ''ip'' (JString (case snd site of [] \<Rightarrow> '''' | ip # ips \<Rightarrow> ip))
       (obj_insert ''ips'' (JArray (map JString (snd site))) (obj_insert ''hostname'' (JString (fst site)) [])))"

definition exportSitesToJson :: "IpSplitTunneling \<Rightarrow> QJsonValue" where
  "exportSitesToJson s = JArray (map site_json (m_sites s))"

section \<open>Resolvers and applications\<close>

record AllowedDns =
  dns_settings :: AppSettings
  m_dnsServers :: "QString list"

definition AllowedDns_new :: "'e settings_env_scheme \<Rightarrow> AppSettings \<Rightarrow> AllowedDns" where
  "AllowedDns_new env repo =
     (let (servers, r) = getAllowedDnsServers env repo in \<lparr>dns_settings = r, m_dnsServers = servers\<rparr>)"

definition store_dns :: "'e settings_env_scheme \<Rightarrow> QString list \<Rightarrow> AllowedDns \<Rightarrow> AllowedDns" where
  "store_dns env servers s =
     s\<lparr>m_dnsServers := servers, dns_settings := setAllowedDnsServers env servers (dns_settings s)\<rparr>"

definition addDns :: "'e settings_env_scheme \<Rightarrow> QString \<Rightarrow> AllowedDns \<Rightarrow> bool \<times> AllowedDns" where
  "addDns env ip s =
     (if ip \<in> set (m_dnsServers s) then (False, s) else (True, store_dns env (m_dnsServers s @ [ip]) s))"

fun append_new :: "QString list \<Rightarrow> QString list \<Rightarrow> QString list" where
  "append_new [] known = known"
| "append_new (ip # ips) known = append_new ips (if ip \<in> set known then known else known @ [ip])"

definition addDnsList :: "'e settings_env_scheme \<Rightarrow> QString list \<Rightarrow> bool \<Rightarrow> AllowedDns \<Rightarrow> AllowedDns" where
  "addDnsList env dnsServers replaceExisting s =
     store_dns env (append_new dnsServers (if replaceExisting then [] else m_dnsServers s)) s"

definition remove_at :: "nat \<Rightarrow> 'a list \<Rightarrow> 'a list" where
  "remove_at i xs = take i xs @ drop (Suc i) xs"

definition removeDns :: "'e settings_env_scheme \<Rightarrow> int \<Rightarrow> AllowedDns \<Rightarrow> AllowedDns" where
  "removeDns env index s =
     (if index < 0 \<or> int (length (m_dnsServers s)) \<le> index then s
      else store_dns env (remove_at (nat index) (m_dnsServers s)) s)"

record AppSplitTunneling =
  apps_settings :: AppSettings
  m_appsRouteMode :: AppsRouteMode
  m_apps :: "InstalledAppInfo list"

definition AppSplitTunneling_new :: "'e settings_env_scheme \<Rightarrow> AppSettings \<Rightarrow> AppSplitTunneling" where
  "AppSplitTunneling_new env repo =
     (let r = setAppsSplitTunnelingEnabled env False repo;
          (mode, r1) = appsRouteMode env r
      in if mode = VpnAllApps then
           let (apps, r2) = vpnApps env VpnAllExceptApps r1
           in \<lparr>apps_settings = setAppsRouteMode env VpnAllExceptApps r2,
               m_appsRouteMode = VpnAllExceptApps, m_apps = apps\<rparr>
         else
           let (apps, r2) = vpnApps env mode r1
           in \<lparr>apps_settings = r2, m_appsRouteMode = mode, m_apps = apps\<rparr>)"

definition store_apps :: "'e settings_env_scheme \<Rightarrow> InstalledAppInfo list \<Rightarrow> AppSplitTunneling \<Rightarrow> AppSplitTunneling" where
  "store_apps env apps s =
     s\<lparr>m_apps := apps, apps_settings := setVpnApps env (m_appsRouteMode s) apps (apps_settings s)\<rparr>"

definition addApp :: "'e settings_env_scheme \<Rightarrow> InstalledAppInfo \<Rightarrow> AppSplitTunneling \<Rightarrow> bool \<times> AppSplitTunneling" where
  "addApp env appInfo s =
     (if list_ex (\<lambda>a. same_app a appInfo) (m_apps s) then (False, s)
      else (True, store_apps env (m_apps s @ [appInfo]) s))"

definition removeApp :: "'e settings_env_scheme \<Rightarrow> int \<Rightarrow> AppSplitTunneling \<Rightarrow> AppSplitTunneling" where
  "removeApp env index s =
     (if index < 0 \<or> int (length (m_apps s)) \<le> index then s
      else store_apps env (remove_at (nat index) (m_apps s)) s)"

definition clearAppsList :: "'e settings_env_scheme \<Rightarrow> AppSplitTunneling \<Rightarrow> AppSplitTunneling" where
  "clearAppsList env s = store_apps env [] s"

definition apps_setRouteMode :: "'e settings_env_scheme \<Rightarrow> AppsRouteMode \<Rightarrow> AppSplitTunneling \<Rightarrow> AppSplitTunneling" where
  "apps_setRouteMode env mode s =
     (let (apps, r) = vpnApps env mode (apps_settings s)
      in s\<lparr>m_appsRouteMode := mode, m_apps := apps, apps_settings := setAppsRouteMode env mode r\<rparr>)"

definition apps_toggle :: "'e settings_env_scheme \<Rightarrow> bool \<Rightarrow> AppSplitTunneling \<Rightarrow> AppSplitTunneling" where
  "apps_toggle env enabled s =
     s\<lparr>apps_settings := setAppsSplitTunnelingEnabled env False (apps_settings s)\<rparr>"

section \<open>The list of sites mirrors the stored one\<close>

lemma map_of_merge_site:
  "map_of (merge_site h ips m) = (case map_of m h of None \<Rightarrow> map_of m | Some l \<Rightarrow> (map_of m)(h \<mapsto> merge_ips l ips))"
  by (induction h ips m rule: merge_site.induct) (auto split: option.splits)

lemma keys_merge_site [simp]: "map fst (merge_site h ips m) = map fst m"
  by (induction h ips m rule: merge_site.induct) auto

lemma merge_site_none: "map_of m h = None \<Longrightarrow> merge_site h ips m = m"
  by (induction h ips m rule: merge_site.induct) (auto split: if_splits)

lemma map_of_remove_site: "distinct (map fst m) \<Longrightarrow> map_of (remove_site h m) = (map_of m)(h := None)"
proof (induction h m rule: remove_site.induct)
  case (2 h k l m)
  then show ?case
    by (cases "k = h") (auto simp: fun_eq_iff map_of_eq_None_iff)
qed simp

lemma keys_remove_site: "distinct (map fst m) \<Longrightarrow> distinct (map fst (remove_site h m))"
proof -
  have "set (map fst (remove_site h m)) \<subseteq> set (map fst m)" for m
    by (induction h m rule: remove_site.induct) auto
  then show "distinct (map fst m) \<Longrightarrow> ?thesis"
    by (induction h m rule: remove_site.induct) auto
qed

lemma map_of_append_new: "map_of m h = None \<Longrightarrow> map_of (m @ [(h, l)]) = (map_of m)(h \<mapsto> l)"
  by (auto simp: fun_eq_iff map_add_def split: option.split)

lemma add_or_merge_view:
  "list_all (\<lambda>(k, ips). ips_ok ips) sites \<Longrightarrow> distinct (map fst m) \<Longrightarrow>
   map_of (add_or_merge sites m) = merged_view sites (map_of m) \<and> distinct (map fst (add_or_merge sites m))"
proof (induction sites m rule: add_or_merge.induct)
  case (2 h ips sites m)
  have i: "merge_ips [] ips = ips" using 2(2) by (simp add: merge_into)
  let ?m = "if map_of m h = None then m @ [(h, ips)] else merge_site h ips m"
  have m: "map_of ?m = (map_of m)(h \<mapsto> merge_ips (case map_of m h of None \<Rightarrow> [] | Some l \<Rightarrow> l) ips)"
    by (cases "map_of m h") (simp_all add: map_of_append_new [simplified] map_of_merge_site i)
  have d: "distinct (map fst ?m)" using 2(3) by (auto simp: map_of_eq_None_iff)
  have "list_all (\<lambda>(k, ips). ips_ok ips) sites" using 2(2) by simp
  note IH = 2(1) [OF this d]
  have "merged_view ((h, ips) # sites) (map_of m) = merged_view sites (map_of ?m)"
    by (simp only: merged_view_def fold_simps split_conv m)
  with IH show ?case by (simp only: add_or_merge.simps simp_thms)
qed (simp add: merged_view_def)

definition maps_ok :: "AppSettings \<Rightarrow> bool" where
  "maps_ok r = (app_ok r \<and> (\<forall>mode. qmap_ok (sites_of r mode)))"

definition stored_mode :: "AppSettings \<Rightarrow> RouteMode" where
  "stored_mode r =
     (case pref r ''Conf/routeMode'' of None \<Rightarrow> VpnAllSites | Some v \<Rightarrow> routeMode_of_int (variant_toInt v))"

lemma routeMode_facts:
  assumes "app_ok r"
  shows "fst (routeMode env r) = stored_mode r" "app_ok (snd (routeMode env r))"
    "sites_of (snd (routeMode env r)) mode = sites_of r mode" "stored_mode (snd (routeMode env r)) = stored_mode r"
proof -
  have k: "plain_key ''Conf/routeMode''" by simp
  note f = app_value_facts [OF assms k]
  show "fst (routeMode env r) = stored_mode r" "app_ok (snd (routeMode env r))"
    "sites_of (snd (routeMode env r)) mode = sites_of r mode" "stored_mode (snd (routeMode env r)) = stored_mode r"
    by (simp_all add: routeMode_def sites_of_def stored_mode_def f case_prod_beta routeMode_of_int_def split: option.split)
qed

definition mirrored :: "IpSplitTunneling \<Rightarrow> bool" where
  "mirrored s =
     (maps_ok (split_settings s) \<and> stored_mode (split_settings s) = m_currentRouteMode s \<and>
      map_of (m_sites s) = site_ips (split_settings s) (m_currentRouteMode s) \<and> distinct (map fst (m_sites s)))"

lemma maps_ok_step:
  assumes "maps_ok r" "keeps_rest mode r r'" "qmap_ok (sites_of r' mode)"
  shows "maps_ok r'" "stored_mode r' = stored_mode r"
proof -
  have "qmap_ok (sites_of r' mode')" for mode'
    using assms by (cases "routeModeString mode' = routeModeString mode")
      (simp_all add: same_mode_sites [of mode' mode] keeps_rest_def maps_ok_def)
  then show "maps_ok r'" "stored_mode r' = stored_mode r"
    using assms(2) by (simp_all add: maps_ok_def keeps_rest_def stored_mode_def)
qed

lemma mirrored_step:
  assumes "mirrored s" "keeps_rest (m_currentRouteMode s) (split_settings s) (split_settings s')"
    and "qmap_ok (sites_of (split_settings s') (m_currentRouteMode s))" "m_currentRouteMode s' = m_currentRouteMode s"
    and "map_of (m_sites s') = site_ips (split_settings s') (m_currentRouteMode s)" "distinct (map fst (m_sites s'))"
  shows "mirrored s'"
  using assms maps_ok_step [OF _ assms(2,3)] by (simp add: mirrored_def)

lemma mirroredD:
  assumes "mirrored s"
  shows "app_ok (split_settings s)" "maps_ok (split_settings s)" "stored_mode (split_settings s) = m_currentRouteMode s"
    "qmap_ok (sites_of (split_settings s) mode)" "distinct (map fst (m_sites s))"
    "map_of (m_sites s) = site_ips (split_settings s) (m_currentRouteMode s)"
  using assms by (simp_all add: mirrored_def maps_ok_def)

lemma mirrored_read:
  "mirrored s \<Longrightarrow> mirrored (s\<lparr>split_settings := snd (vpnSites env mode (split_settings s))\<rparr>)"
proof -
  assume m: "mirrored s"
  note v = vpnSites_facts [OF mirroredD(1) [OF m]]
  show ?thesis
    by (rule mirrored_step [OF m])
      (simp_all add: keeps_vpnSites mirroredD(1) [OF m] v(3) mirroredD(4,5) [OF m] site_ips_comp mirroredD(6) [OF m])
qed

lemma mirrored_lookups [simp]: "mirrored (s\<lparr>split_lookups := l\<rparr>) = mirrored s"
  by (simp add: mirrored_def)

lemma mirrored_add:
  assumes "mirrored s" "map_of m = (map_of (m_sites s))(h \<mapsto> merge_ips (case map_of (m_sites s) h of None \<Rightarrow> [] | Some l \<Rightarrow> l) ips)"
    and "distinct (map fst m)"
  shows "mirrored (repo_addSite env h ips (s\<lparr>m_sites := m\<rparr>))"
proof (rule mirrored_step [OF assms(1)])
  note d = mirroredD [OF assms(1)]
  note a = addVpnSite_sites [OF d(1)]
  show "map_of (m_sites (repo_addSite env h ips (s\<lparr>m_sites := m\<rparr>))) =
      site_ips (split_settings (repo_addSite env h ips (s\<lparr>m_sites := m\<rparr>))) (m_currentRouteMode s)"
    by (simp add: repo_addSite_def a(1) assms(2) d(6))
qed (simp_all add: repo_addSite_def addVpnSite_sites mirroredD [OF assms(1)] assms(3))

lemma mirrored_addSiteInternal:
  assumes "mirrored s" "ips_ok ips"
  shows "mirrored (snd (addSiteInternal env h ips s))"
proof -
  let ?s1 = "s\<lparr>split_settings := snd (vpnSites env (m_currentRouteMode s) (split_settings s))\<rparr>"
  have m: "mirrored ?s1" by (rule mirrored_read [OF assms(1)])
  have i: "merge_ips [] ips = ips" using assms(2) by (simp add: merge_into)
  have new: "map_of (m_sites s) h = None \<Longrightarrow>
      mirrored (repo_addSite env h ips (?s1\<lparr>m_sites := m_sites s @ [(h, ips)]\<rparr>))"
    by (rule mirrored_add [OF m])
      (simp_all add: map_of_append_new [simplified] i map_of_eq_None_iff [symmetric] mirroredD(5) [OF assms(1)])
  have old: "map_of (m_sites s) h = Some l \<Longrightarrow>
      mirrored (repo_addSite env h ips (?s1\<lparr>m_sites := merge_site h ips (m_sites s)\<rparr>))" for l
    by (rule mirrored_add [OF m]) (simp_all add: map_of_merge_site mirroredD(5) [OF assms(1)])
  show ?thesis
    using m new old by (simp add: addSiteInternal_def case_prod_beta Let_def split: option.split)
qed

lemma mirrored_addSite: "mirrored s \<Longrightarrow> mirrored (snd (addSite env h s))"
  using mirrored_addSiteInternal [of s "[]" env "normalizeHostname h"]
  by (simp add: addSite_def Let_def case_prod_beta ips_ok_def)

lemma mirrored_addSites:
  assumes m: "mirrored s" and ok: "qmap_ok sites" "list_all (\<lambda>(k, ips). ips_ok ips) sites"
  shows "mirrored (addSites env sites rep s)"
proof (cases rep)
  note d = mirroredD [OF m]
  case True
  have "map_of (map (\<lambda>(k, ips). (k, normalized_ips ips)) sites) = map_option normalized_ips \<circ> map_of sites"
    by (rule map_of_map_value)
  then show ?thesis
    by (intro mirrored_step [OF m])
      (simp_all add: addSites_def True replaceVpnSites_sites d(1) ok(1) comp_def case_prod_beta
        qmap_ok_distinct [OF ok(1), unfolded comp_def])
next
  note d = mirroredD [OF m]
  case False
  show ?thesis
    by (intro mirrored_step [OF m])
      (simp_all add: addSites_def False addVpnSites_sites d add_or_merge_view [OF ok(2)])
qed

lemma import_sites_ok:
  "qmap_ok sites \<Longrightarrow> list_all (\<lambda>(k, ips). ips_ok ips) sites \<Longrightarrow>
   qmap_ok (import_sites vs sites) \<and> list_all (\<lambda>(k, ips). ips_ok ips) (import_sites vs sites)"
proof (induction vs arbitrary: sites)
  case (Cons v vs)
  have i: "list_all (\<lambda>(k, ips). ips_ok ips) m \<Longrightarrow> ips_ok l \<Longrightarrow> list_all (\<lambda>(k, ips). ips_ok ips) (qmap_insert h l m)"
    for h l and m :: site_list by (induction h l m rule: qmap_insert.induct) auto
  have "ips_ok (import_ips (json_toObject v))" by (simp add: import_ips_def Let_def)
  then show ?case using Cons by (simp add: Let_def i qmap_ok_insert)
qed simp

lemma mirrored_import: "mirrored s \<Longrightarrow> mirrored (snd (importSitesFromJson env parsed rep s))"
  using mirrored_addSites [of s] import_sites_ok [of "[]"]
  by (auto simp: importSitesFromJson_def qmap_ok_def split: sum.split)

lemma mirrored_removeSite: "mirrored s \<Longrightarrow> mirrored (snd (removeSite env h s))"
proof (cases "map_of (m_sites s) h = None")
  assume m: "mirrored s"
  note d = mirroredD [OF m]
  case False
  show ?thesis
    by (rule mirrored_step [OF m])
      (simp_all add: removeSite_def False removeVpnSite_sites d(1,4,5) map_of_remove_site keys_remove_site d(6) [symmetric])
qed (simp add: removeSite_def)

lemma mirrored_removeSites: "mirrored s \<Longrightarrow> mirrored (removeSites env s)"
proof -
  assume m: "mirrored s"
  note r = removeAllVpnSites_sites [OF mirroredD(1) [OF m]]
  show ?thesis by (rule mirrored_step [OF m]) (simp_all add: removeSites_def r)
qed

lemma mirrored_fill:
  assumes "maps_ok (split_settings s)" "stored_mode (split_settings s) = mode"
  shows "mirrored (fillSites env (s\<lparr>m_currentRouteMode := mode\<rparr>))"
proof -
  have a: "app_ok (split_settings s)" using assms(1) by (simp add: maps_ok_def)
  note v = vpnSites_facts [OF a]
  have st: "stored_mode (snd (vpnSites env mode (split_settings s))) = stored_mode (split_settings s)"
    by (simp add: stored_mode_def v)
  have q: "qmap_ok (sites_of (split_settings s) mode)" using assms(1) by (simp add: maps_ok_def)
  show ?thesis
    using assms by (simp add: fillSites_def mirrored_def case_prod_beta v maps_ok_def st map_of_map_value site_ips_comp
        comp_def qmap_ok_distinct [OF q, unfolded comp_def])
qed

lemma maps_ok_setRouteMode:
  assumes "maps_ok r" "routeMode_of_int (routeMode_int mode) = mode"
  shows "maps_ok (setRouteMode env mode r)" "stored_mode (setRouteMode env mode r) = mode"
    "site_ips (setRouteMode env mode r) mode' = site_ips r mode'"
  using assms by (simp_all add: maps_ok_def setRouteMode_def sites_of_def stored_mode_def site_ips_comp)

lemma fill_then_mode:
  "fillSites env (s\<lparr>m_currentRouteMode := mode\<rparr>) = t \<Longrightarrow> app_ok (split_settings s) \<Longrightarrow>
   m_sites t = map (\<lambda>(k, v). (k, siteIpList v)) (sites_of (split_settings s) mode) \<and> m_currentRouteMode t = mode \<and>
   split_settings t = snd (vpnSites env mode (split_settings s))"
  by (auto simp: fillSites_def case_prod_beta vpnSites_facts)

lemma mirrored_setRouteMode:
  assumes m: "mirrored s" and r: "routeMode_of_int (routeMode_int mode) = mode"
  shows "mirrored (split_setRouteMode env mode s)"
proof -
  note d = mirroredD [OF m]
  let ?t = "fillSites env (s\<lparr>m_currentRouteMode := mode\<rparr>)"
  have t: "m_sites ?t = map (\<lambda>(k, v). (k, siteIpList v)) (sites_of (split_settings s) mode)"
    "m_currentRouteMode ?t = mode" "split_settings ?t = snd (vpnSites env mode (split_settings s))"
    using fill_then_mode [OF refl d(1)] by blast+
  have ok: "maps_ok (split_settings ?t)"
    using d(2) by (simp add: t maps_ok_def vpnSites_facts)
  have "site_ips (split_settings ?t) mode = map_of (m_sites ?t)"
    by (simp add: t site_ips_comp vpnSites_facts [OF d(1)] map_of_map_value)
  moreover have "distinct (map fst (m_sites ?t))"
    using qmap_ok_distinct [OF d(4), of mode] by (simp add: t comp_def case_prod_beta)
  ultimately show ?thesis
    using maps_ok_setRouteMode [OF ok r, where env = env] t(2) by (simp add: split_setRouteMode_def Let_def mirrored_def)
qed

lemma mirrored_toggle: "mirrored s \<Longrightarrow> mirrored (split_toggle env b s)"
  by (simp add: mirrored_def split_toggle_def setSitesSplitTunnelingEnabled_def maps_ok_def sites_of_def stored_mode_def
      site_ips_comp)

lemma mirrored_resolved:
  assumes m: "mirrored s" and h: "map_of (m_sites s) h \<noteq> None"
  shows "mirrored (onHostResolved env h ips s)"
proof -
  obtain l where l: "map_of (m_sites s) h = Some l" using h by blast
  have "mirrored (repo_addSite env h i (s\<lparr>m_sites := merge_site h i (m_sites s)\<rparr>))" for i
    by (rule mirrored_add [OF m]) (simp_all add: map_of_merge_site l mirroredD(5) [OF m])
  then show ?thesis using m by (simp add: onHostResolved_def Let_def)
qed

lemma mirrored_new:
  assumes "maps_ok r"
  shows "mirrored (IpSplitTunneling_new env r)"
proof -
  note f = routeMode_facts [OF assms [unfolded maps_ok_def, THEN conjunct1]]
  let ?r = "snd (routeMode env r)"
  have ok: "maps_ok ?r" using assms by (simp add: maps_ok_def f)
  let ?r1 = "if stored_mode r = VpnAllSites then setRouteMode env VpnOnlyForwardSites ?r else ?r"
  let ?mode = "if stored_mode r = VpnAllSites then VpnOnlyForwardSites else stored_mode r"
  have "maps_ok ?r1" "stored_mode ?r1 = ?mode"
    using ok maps_ok_setRouteMode [OF ok, of VpnOnlyForwardSites env] by (simp_all add: f routeMode_of_int_def)
  then have "mirrored (fillSites env
      (\<lparr>split_settings = ?r1, m_currentRouteMode = ?mode, m_sites = [], split_lookups = []\<rparr>\<lparr>m_currentRouteMode := ?mode\<rparr>))"
    by (intro mirrored_fill) simp_all
  then show ?thesis by (simp add: IpSplitTunneling_new_def case_prod_beta f Let_def split: if_splits)
qed

text \<open>
  The states the controller can reach. A lookup that is answered concerns a site that is still
  in the list.
\<close>

inductive split_reachable :: "'e settings_env_scheme \<Rightarrow> IpSplitTunneling \<Rightarrow> bool" for env where
  start: "maps_ok r \<Longrightarrow> split_reachable env (IpSplitTunneling_new env r)"
| add: "split_reachable env s \<Longrightarrow> split_reachable env (snd (addSite env h s))"
| add_all: "split_reachable env s \<Longrightarrow> qmap_ok sites \<Longrightarrow> list_all (\<lambda>(k, ips). ips_ok ips) sites \<Longrightarrow>
    split_reachable env (addSites env sites rep s)"
| imported: "split_reachable env s \<Longrightarrow> split_reachable env (snd (importSitesFromJson env parsed rep s))"
| removed: "split_reachable env s \<Longrightarrow> split_reachable env (snd (removeSite env h s))"
| cleared: "split_reachable env s \<Longrightarrow> split_reachable env (removeSites env s)"
| mode: "split_reachable env s \<Longrightarrow> routeMode_of_int (routeMode_int md) = md \<Longrightarrow>
    split_reachable env (split_setRouteMode env md s)"
| toggled: "split_reachable env s \<Longrightarrow> split_reachable env (split_toggle env b s)"
| resolved: "split_reachable env s \<Longrightarrow> map_of (m_sites s) h \<noteq> None \<Longrightarrow>
    split_reachable env (onHostResolved env h ips s)"

lemma reachable_mirrored: "split_reachable env s \<Longrightarrow> mirrored s"
  by (induction rule: split_reachable.induct)
    (simp_all add: mirrored_new mirrored_addSite mirrored_addSites mirrored_import mirrored_removeSite
      mirrored_removeSites mirrored_setRouteMode mirrored_toggle mirrored_resolved)

section \<open>Names and exported lists\<close>

lemma remove_str_id: "c \<in> set pat \<Longrightarrow> c \<notin> set s \<Longrightarrow> remove_str pat s = s"
proof (induction pat s rule: remove_str.induct)
  case (2 pat a cs)
  have "take (length pat) (a # cs) \<noteq> pat"
    using 2(3,4) set_take_subset [of "length pat" "a # cs"] by (metis subsetD)
  with 2 show ?case by simp
qed simp

lemma split_piece: "p \<in> set (split_str [c] s) \<Longrightarrow> c \<notin> set p"
proof (induction "[c]" s arbitrary: p rule: split_str.induct)
  case (2 a cs)
  then show ?case by (cases "a = c") (auto split: list.splits)
qed simp

lemma split_none: "c \<notin> set s \<Longrightarrow> split_str [c] s = [s]"
  by (induction "[c]" s rule: split_str.induct) auto

lemma split_set: "set s \<subseteq> insert c (\<Union> (set ` set (split_str [c] s)))"
proof (induction "[c]" s rule: split_str.induct)
  case (2 a cs)
  show ?case
  proof (cases "a = c")
    case False
    with 2(2) have "set cs \<subseteq> insert c (\<Union> (set ` set (split_str [c] cs)))" by simp
    with False show ?thesis by (cases "split_str [c] cs") auto
  qed (use 2(1) in auto)
qed simp

lemma ip_text_chars: "ip_text s \<Longrightarrow> x \<in> set s \<Longrightarrow> isDigit x \<or> x = CHR ''.''"
  using split_set [of s "CHR ''.''"]
  by (auto simp: ip_text_def Let_def list_all_iff plain_number_def dest!: subsetD)

lemma regexp_chars:
  assumes "ipAddressWithSubnetRegExp s" "x \<in> set s"
  shows "isDigit x \<or> x = CHR ''.'' \<or> x = CHR ''/''"
proof -
  obtain p where p: "x = CHR ''/'' \<or> p \<in> set (split_str ''/'' s) \<and> x \<in> set p"
    using split_set [of s "CHR ''/''"] assms(2) by auto
  have "p \<in> set (split_str ''/'' s) \<Longrightarrow> ip_text p \<or> plain_number 32 p"
    using assms(1) by (auto simp: ipAddressWithSubnetRegExp_def split: list.splits)
  with p ip_text_chars [of p x] show ?thesis by (auto simp: plain_number_def list_all_iff)
qed

text \<open>Normalizing a name twice changes nothing more.\<close>

lemma normalize_idem: "normalizeHostname (normalizeHostname h) = normalizeHostname h"
proof -
  define n where "n = remove_str ''ftp://'' (remove_str ''http://'' (remove_str ''https://'' h))"
  have no_t: "ipAddressWithSubnetRegExp n \<Longrightarrow> CHR ''t'' \<notin> set n"
    using regexp_chars [of n "CHR ''t''"] by (auto simp: isDigit_def)
  show ?thesis
  proof (cases "ipAddressWithSubnetRegExp n")
    case True
    then have "normalizeHostname h = n" by (simp add: normalizeHostname_def n_def [symmetric])
    moreover have "normalizeHostname n = n"
      using True no_t by (simp add: normalizeHostname_def remove_str_id [of "CHR ''t''"])
    ultimately show ?thesis by simp
  next
    case False
    then have h: "normalizeHostname h = (case filter (\<lambda>p. p \<noteq> []) (split_str ''/'' n) of [] \<Rightarrow> '''' | p # ps \<Rightarrow> p)"
      by (simp add: normalizeHostname_def n_def [symmetric])
    then have "normalizeHostname h = '''' \<or> normalizeHostname h \<in> set (split_str ''/'' n)"
      using filter_set [of "\<lambda>p. p \<noteq> []" "split_str ''/'' n"]
      by (cases "filter (\<lambda>p. p \<noteq> []) (split_str ''/'' n)") auto
    then have "CHR ''/'' \<notin> set (normalizeHostname h)" using split_piece by fastforce
    then show ?thesis
      by (simp add: normalizeHostname_def [of "normalizeHostname h"] remove_str_id [of "CHR ''/''"] split_none Let_def)
  qed
qed

definition site_name :: "QString \<Rightarrow> bool" where
  "site_name h = (normalizeHostname h = h \<and> validateHostname h)"

lemma normalized_again: "ips_ok ips \<Longrightarrow> ip \<in> set ips \<Longrightarrow> normalized_ips (ips @ [ip]) = ips"
proof -
  assume ok: "ips_ok ips" and ip: "ip \<in> set ips"
  then have f: "filter (\<lambda>ip. ip \<noteq> '''') (ips @ [ip]) = ips @ [ip]" by (intro filter_True) (auto simp: ips_ok_def)
  have r: "remdups (rev ips) = rev ips" using ok by (simp add: ips_ok_def)
  have "remdups (rev (ips @ [ip])) = remdups (rev ips)" using ip by simp
  then show ?thesis by (simp only: normalized_ips_def f r rev_rev_ident)
qed

lemma import_exported_ips:
  assumes "ips_ok ips"
  shows "import_ips (json_toObject (site_json (h, ips))) = ips"
proof (cases ips)
  case (Cons ip rest)
  then have "ip \<noteq> ''''" "ip \<in> set ips" using assms by (auto simp: ips_ok_def)
  with Cons normalized_again [OF assms, of ip] show ?thesis
    by (simp add: import_ips_def site_json_def Let_def comp_def)
qed (simp add: import_ips_def site_json_def Let_def normalized_ips_def)

lemma import_exported:
  "list_all (\<lambda>(h, ips). site_name h \<and> ips_ok ips) m \<Longrightarrow> distinct (map fst m) \<Longrightarrow>
   map_of (import_sites (map site_json m) acc) = map_of acc ++ map_of m"
proof (induction m arbitrary: acc)
  case (Cons x m)
  obtain h ips where x: "x = (h, ips)" by (cases x)
  have "json_toString (obj_value (json_toObject (site_json (h, ips))) ''hostname'') = h" by (simp add: site_json_def)
  moreover have "h \<notin> dom (map_of m)" using Cons.prems(2) x by (simp add: dom_map_of_conv_image_fst)
  ultimately show ?case
    using Cons x
    by (auto simp: Let_def import_exported_ips site_name_def fun_eq_iff map_add_def dom_def split: option.split)
qed simp

section \<open>Properties\<close>

definition example_settings :: AppSettings where
  "example_settings = open_app_settings example_env example_store"

lemma example_settings_store: "app_store example_settings = example_store"
  by (simp add: example_settings_def open_app_settings_def app_value_def settings_value_def example_store_def)

lemma example_pref: "pref example_settings k = (if k = ''Conf/encrypted'' then Some (VBool True) else None)"
  by (simp add: pref_def plain_value_def example_settings_store example_store_def)

lemma example_maps_ok: "maps_ok example_settings"
proof -
  have "sites_of example_settings mode = []" for mode
    by (cases mode) (simp_all add: sites_of_def example_pref routeMode_key_def)
  then show ?thesis
    by (simp add: maps_ok_def app_ok_def example_settings_store plain_ok_def example_store_def qmap_ok_def)
qed


definition example_split :: IpSplitTunneling where
  "example_split = snd (addSite example_env ''https://example.org/x'' (IpSplitTunneling_new example_env example_settings))"


text \<open>
  C38: an answer that comes late brings a site back. When a name is resolved after its site has
  been removed from the list, or after the mode was changed, the site is stored under the
  current mode, with the addresses found, and the list does not show it.
\<close>

theorem late_answer_stores_site:
  assumes "mirrored s" "map_of (m_sites s) h = None" "ipv4 \<noteq> []" "'''' \<notin> set ipv4"
  shows "map_of (m_sites (onHostResolved env h ipv4 s)) h = None \<and>
    site_ips (split_settings (onHostResolved env h ipv4 s)) (m_currentRouteMode s) h = Some (rev (remdups (rev ipv4)))"
proof -
  let ?ips = "rev (remdups (rev ipv4))"
  note d = mirroredD [OF assms(1)]
  have ne: "?ips \<noteq> []" using assms(3) by simp
  have i: "merge_ips [] ?ips = ?ips" using assms(4) by (intro merge_into [of "[]", simplified]) (simp add: ips_ok_def)
  have k: "site_ips (split_settings s) (m_currentRouteMode s) h = None" using assms(2) d(6) by simp
  have "merge_site h ?ips (m_sites s) = m_sites s" using assms(2) by (rule merge_site_none)
  with ne k i assms(2) show ?thesis
    by (simp add: onHostResolved_def repo_addSite_def Let_def addVpnSite_sites(1) [OF d(1)])
qed

theorem late_answer_stores_site_witness:
  "\<exists>ips. site_ips (split_settings (onHostResolved example_env ''example.org'' [''192.0.2.7'']
      (IpSplitTunneling_new example_env example_settings)))
    (m_currentRouteMode (IpSplitTunneling_new example_env example_settings)) ''example.org'' = Some ips"
proof -
  have m: "mirrored (IpSplitTunneling_new example_env example_settings)" by (rule mirrored_new [OF example_maps_ok])
  have "m_sites (IpSplitTunneling_new example_env example_settings) = []"
    by (simp add: IpSplitTunneling_new_def fillSites_def routeMode_def vpnSites_def app_value_def settings_value_def
        example_settings_def open_app_settings_def example_store_def routeMode_of_int_def setRouteMode_def app_emit_def
        app_setValue_def setValue_def encryptedKeys_def routeMode_key_def Let_def)
  then show ?thesis using late_answer_stores_site [OF m, of "''example.org''" "[''192.0.2.7'']" example_env] by simp
qed



end
