(* ===== verification/Preference_Lists.thy ===== *)
theory Preference_Lists
  imports Split_Tunneling
begin

text \<open>
  Lists of preferences that a controller holds in memory and writes back as a whole: the allowed
  resolvers and the applications of \<open>Split_Tunneling\<close>. The locale is what such a controller offers;
  it is interpreted on both, and their operations are shown to keep memory and settings equal.
\<close>

section \<open>A list that is written back\<close>

locale stored_list =
  fixes shown :: "'s \<Rightarrow> 'a list" and kept :: "'s \<Rightarrow> 'a list" and ok :: "'s \<Rightarrow> bool"
    and store :: "'a list \<Rightarrow> 's \<Rightarrow> 's"
  assumes shown_store: "shown (store xs s) = xs"
    and kept_store: "ok s \<Longrightarrow> kept (store xs s) = xs"
    and ok_store: "ok s \<Longrightarrow> ok (store xs s)"
begin

lemma store_synced: "ok s \<Longrightarrow> ok (store xs s) \<and> kept (store xs s) = shown (store xs s)"
  by (simp add: shown_store kept_store ok_store)

lemma store_synced_if:
  "ok s \<Longrightarrow> kept s = shown s \<Longrightarrow> s' = s \<or> s' = store xs s \<Longrightarrow> ok s' \<and> kept s' = shown s'"
  using store_synced by auto

end

lemma remove_at_set: "set (remove_at i xs) \<subseteq> set xs"
  by (auto simp: remove_at_def dest: in_set_takeD in_set_dropD)

lemma remove_at_distinct: "distinct xs \<Longrightarrow> distinct (remove_at i xs)"
  by (simp add: remove_at_def set_take_disj_set_drop_if_distinct)

lemma remove_at_length: "i < length xs \<Longrightarrow> length (remove_at i xs) = length xs - 1"
  by (simp add: remove_at_def)

lemma append_new_facts:
  "set (append_new ips known) = set known \<union> set ips" "distinct known \<Longrightarrow> distinct (append_new ips known)"
  by (induction ips known rule: append_new.induct) auto

section \<open>Allowed resolvers\<close>

definition dns_pref :: "AppSettings \<Rightarrow> QString list" where
  "dns_pref r = (case pref r ''Conf/allowedDnsServers'' of None \<Rightarrow> [] | Some v \<Rightarrow> variant_toStringList v)"

lemma getAllowedDns_facts:
  assumes "app_ok r"
  shows "fst (getAllowedDnsServers env r) = dns_pref r" "app_ok (snd (getAllowedDnsServers env r))"
    "dns_pref (snd (getAllowedDnsServers env r)) = dns_pref r"
  by (simp_all add: getAllowedDnsServers_def dns_pref_def app_value_facts [OF assms] case_prod_beta split: option.split)

interpretation dns: stored_list m_dnsServers "\<lambda>s. dns_pref (dns_settings s)" "\<lambda>s. app_ok (dns_settings s)" "store_dns env"
  for env :: "'e settings_env_scheme"
  by unfold_locales (simp_all add: store_dns_def setAllowedDnsServers_def dns_pref_def)

inductive dns_reachable :: "'e settings_env_scheme \<Rightarrow> AllowedDns \<Rightarrow> bool" for env where
  start: "app_ok r \<Longrightarrow> distinct (dns_pref r) \<Longrightarrow> dns_reachable env (AllowedDns_new env r)"
| add: "dns_reachable env s \<Longrightarrow> dns_reachable env (snd (addDns env ip s))"
| add_all: "dns_reachable env s \<Longrightarrow> dns_reachable env (addDnsList env ips rep s)"
| removed: "dns_reachable env s \<Longrightarrow> dns_reachable env (removeDns env i s)"

lemma dns_reachable_synced:
  "dns_reachable env s \<Longrightarrow>
   (app_ok (dns_settings s) \<and> dns_pref (dns_settings s) = m_dnsServers s) \<and> distinct (m_dnsServers s)"
proof (induction rule: dns_reachable.induct)
  case (start r)
  then show ?case by (simp add: AllowedDns_new_def case_prod_beta getAllowedDns_facts)
next
  case (add s ip)
  then show ?case
    using dns.store_synced [of s env "m_dnsServers s @ [ip]"] by (simp add: addDns_def dns.shown_store)
next
  case (add_all s ips rep)
  then show ?case
    using dns.store_synced [of s env] by (simp add: addDnsList_def dns.shown_store append_new_facts)
next
  case (removed s i)
  then show ?case
    using dns.store_synced [of s env] by (simp add: removeDns_def dns.shown_store remove_at_distinct)
qed

section \<open>Applications\<close>

lemma app_of_json_of_app [simp]: "app_of_json (json_of_app a) = a"
  by (simp add: app_of_json_def json_of_app_def)

definition apps_of :: "AppSettings \<Rightarrow> AppsRouteMode \<Rightarrow> InstalledAppInfo list" where
  "apps_of r mode =
     (case pref r (appsRouteMode_key mode) of None \<Rightarrow> [] | Some v \<Rightarrow> map app_of_json (variant_toJsonArray v))"

definition stored_apps_mode :: "AppSettings \<Rightarrow> AppsRouteMode" where
  "stored_apps_mode r =
     (case pref r ''Conf/appsRouteMode'' of None \<Rightarrow> VpnAllApps | Some v \<Rightarrow> appsRouteMode_of_int (variant_toInt v))"

definition apps_pref :: "AppSettings \<Rightarrow> bool" where
  "apps_pref r = (case pref r ''Conf/appsSplitTunnelingEnabled'' of None \<Rightarrow> False | Some v \<Rightarrow> variant_toBool v)"

lemma apps_keys [simp]:
  "appsRouteMode_key mode \<noteq> ''Conf/appsRouteMode''" "appsRouteMode_key mode \<noteq> ''Conf/appsSplitTunnelingEnabled''"
  by (cases mode; simp add: appsRouteMode_key_def)+

text \<open>What is read of a repository, and what each operation on it leaves.\<close>

definition same_apps :: "AppSettings \<Rightarrow> AppSettings \<Rightarrow> bool" where
  "same_apps r r' =
     (app_ok r' \<and> apps_of r' = apps_of r \<and> stored_apps_mode r' = stored_apps_mode r \<and> apps_pref r' = apps_pref r)"

lemma apps_read:
  assumes "app_ok r"
  shows "fst (vpnApps env mode r) = apps_of r mode" "same_apps r (snd (vpnApps env mode r))"
    "fst (appsRouteMode env r) = stored_apps_mode r" "same_apps r (snd (appsRouteMode env r))"
  by (simp_all add: vpnApps_def appsRouteMode_def same_apps_def apps_of_def stored_apps_mode_def apps_pref_def
      app_value_facts [OF assms] case_prod_beta appsRouteMode_of_int_def fun_eq_iff split: option.split)

lemma apps_disabled:
  assumes "app_ok r"
  shows "app_ok (setAppsSplitTunnelingEnabled env b r)" "\<not> apps_pref (setAppsSplitTunnelingEnabled env b r)"
    "apps_of (setAppsSplitTunnelingEnabled env b r) = apps_of r"
    "stored_apps_mode (setAppsSplitTunnelingEnabled env b r) = stored_apps_mode r"
  by (simp_all add: setAppsSplitTunnelingEnabled_def apps_of_def stored_apps_mode_def apps_pref_def Let_def
      bool_setting_facts [OF assms] case_prod_beta fun_eq_iff apps_keys [symmetric] split: option.split)

lemma apps_mode_set:
  assumes "app_ok r" "appsRouteMode_of_int (appsRouteMode_int mode) = mode"
  shows "app_ok (setAppsRouteMode env mode r)" "apps_pref (setAppsRouteMode env mode r) = apps_pref r"
    "apps_of (setAppsRouteMode env mode r) = apps_of r" "stored_apps_mode (setAppsRouteMode env mode r) = mode"
  using assms by (simp_all add: setAppsRouteMode_def apps_of_def stored_apps_mode_def apps_pref_def fun_eq_iff)

definition apps_ready :: "AppSplitTunneling \<Rightarrow> bool" where
  "apps_ready s =
     (app_ok (apps_settings s) \<and> stored_apps_mode (apps_settings s) = m_appsRouteMode s \<and> \<not> apps_pref (apps_settings s))"

interpretation apps: stored_list m_apps "\<lambda>s. apps_of (apps_settings s) (m_appsRouteMode s)" apps_ready "store_apps env"
  for env :: "'e settings_env_scheme"
  by unfold_locales (simp_all add: store_apps_def setVpnApps_def apps_ready_def apps_of_def stored_apps_mode_def
      apps_pref_def comp_def apps_keys [symmetric])

text \<open>The constructor replaces the mode of all applications, which has no list of its own.\<close>

lemma apps_new:
  fixes env r defines "s \<equiv> AppSplitTunneling_new env r"
  assumes ok: "app_ok r"
  shows "apps_ready s \<and> apps_of (apps_settings s) (m_appsRouteMode s) = m_apps s"
proof -
  let ?r = "setAppsSplitTunnelingEnabled env False r"
  note d = apps_disabled [OF ok, of env False]
  note m = apps_read(3,4) [OF d(1), of env]
  let ?r1 = "snd (appsRouteMode env ?r)"
  have r1: "app_ok ?r1" "apps_of ?r1 = apps_of ?r" "stored_apps_mode ?r1 = stored_apps_mode ?r" "\<not> apps_pref ?r1"
    using m(2) d(2) by (simp_all add: same_apps_def)
  have v: "app_ok (snd (vpnApps env mode ?r1))" "apps_of (snd (vpnApps env mode ?r1)) = apps_of ?r"
    "stored_apps_mode (snd (vpnApps env mode ?r1)) = stored_apps_mode ?r" "\<not> apps_pref (snd (vpnApps env mode ?r1))" for mode
    using apps_read(2) [OF r1(1), of env mode] r1 by (simp_all add: same_apps_def)
  have e: "appsRouteMode_of_int (appsRouteMode_int VpnAllExceptApps) = VpnAllExceptApps"
    by (simp add: appsRouteMode_of_int_def)
  show ?thesis
    by (simp add: s_def AppSplitTunneling_new_def case_prod_beta Let_def m(1) apps_ready_def v r1(2)
        apps_read(1) [OF r1(1)] apps_mode_set [OF v(1) e])
qed

inductive apps_reachable :: "'e settings_env_scheme \<Rightarrow> AppSplitTunneling \<Rightarrow> bool" for env where
  start: "app_ok r \<Longrightarrow> apps_reachable env (AppSplitTunneling_new env r)"
| add: "apps_reachable env s \<Longrightarrow> apps_reachable env (snd (addApp env a s))"
| removed: "apps_reachable env s \<Longrightarrow> apps_reachable env (removeApp env i s)"
| cleared: "apps_reachable env s \<Longrightarrow> apps_reachable env (clearAppsList env s)"
| mode: "apps_reachable env s \<Longrightarrow> appsRouteMode_of_int (appsRouteMode_int md) = md \<Longrightarrow>
    apps_reachable env (apps_setRouteMode env md s)"
| toggled: "apps_reachable env s \<Longrightarrow> apps_reachable env (apps_toggle env b s)"

lemma apps_reachable_synced:
  "apps_reachable env s \<Longrightarrow> apps_ready s \<and> apps_of (apps_settings s) (m_appsRouteMode s) = m_apps s"
proof (induction rule: apps_reachable.induct)
  case (start r)
  then show ?case by (rule apps_new)
next
  case (add s a)
  then show ?case
    using apps.store_synced [of s env "m_apps s @ [a]"] by (simp add: addApp_def)
next
  case (removed s i)
  then show ?case
    using apps.store_synced [of s env "remove_at (nat i) (m_apps s)"] by (simp add: removeApp_def)
next
  case (cleared s)
  then show ?case using apps.store_synced [of s env "[]"] by (simp add: clearAppsList_def)
next
  case (mode s md)
  have ok: "app_ok (apps_settings s)" using mode by (simp add: apps_ready_def)
  note v = apps_read(1,2) [OF ok, of env md]
  have ok': "app_ok (snd (vpnApps env md (apps_settings s)))" using v(2) by (simp add: same_apps_def)
  show ?case
    using mode v apps_mode_set [OF ok' mode(2), of env]
    by (simp add: apps_setRouteMode_def case_prod_beta apps_ready_def same_apps_def)
next
  case (toggled s b)
  then show ?case
    using apps_disabled [of "apps_settings s" env False] by (simp add: apps_toggle_def apps_ready_def)
qed

section \<open>Properties\<close>

text \<open>
  C27: resolvers and applications are stored as they are shown. In every state that the two
  controllers reach, the settings hold the list of resolvers, which has no duplicates, and the list
  of applications of the current mode, and routing by application is off.
\<close>

theorem lists_mirror_settings:
  assumes "dns_reachable env d" "apps_reachable env a"
  shows "dns_pref (dns_settings d) = m_dnsServers d \<and> distinct (m_dnsServers d) \<and>
    apps_of (apps_settings a) (m_appsRouteMode a) = m_apps a \<and>
    stored_apps_mode (apps_settings a) = m_appsRouteMode a \<and> \<not> apps_pref (apps_settings a)"
  using dns_reachable_synced [OF assms(1)] apps_reachable_synced [OF assms(2)] by (simp add: apps_ready_def)

theorem lists_mirror_settings_witness:
  "dns_pref (dns_settings (snd (addDns example_env ''9.9.9.9'' (AllowedDns_new example_env example_settings)))) = [''9.9.9.9'']"
proof -
  let ?d = "AllowedDns_new example_env example_settings"
  have ok: "app_ok example_settings" using example_maps_ok by (simp add: maps_ok_def)
  have p: "dns_pref example_settings = []" by (simp add: dns_pref_def example_pref)
  have d: "dns_reachable example_env ?d" by (rule dns_reachable.start [OF ok]) (simp add: p)
  have "m_dnsServers ?d = []"
    by (simp add: AllowedDns_new_def case_prod_beta getAllowedDns_facts [OF ok] p)
  then show ?thesis
    using lists_mirror_settings [OF dns_reachable.add [OF d, of "''9.9.9.9''"] apps_reachable.start [OF ok]]
    by (simp add: addDns_def store_dns_def)
qed

end
