(* ===== verification/Daemon_Connection.thy ===== *)
theory Daemon_Connection
  imports Daemon
begin

text \<open>
  \<^verbatim>\<open>client/daemon/daemonlocalserverconnection.cpp\<close>: a client of the daemon's local socket. Requests
  are lines of JSON; answers and the signals of the daemon are written back. The socket is a
  list of the blocks that \<open>readAll\<close> returns, and the objects written are recorded.
\<close>

section \<open>The connection\<close>

record 'w connection =
  m_buffer :: QByteArray
  conn_daemon :: "'w Daemon"
  conn_written :: "QJsonObject list"

record 'w connection_env = "'w daemon_env" +
  json_object :: "QByteArray \<Rightarrow> QJsonObject option"

definition conn_write :: "QJsonObject \<Rightarrow> 'w connection \<Rightarrow> 'w connection" where
  "conn_write obj s = s\<lparr>conn_written := conn_written s @ [obj]\<rparr>"

definition connected_message :: "QString \<Rightarrow> QJsonObject" where
  "connected_message pubkey = obj_insert ''pubkey'' (JString pubkey) (obj_insert ''type'' (JString ''connected'') [])"

definition disconnected_message :: QJsonObject where
  "disconnected_message = obj_insert ''type'' (JString ''disconnected'') []"

datatype DaemonError =
    ERROR_NONE | ERROR_FATAL | ERROR_SPLIT_TUNNEL_INIT_FAILURE
  | ERROR_SPLIT_TUNNEL_START_FAILURE | ERROR_SPLIT_TUNNEL_EXCLUDE_FAILURE

fun DaemonError_code :: "DaemonError \<Rightarrow> int" where
  "DaemonError_code ERROR_NONE = 0"
| "DaemonError_code ERROR_FATAL = 1"
| "DaemonError_code ERROR_SPLIT_TUNNEL_INIT_FAILURE = 2"
| "DaemonError_code ERROR_SPLIT_TUNNEL_START_FAILURE = 3"
| "DaemonError_code ERROR_SPLIT_TUNNEL_EXCLUDE_FAILURE = 4"

definition backendFailure :: "DaemonError \<Rightarrow> 'w connection \<Rightarrow> 'w connection" where
  "backendFailure err s =
     conn_write (obj_insert ''errorCode'' (JDouble (of_int (DaemonError_code err)))
       (obj_insert ''type'' (JString ''backendFailure'') [])) s"

text \<open>The slots connected to the signals of the daemon run while the daemon emits them.\<close>

fun signal_messages :: "(daemon_call \<times> bool) list \<Rightarrow> QJsonObject list" where
  "signal_messages [] = []"
| "signal_messages ((Connected pubkey, ok) # cs) = connected_message pubkey # signal_messages cs"
| "signal_messages ((Disconnected, ok) # cs) = disconnected_message # signal_messages cs"
| "signal_messages (_ # cs) = signal_messages cs"

definition run_daemon :: "'w Daemon \<Rightarrow> 'w connection \<Rightarrow> 'w connection" where
  "run_daemon d s =
     s\<lparr>conn_daemon := d,
       conn_written := conn_written s @
         signal_messages (drop (length (daemon_calls (conn_daemon s))) (daemon_calls d))\<rparr>"

definition logs_message :: QJsonObject where
  "logs_message = obj_insert ''logs'' (JString '''') (obj_insert ''type'' (JString ''logs'') [])"

definition handle_activate ::
  "('w, 'e) connection_env_scheme \<Rightarrow> QJsonObject \<Rightarrow> 'w connection \<Rightarrow> 'w connection" where
  "handle_activate env obj s =
     (case parseConfig env obj (InterfaceConfig_new SingleHop False) of
        None \<Rightarrow> conn_write disconnected_message s
      | Some config \<Rightarrow>
          let (ok, d) = activate env config (conn_daemon s);
              s1 = run_daemon d s
          in if ok then s1 else conn_write disconnected_message s1)"

text \<open>The second test for \<open>logs\<close> is never reached, and cleaning the logs does nothing.\<close>

definition parseCommand ::
  "('w, 'e) connection_env_scheme \<Rightarrow> QByteArray \<Rightarrow> 'w connection \<Rightarrow> 'w connection" where
  "parseCommand env data s =
     (case json_object env data of
        None \<Rightarrow> s
      | Some obj \<Rightarrow>
          if \<not> isString (obj_value obj ''type'') then s
          else
            let typ = json_toString (obj_value obj ''type'') in
            if typ = ''logs'' then conn_write logs_message s
            else if typ = ''activate'' then handle_activate env obj s
            else if typ = ''deactivate'' then run_daemon (snd (deactivate env True (conn_daemon s))) s
            else if typ = ''status''
            then conn_write (obj_insert ''type'' (JString ''status'') (getStatus env (conn_daemon s))) s
            else s)"

section \<open>Reading lines\<close>

definition ascii_space :: "char \<Rightarrow> bool" where
  "ascii_space c = (let n = (of_char c :: nat) in (9 \<le> n \<and> n \<le> 13) \<or> n = 32)"

definition bytes_trimmed :: "QByteArray \<Rightarrow> QByteArray" where
  "bytes_trimmed b = rev (dropWhile ascii_space (rev (dropWhile ascii_space b)))"

definition is_newline :: "char \<Rightarrow> bool" where
  "is_newline c = (c = CHR 0x0A)"

lemma conn_write_fields [simp]:
  "m_buffer (conn_write obj s) = m_buffer s" "conn_daemon (conn_write obj s) = conn_daemon s"
  by (simp_all add: conn_write_def)

lemma run_daemon_fields [simp]: "m_buffer (run_daemon d s) = m_buffer s" "conn_daemon (run_daemon d s) = d"
  by (simp_all add: run_daemon_def)

lemma parseCommand_buffer [simp]: "m_buffer (parseCommand env data s) = m_buffer s"
  by (simp add: parseCommand_def handle_activate_def Let_def case_prod_beta split: option.split)

lemma rest_shorter: "c \<in> set b \<Longrightarrow> is_newline c \<Longrightarrow> length (tl (dropWhile (Not \<circ> is_newline) b)) < length b"
proof -
  assume "c \<in> set b" "is_newline c"
  then have "dropWhile (Not \<circ> is_newline) b \<noteq> []" by (auto simp: dropWhile_eq_Nil_conv)
  then show ?thesis using length_dropWhile_le [of "Not \<circ> is_newline" b]
    by (metis length_tl diff_less length_greater_0_conv less_le_trans zero_less_one)
qed

function readData ::
  "('w, 'e) connection_env_scheme \<Rightarrow> QByteArray list \<Rightarrow> 'w connection \<Rightarrow> 'w connection" where
  "readData env socket s =
     (if \<not> list_ex is_newline (m_buffer s) then
        case socket of
          [] \<Rightarrow> s
        | input # rest \<Rightarrow> if input = [] then s else readData env rest (s\<lparr>m_buffer := m_buffer s @ input\<rparr>)
      else
        let line = takeWhile (Not \<circ> is_newline) (m_buffer s);
            s1 = s\<lparr>m_buffer := tl (dropWhile (Not \<circ> is_newline) (m_buffer s))\<rparr>;
            command = bytes_trimmed line
        in if command = [] then readData env socket s1
           else readData env socket (parseCommand env command s1))"
  by pat_completeness auto
termination
  by (relation "measures [\<lambda>(env, socket, s). length socket, \<lambda>(env, socket, s). length (m_buffer s)]")
    (auto simp: list_ex_iff intro: rest_shorter [simplified])

declare readData.simps [simp del]

section \<open>Framing\<close>

text \<open>The reference: the complete lines of a text and what follows the last of them.\<close>

fun frames :: "QByteArray \<Rightarrow> QByteArray list \<times> QByteArray" where
  "frames [] = ([], [])"
| "frames (c # cs) =
     (let (ls, rest) = frames cs
      in if is_newline c then ([] # ls, rest)
         else case ls of [] \<Rightarrow> ([], c # rest) | l # ls' \<Rightarrow> ((c # l) # ls', rest))"

definition commands :: "QByteArray \<Rightarrow> QByteArray list" where
  "commands text = filter (\<lambda>c. c \<noteq> []) (map bytes_trimmed (fst (frames text)))"

lemma frames_no_newline: "\<not> list_ex is_newline b \<Longrightarrow> frames b = ([], b)"
  by (induction b) simp_all

lemma frames_line:
  "list_ex is_newline b \<Longrightarrow> frames (b @ x) =
    (takeWhile (Not \<circ> is_newline) b # fst (frames (tl (dropWhile (Not \<circ> is_newline) b) @ x)),
     snd (frames (tl (dropWhile (Not \<circ> is_newline) b) @ x)))"
  by (induction b) (auto simp: case_prod_beta)

lemma run_daemon_buffer: "run_daemon d (s\<lparr>m_buffer := b\<rparr>) = (run_daemon d s)\<lparr>m_buffer := b\<rparr>"
  by (simp add: run_daemon_def)

lemma conn_write_buffer: "conn_write obj (s\<lparr>m_buffer := b\<rparr>) = (conn_write obj s)\<lparr>m_buffer := b\<rparr>"
  by (simp add: conn_write_def)

lemma parseCommand_any_buffer:
  "parseCommand env data (s\<lparr>m_buffer := b\<rparr>) = (parseCommand env data s)\<lparr>m_buffer := b\<rparr>"
  by (simp add: parseCommand_def handle_activate_def Let_def case_prod_beta run_daemon_buffer
      conn_write_buffer split: option.split)

lemma fold_any_buffer:
  "fold (parseCommand env) cs (s\<lparr>m_buffer := b\<rparr>) = (fold (parseCommand env) cs s)\<lparr>m_buffer := b\<rparr>"
  by (induction cs arbitrary: s) (simp_all add: parseCommand_any_buffer)

lemma readData_frames:
  "list_all (\<lambda>b. b \<noteq> []) socket \<Longrightarrow>
   readData env socket s =
     (fold (parseCommand env) (commands (m_buffer s @ concat socket)) s)
       \<lparr>m_buffer := snd (frames (m_buffer s @ concat socket))\<rparr>"
proof (induction env socket s rule: readData.induct)
  case (1 env socket s)
  let ?b = "m_buffer s" and ?x = "concat socket"
  show ?case
  proof (cases "list_ex is_newline ?b")
    case False
    show ?thesis
    proof (cases socket)
      case Nil
      with False show ?thesis
        by (subst readData.simps) (simp add: frames_no_newline commands_def)
    next
      case (Cons input rest)
      with 1 False have "readData env rest (s\<lparr>m_buffer := ?b @ input\<rparr>) =
          (fold (parseCommand env) (commands (?b @ ?x)) (s\<lparr>m_buffer := ?b @ input\<rparr>))
            \<lparr>m_buffer := snd (frames (?b @ ?x))\<rparr>"
        by simp
      with Cons False "1.prems" show ?thesis
        by (subst readData.simps) (simp add: fold_any_buffer)
    qed
  next
    case True
    define line where "line = takeWhile (Not \<circ> is_newline) ?b"
    define rest where "rest = tl (dropWhile (Not \<circ> is_newline) ?b)"
    define s1 where "s1 = s\<lparr>m_buffer := rest\<rparr>"
    have f: "frames (?b @ ?x) = (line # fst (frames (rest @ ?x)), snd (frames (rest @ ?x)))"
      using frames_line [OF True] by (simp add: line_def rest_def)
    have step: "readData env socket s = readData env socket
        (if bytes_trimmed line = [] then s1 else parseCommand env (bytes_trimmed line) s1)"
      using True by (subst readData.simps) (simp add: line_def rest_def s1_def Let_def)
    have skip: "bytes_trimmed line = [] \<Longrightarrow> readData env socket s1 =
        (fold (parseCommand env) (commands (rest @ ?x)) s1)\<lparr>m_buffer := snd (frames (rest @ ?x))\<rparr>"
      using "1.IH"(2) [OF _ line_def s1_def [unfolded rest_def] refl] True "1.prems" by (simp add: s1_def)
    have go: "bytes_trimmed line \<noteq> [] \<Longrightarrow> readData env socket (parseCommand env (bytes_trimmed line) s1) =
        (fold (parseCommand env) (commands (rest @ ?x)) (parseCommand env (bytes_trimmed line) s1))
          \<lparr>m_buffer := snd (frames (rest @ ?x))\<rparr>"
      using "1.IH"(3) [OF _ line_def s1_def [unfolded rest_def] refl] True "1.prems" by (simp add: s1_def)
    show ?thesis
      using skip go unfolding step
      by (auto simp: f commands_def s1_def fold_any_buffer parseCommand_any_buffer)
  qed
qed

section \<open>Properties\<close>

lemma obj_type_cases:
  "conn_daemon (parseCommand env data s) \<noteq> conn_daemon s \<Longrightarrow>
   \<exists>obj. json_object env data = Some obj \<and>
     (obj_value obj ''type'' = JString ''deactivate'' \<or>
      obj_value obj ''type'' = JString ''activate'' \<and>
      parseConfig env obj (InterfaceConfig_new SingleHop False) \<noteq> None)"
  by (auto simp: parseCommand_def handle_activate_def Let_def case_prod_beta dest: isString_eq
      split: option.splits if_splits)

text \<open>
  An instance: every line is the same request and the platform accepts every call.
\<close>

definition example_connection_env :: "QJsonObject \<Rightarrow> unit connection_env" where
  "example_connection_env obj =
     \<lparr>os_windows = False, parseHost = (\<lambda>t. NullAddress), parseSubnet = (\<lambda>t. (NullAddress, 0)),
      hostToString = (\<lambda>a. ''''), hopTypeKey = (\<lambda>t. Some SingleHop), hopTypeName = (\<lambda>h. ''SingleHop''),
      empty_is_null = True, int_overflow = (\<lambda>x. 0), std_sort = sort_key (\<lambda>ip. - m_prefixLength ip),
      platform = (\<lambda>c w. (True, w)), interfaceExists = (\<lambda>w. False), interfaceName = ''amn0'',
      peerStatus = (\<lambda>w. []), supportIPUtils = True, batches = False, hash_order = (\<lambda>ks. ks),
      dateToString = (\<lambda>d. ''''), json_object = (\<lambda>b. Some obj)\<rparr>"

definition example_connection :: "QByteArray \<Rightarrow> unit connection" where
  "example_connection b = \<lparr>m_buffer = b, conn_daemon = Daemon_new (), conn_written = []\<rparr>"

definition example_request :: QJsonObject where
  "example_request =
     [(''type'', JString ''activate''), (''privateKey'', JString ''k''), (''serverPublicKey'', JString ''p''),
      (''serverPort'', JDouble 51820), (''deviceIpv4Address'', JString ''10.8.0.2''),
      (''serverIpv4AddrIn'', JString ''203.0.113.1''), (''primaryDnsServer'', JString ''1.1.1.1''),
      (''hopType'', JString ''SingleHop''),
      (''allowedIPAddressRanges'', JArray [])]"

lemma sorts_example: "sorts_ranges (example_connection_env obj)"
proof -
  have "sorted (map (\<lambda>ip. - m_prefixLength ip) (sort_key (\<lambda>ip. - m_prefixLength ip) xs))" for xs :: "IPAddress list"
    by (rule sorted_sort_key)
  then show ?thesis by (simp add: sorts_ranges_def example_connection_env_def sorted_wrt_map)
qed

text \<open>
  C20: a request is framed by its line breaks alone. However the socket cuts the bytes into
  blocks, with an unfinished line left over from before, the commands handled are the non-blank
  trimmed lines of the whole text in order, and the buffer keeps what follows the last line break.
\<close>

theorem readData_framing:
  assumes "list_all (\<lambda>b. b \<noteq> []) socket"
  shows "readData env socket s =
    (fold (parseCommand env) (commands (m_buffer s @ concat socket)) s)
      \<lparr>m_buffer := snd (frames (m_buffer s @ concat socket))\<rparr>"
  using assms by (rule readData_frames)

theorem readData_framing_witness:
  "readData (example_connection_env []) [''b'' @ [CHR 0x0A, CHR 0x0A], ''c''] (example_connection ''a'') =
     (parseCommand (example_connection_env []) ''ab'' (example_connection ''a''))\<lparr>m_buffer := ''c''\<rparr>"
proof -
  have "commands (''ab'' @ [CHR 0x0A, CHR 0x0A] @ ''c'') = [''ab'']"
    "frames (''ab'' @ [CHR 0x0A, CHR 0x0A] @ ''c'') = ([''ab'', ''''], ''c'')" by code_simp+
  then show ?thesis
    using readData_framing [of "[''b'' @ [CHR 0x0A, CHR 0x0A], ''c'']" "example_connection_env []" "example_connection ''a''"]
    by (simp add: example_connection_def)
qed

text \<open>
  C12: only checked requests reach the daemon. When a command changes the state of the daemon,
  it is a JSON object whose type is \<open>deactivate\<close>, or \<open>activate\<close> with a configuration
  that has the keys, a numeric port, a device and a server address, an MTU that is not zero (on
  Windows at least 1280), and allowed ranges in the order from the most to the least specific.
\<close>

theorem daemon_request_checked:
  assumes "conn_daemon (parseCommand env data s) \<noteq> conn_daemon s" "sorts_ranges env"
  shows "\<exists>obj. json_object env data = Some obj \<and>
    (obj_value obj ''type'' = JString ''deactivate'' \<or>
     obj_value obj ''type'' = JString ''activate'' \<and>
     (\<exists>config. parseConfig env obj (InterfaceConfig_new SingleHop False) = Some config \<and>
        config_checked env obj config))"
  using obj_type_cases [OF assms(1)] parseConfig_checked [OF _ assms(2)] by fastforce

theorem daemon_request_checked_witness:
  "\<exists>config. config_checked (example_connection_env example_request) example_request config"
proof -
  let ?env = "example_connection_env example_request" and ?s = "example_connection ''''"
  have "length (daemon_calls (conn_daemon (parseCommand ?env ''x'' ?s))) \<noteq> 0" by code_simp
  then have "conn_daemon (parseCommand ?env ''x'' ?s) \<noteq> conn_daemon ?s"
    by (auto simp: example_connection_def Daemon_new_def)
  from daemon_request_checked [OF this sorts_example] show ?thesis
    by (auto simp: example_connection_env_def example_request_def obj_value_def)
qed

end
