(* ===== verification/Local_Socket.thy ===== *)
theory Local_Socket
  imports Daemon_Connection "HOL-Library.Word"
begin

text \<open>
  \<^verbatim>\<open>client/mozilla/localsocketcontroller.cpp\<close>: the side of the client on the daemon's local socket. It
  turns the configuration of a connection into an activation request, retries the first
  connection, and turns answers into signals. The calls of the socket, the timer and the log
  callback are recorded with the signals, in order. The composition with the daemon is at the
  end. Names of the class that the daemon uses too start with \<open>lsc_\<close>.
\<close>

section \<open>The controller\<close>

datatype daemon_state = eUnknown | eInitializing | eReady | eDisconnected

datatype lsc_call =
    ConnectToServer QString
  | LscWrite QJsonObject
  | StartTimer nat
  | Initialized bool bool "int option"
  | LscDisconnected
  | LscConnected QString
  | StatusUpdated QString QString rat rat
  | LogCallback QString

record LocalSocketController =
  m_daemonState :: daemon_state
  lsc_buffer :: QByteArray
  m_deviceIpv4 :: QString
  m_logCallback :: bool
  m_initializingTimer :: bool
  m_initializingRetry :: "32 word"
  lsc_calls :: "lsc_call list"

text \<open>
  The environment of both ends: \<open>compactJson\<close> prints a JSON object on one line, \<open>date_fromString\<close>
  gives None for an invalid date, \<open>var_run_socket\<close> tells whether the first socket path exists,
  and \<open>atoi_overflow\<close> is what \<open>atoi\<close> does outside the range of an integer.
\<close>

record 'w socket_env = "'w connection_env" +
  compactJson :: "QJsonObject \<Rightarrow> QByteArray"
  date_fromString :: "QString \<Rightarrow> int option"
  var_run_socket :: bool
  atoi_overflow :: "QByteArray \<Rightarrow> int"

definition LocalSocketController_new :: LocalSocketController where
  "LocalSocketController_new =
     \<lparr>m_daemonState = eUnknown, lsc_buffer = '''', m_deviceIpv4 = '''', m_logCallback = False,
      m_initializingTimer = False, m_initializingRetry = 0, lsc_calls = []\<rparr>"

definition lsc_do :: "lsc_call \<Rightarrow> LocalSocketController \<Rightarrow> LocalSocketController" where
  "lsc_do c s = s\<lparr>lsc_calls := lsc_calls s @ [c]\<rparr>"

definition MAX_CONNECTION_RETRY :: "32 word" where
  "MAX_CONNECTION_RETRY = 10"

definition CONNECTION_RETRY_TIMER_MSEC :: nat where
  "CONNECTION_RETRY_TIMER_MSEC = 500"

definition disconnectInternal :: "LocalSocketController \<Rightarrow> LocalSocketController" where
  "disconnectInternal s =
     lsc_do LscDisconnected (s\<lparr>m_daemonState := eReady, m_initializingRetry := 0, m_initializingTimer := False\<rparr>)"

definition errorOccurred :: "LocalSocketController \<Rightarrow> LocalSocketController" where
  "errorOccurred s =
     (if m_daemonState s = eInitializing then
        let s1 = s\<lparr>m_initializingRetry := m_initializingRetry s + 1\<rparr> in
        if m_initializingRetry s < MAX_CONNECTION_RETRY
        then lsc_do (StartTimer CONNECTION_RETRY_TIMER_MSEC) (s1\<lparr>m_initializingTimer := True\<rparr>)
        else disconnectInternal (lsc_do (Initialized False False None) s1)
      else disconnectInternal s)"

definition initializeInternal ::
  "('w, 'e) socket_env_scheme \<Rightarrow> LocalSocketController \<Rightarrow> LocalSocketController" where
  "initializeInternal env s =
     (let path = (if os_windows env
                  then [CHR 0x5C, CHR 0x5C] @ ''.'' @ [CHR 0x5C] @ ''pipe'' @ [CHR 0x5C] @ ''amneziavpn''
                  else if var_run_socket env then ''/var/run/amneziavpn/daemon.socket''
                  else ''/tmp/amneziavpn.socket'')
      in lsc_do (ConnectToServer path) (s\<lparr>m_daemonState := eInitializing\<rparr>))"

definition lsc_initialize ::
  "('w, 'e) socket_env_scheme \<Rightarrow> LocalSocketController \<Rightarrow> LocalSocketController" where
  "lsc_initialize env s = initializeInternal env (s\<lparr>m_initializingRetry := 0\<rparr>)"

text \<open>The single shot timer fires.\<close>

definition lsc_timeout ::
  "('w, 'e) socket_env_scheme \<Rightarrow> LocalSocketController \<Rightarrow> LocalSocketController" where
  "lsc_timeout env s =
     (if m_initializingTimer s then initializeInternal env (s\<lparr>m_initializingTimer := False\<rparr>) else s)"

definition lsc_checkStatus :: "LocalSocketController \<Rightarrow> LocalSocketController" where
  "lsc_checkStatus s =
     (if m_daemonState s = eReady \<or> m_daemonState s = eInitializing
      then lsc_do (LscWrite (obj_insert ''type'' (JString ''status'') [])) s else s)"

definition daemonConnected :: "LocalSocketController \<Rightarrow> LocalSocketController" where
  "daemonConnected s = lsc_checkStatus s"

section \<open>The activation request\<close>

text \<open>Inserting an undefined value removes the key; in an array it becomes null.\<close>

definition obj_set :: "QString \<Rightarrow> QJsonValue \<Rightarrow> QJsonObject \<Rightarrow> QJsonObject" where
  "obj_set k v obj = (if v = JUndefined then obj_remove k obj else obj_insert k v obj)"

definition array_item :: "QJsonValue \<Rightarrow> QJsonValue" where
  "array_item v = (if v = JUndefined then JNull else v)"

definition c_digits :: "QByteArray \<Rightarrow> QByteArray" where
  "c_digits b = takeWhile isDigit b"

definition atoi :: "('w, 'e) socket_env_scheme \<Rightarrow> QByteArray \<Rightarrow> int" where
  "atoi env b =
     (let t = dropWhile ascii_space b;
          (neg, r) = (case t of c # cs \<Rightarrow> if c = CHR ''-'' then (True, cs)
                                          else if c = CHR ''+'' then (False, cs) else (False, t)
                              | [] \<Rightarrow> (False, []));
          n = int (digits_value (c_digits r));
          v = (if neg then - n else n)
      in if - 2147483648 \<le> v \<and> v \<le> 2147483647 then v else atoi_overflow env b)"

definition is_slash :: "char \<Rightarrow> bool" where
  "is_slash c = (c = CHR ''/'')"

definition ip_range :: "QString \<Rightarrow> int \<Rightarrow> bool \<Rightarrow> QJsonValue" where
  "ip_range address rng isIpv6 =
     JObject (obj_insert ''isIpv6'' (JBool isIpv6) (obj_insert ''range'' (JDouble (of_int rng))
       (obj_insert ''address'' (JString address) [])))"

text \<open>One entry of a list of ranges: the parts before and after the first slash.\<close>

definition range_of_text :: "('w, 'e) socket_env_scheme \<Rightarrow> QString \<Rightarrow> QJsonValue" where
  "range_of_text env ipRange =
     (if list_ex is_slash ipRange
      then ip_range (takeWhile (Not \<circ> is_slash) ipRange)
             (atoi env (takeWhile (Not \<circ> is_slash) (tl (dropWhile (Not \<circ> is_slash) ipRange)))) False
      else ip_range ipRange 32 False)"

definition allowed_ranges ::
  "('w, 'e) socket_env_scheme \<Rightarrow> QJsonValue list \<Rightarrow> int \<Rightarrow> QJsonValue list \<Rightarrow> QJsonValue list" where
  "allowed_ranges env plainAllowedIP splitTunnelType splitTunnelSites =
     (if plainAllowedIP \<noteq> [JString ''0.0.0.0/0'', JString ''::/0''] \<and> plainAllowedIP \<noteq> []
      then map (range_of_text env \<circ> json_toString) plainAllowedIP
      else
        (if splitTunnelType = 0 \<or> splitTunnelType = 2
         then [ip_range ''0.0.0.0'' 0 False, ip_range ''::'' 0 True] else []) @
        (if splitTunnelType = 1
         then map (range_of_text env \<circ> json_toString) splitTunnelSites else []))"

definition awgProtocolKeys :: "QString list" where
  "awgProtocolKeys =
     [''Jc'', ''Jmin'', ''Jmax'', ''S1'', ''S2'', ''S3'', ''S4'', ''H1'', ''H2'', ''H3'', ''H4'',
      ''I1'', ''I2'', ''I3'', ''I4'', ''I5'', ''HeaderProtectionKey'', ''ContentPaddingAddition'',
      ''RekeyAfterTime'', ''RekeyTimeout'', ''RejectAfterTime'', ''KeepaliveTimeout'',
      ''MaxHandshakeAttempts'', ''RandomTrailers'', ''DisableCookies'']"

definition insert_awg_key :: "QJsonObject \<Rightarrow> QString \<Rightarrow> QJsonObject \<Rightarrow> QJsonObject" where
  "insert_awg_key wgConfig key json =
     (let v = obj_value wgConfig key
      in if isString v \<and> json_toString v \<noteq> '''' then obj_insert key v json else json)"

definition amneziaDnsIp :: QString where
  "amneziaDnsIp = ''172.29.172.254''"

definition wg_config_data :: "QJsonObject \<Rightarrow> QJsonObject" where
  "wg_config_data rawConfig =
     json_toObject (obj_value rawConfig (json_toString (obj_value rawConfig ''protocol'') @ ''_config_data''))"

definition activate_request :: "('w, 'e) socket_env_scheme \<Rightarrow> QJsonObject \<Rightarrow> QJsonObject" where
  "activate_request env rawConfig =
     (let splitTunnelType = json_toInt 0 (obj_value rawConfig ''splitTunnelType'');
          splitTunnelSites = json_toArray (obj_value rawConfig ''splitTunnelSites'');
          splitTunnelApps = json_toArray (obj_value rawConfig ''splitTunnelApps'');
          allowedDns = json_toArray (obj_value rawConfig ''allowedDnsServers'');
          wgConfig = wg_config_data rawConfig;
          json1 =
            obj_set ''serverIpv4Gateway'' (obj_value wgConfig ''hostName'')
            (obj_insert ''serverPort'' (JDouble (of_int (json_toInt 0 (obj_value wgConfig ''port''))))
            (obj_set ''deviceMTU'' (obj_value wgConfig ''mtu'')
            (obj_set ''serverIpv4AddrIn'' (obj_value wgConfig ''hostName'')
            (obj_set ''serverPskKey'' (obj_value wgConfig ''psk_key'')
            (obj_set ''serverPublicKey'' (obj_value wgConfig ''server_pub_key'')
            (obj_insert ''deviceIpv6Address'' (JString ''fd58:baa6:dead::1'')
            (obj_set ''deviceIpv4Address'' (obj_value wgConfig ''client_ip'')
            (obj_set ''privateKey'' (obj_value wgConfig ''client_priv_key'')
            (obj_insert ''type'' (JString ''activate'') [])))))))));
          json2 = (if obj_contains wgConfig ''persistent_keep_alive''
                   then obj_insert ''persistentKeepalive''
                          (JString (json_toString (obj_value wgConfig ''persistent_keep_alive''))) json1
                   else json1);
          json3 = obj_set ''primaryDnsServer'' (obj_value rawConfig ''dns1'') json2;
          json4 = (if \<not> sublist amneziaDnsIp (json_toString (obj_value rawConfig ''dns1''))
                   then obj_set ''secondaryDnsServer'' (obj_value rawConfig ''dns2'') json3 else json3);
          jsAllowedIPAddesses = allowed_ranges env (json_toArray (obj_value wgConfig ''allowed_ips''))
            splitTunnelType splitTunnelSites;
          jsExcludedAddresses = array_item (obj_value wgConfig ''hostName'') #
            (if splitTunnelType = 2 then map (JString \<circ> json_toString) splitTunnelSites else []);
          json5 =
            obj_set ''killSwitchOption'' (obj_value rawConfig ''killSwitchOption'')
            (obj_insert ''allowedDnsServers'' (JArray allowedDns)
            (obj_insert ''vpnDisabledApps'' (JArray splitTunnelApps)
            (obj_insert ''excludedAddresses'' (JArray jsExcludedAddresses)
            (obj_insert ''allowedIPAddressRanges'' (JArray jsAllowedIPAddesses) json4))))
      in fold (insert_awg_key wgConfig) awgProtocolKeys json5)"

definition lsc_activate ::
  "('w, 'e) socket_env_scheme \<Rightarrow> QJsonObject \<Rightarrow> LocalSocketController \<Rightarrow> LocalSocketController" where
  "lsc_activate env rawConfig s =
     lsc_do (LscWrite (activate_request env rawConfig))
       (s\<lparr>m_deviceIpv4 := json_toString (obj_value (wg_config_data rawConfig) ''client_ip'')\<rparr>)"

section \<open>Other requests\<close>

definition lsc_deactivate :: "LocalSocketController \<Rightarrow> LocalSocketController" where
  "lsc_deactivate s =
     (if m_daemonState s \<noteq> eReady then lsc_do LscDisconnected s
      else lsc_do LscDisconnected (lsc_do (LscWrite (obj_insert ''type'' (JString ''deactivate'') [])) s))"

text \<open>A pending callback is called with an empty text.\<close>

definition flush_callback :: "LocalSocketController \<Rightarrow> LocalSocketController" where
  "flush_callback s = (if m_logCallback s then lsc_do (LogCallback '''') (s\<lparr>m_logCallback := False\<rparr>) else s)"

definition getBackendLogs :: "LocalSocketController \<Rightarrow> LocalSocketController" where
  "getBackendLogs s =
     (let s1 = flush_callback s in
      if m_daemonState s1 \<noteq> eReady then lsc_do (LogCallback '''') s1
      else lsc_do (LscWrite (obj_insert ''type'' (JString ''logs'') [])) (s1\<lparr>m_logCallback := True\<rparr>))"

definition cleanupBackendLogs :: "LocalSocketController \<Rightarrow> LocalSocketController" where
  "cleanupBackendLogs s =
     (let s1 = flush_callback s in
      if m_daemonState s1 \<noteq> eReady then s1
      else lsc_do (LscWrite (obj_insert ''type'' (JString ''cleanlogs'') [])) s1)"

section \<open>Answers of the daemon\<close>

text \<open>The first status, which ends the initialization.\<close>

definition initial_status ::
  "('w, 'e) socket_env_scheme \<Rightarrow> QJsonObject \<Rightarrow> LocalSocketController \<Rightarrow> LocalSocketController" where
  "initial_status env obj s =
     (let s1 = s\<lparr>m_daemonState := eReady\<rparr>;
          connected = obj_value obj ''connected'';
          date = obj_value obj ''date''
      in if \<not> isBool connected then s1
         else if json_toBool connected then
           if \<not> isString date then s1
           else case date_fromString env (json_toString date) of
                  None \<Rightarrow> s1
                | Some d \<Rightarrow> lsc_do (Initialized True True (Some d)) s1
         else lsc_do (Initialized True False None) s1)"

definition later_status :: "QJsonObject \<Rightarrow> LocalSocketController \<Rightarrow> LocalSocketController" where
  "later_status obj s =
     (if \<not> isString (obj_value obj ''serverIpv4Gateway'') then s
      else if \<not> isString (obj_value obj ''deviceIpv4Address'') then s
      else if \<not> isDouble (obj_value obj ''txBytes'') then s
      else if \<not> isDouble (obj_value obj ''rxBytes'') then s
      else lsc_do (StatusUpdated (json_toString (obj_value obj ''serverIpv4Gateway''))
             (json_toString (obj_value obj ''deviceIpv4Address''))
             (json_toDouble (obj_value obj ''txBytes'')) (json_toDouble (obj_value obj ''rxBytes''))) s)"

definition handle_connected :: "QJsonObject \<Rightarrow> LocalSocketController \<Rightarrow> LocalSocketController" where
  "handle_connected obj s =
     (let pubkey = obj_value obj ''pubkey'' in
      if \<not> isString pubkey then s
      else lsc_do (LscConnected (json_toString pubkey))
             (lsc_do (StatusUpdated '''' (m_deviceIpv4 s) 0 0) (lsc_checkStatus s)))"

definition handle_logs :: "QJsonObject \<Rightarrow> LocalSocketController \<Rightarrow> LocalSocketController" where
  "handle_logs obj s =
     (if \<not> m_logCallback s then s
      else
        let logs = obj_value obj ''logs'';
            text = (if isString logs
                    then map (\<lambda>c. if c = CHR ''|'' then CHR 0x0A else c) (json_toString logs) else '''')
        in (lsc_do (LogCallback text) s)\<lparr>m_logCallback := False\<rparr>)"

text \<open>The codes of a \<open>backendFailure\<close> are only logged.\<close>

definition lsc_parseCommand ::
  "('w, 'e) socket_env_scheme \<Rightarrow> QByteArray \<Rightarrow> LocalSocketController \<Rightarrow> LocalSocketController" where
  "lsc_parseCommand env command s =
     (case json_object env command of
        None \<Rightarrow> s
      | Some obj \<Rightarrow>
          if \<not> isString (obj_value obj ''type'') then s
          else
            let typ = json_toString (obj_value obj ''type'') in
            if m_daemonState s = eInitializing \<and> typ = ''status'' then initial_status env obj s
            else if m_daemonState s \<noteq> eReady then s
            else if typ = ''status'' then later_status obj s
            else if typ = ''disconnected'' then disconnectInternal s
            else if typ = ''connected'' then handle_connected obj s
            else if typ = ''logs'' then handle_logs obj s
            else s)"

lemma lsc_do_fields [simp]:
  "lsc_buffer (lsc_do c s) = lsc_buffer s" "m_daemonState (lsc_do c s) = m_daemonState s"
  "m_initializingRetry (lsc_do c s) = m_initializingRetry s" "m_initializingTimer (lsc_do c s) = m_initializingTimer s"
  "lsc_calls (lsc_do c s) = lsc_calls s @ [c]"
  by (simp_all add: lsc_do_def)

lemma lsc_parseCommand_buffer [simp]: "lsc_buffer (lsc_parseCommand env command s) = lsc_buffer s"
  by (simp add: lsc_parseCommand_def initial_status_def later_status_def disconnectInternal_def
      handle_connected_def handle_logs_def lsc_checkStatus_def Let_def split: option.split)

function lsc_lines ::
  "('w, 'e) socket_env_scheme \<Rightarrow> LocalSocketController \<Rightarrow> LocalSocketController" where
  "lsc_lines env s =
     (if \<not> list_ex is_newline (lsc_buffer s) then s
      else
        let line = takeWhile (Not \<circ> is_newline) (lsc_buffer s);
            s1 = s\<lparr>lsc_buffer := tl (dropWhile (Not \<circ> is_newline) (lsc_buffer s))\<rparr>;
            command = bytes_trimmed line
        in if command = [] then lsc_lines env s1 else lsc_lines env (lsc_parseCommand env command s1))"
  by pat_completeness auto
termination
  by (relation "measure (\<lambda>(env, s). length (lsc_buffer s))") (auto simp: list_ex_iff intro: rest_shorter [simplified])

declare lsc_lines.simps [simp del]

definition lsc_readData ::
  "('w, 'e) socket_env_scheme \<Rightarrow> QByteArray \<Rightarrow> LocalSocketController \<Rightarrow> LocalSocketController" where
  "lsc_readData env input s = lsc_lines env (s\<lparr>lsc_buffer := lsc_buffer s @ input\<rparr>)"

section \<open>Reading one message\<close>

text \<open>What the transport of a message relies on: it is printed on one line and reads back.\<close>

definition message_ok :: "('w, 'e) socket_env_scheme \<Rightarrow> QJsonObject \<Rightarrow> bool" where
  "message_ok env obj =
     (json_object env (compactJson env obj) = Some obj \<and> \<not> list_ex is_newline (compactJson env obj) \<and>
      bytes_trimmed (compactJson env obj) = compactJson env obj \<and> compactJson env obj \<noteq> [])"

definition wire :: "('w, 'e) socket_env_scheme \<Rightarrow> QJsonObject \<Rightarrow> QByteArray" where
  "wire env obj = compactJson env obj @ [CHR 0x0A]"

lemma frames_one_line: "\<not> list_ex is_newline b \<Longrightarrow> frames (b @ [CHR 0x0A]) = ([b], [])"
  by (induction b) (simp_all add: is_newline_def)

lemma line_parts:
  assumes "\<not> list_ex is_newline b"
  shows "takeWhile (Not \<circ> is_newline) (b @ [CHR 0x0A]) = b" "dropWhile (Not \<circ> is_newline) (b @ [CHR 0x0A]) = [CHR 0x0A]"
  using assms by (induction b) (simp_all add: is_newline_def)

lemma daemon_reads_message:
  assumes "message_ok env obj" "m_buffer s = []"
  shows "conn_daemon (readData env [wire env obj] s) = conn_daemon (parseCommand env (compactJson env obj) s)"
    "m_buffer (readData env [wire env obj] s) = []"
  using assms by (simp_all add: readData_frames wire_def commands_def frames_one_line message_ok_def)

lemma client_reads_message:
  assumes "message_ok env obj" "lsc_buffer s = []"
  shows "lsc_readData env (wire env obj) s = lsc_parseCommand env (compactJson env obj) s"
proof -
  have "\<not> list_ex is_newline (compactJson env obj)" using assms(1) by (simp add: message_ok_def)
  note m = line_parts [OF this]
  have n: "list_ex is_newline (wire env obj)" by (simp add: wire_def is_newline_def)
  have s: "s\<lparr>lsc_buffer := []\<rparr> = s" using assms(2) by simp
  have e: "lsc_buffer t = [] \<Longrightarrow> lsc_lines env t = t" for t by (subst lsc_lines.simps) simp
  show ?thesis
    using assms n by (simp add: lsc_readData_def lsc_lines.simps [of env "s\<lparr>lsc_buffer := wire env obj\<rparr>"]
        m [folded wire_def] message_ok_def Let_def s e)
qed

end
