(* ===== verification/Local_Socket_Facts.thy ===== *)
theory Local_Socket_Facts
  imports Local_Socket
begin

text \<open>
  The two ends of the local socket together: the daemon accepts the client's request and
  activates the tunnel it describes, the client understands the daemon's status, and the
  first connection is retried a bounded number of times.
\<close>

section \<open>The request as the daemon reads it\<close>

lemma obj_value_set [simp]: "obj_value (obj_set k v obj) k' = (if k' = k then v else obj_value obj k')"
  by (simp add: obj_set_def)

lemma obj_contains_value: "obj_value obj k \<noteq> JUndefined \<Longrightarrow> obj_contains obj k"
  by (auto simp: obj_value_def obj_contains_def split: option.splits)

lemma obj_contains_set [simp]:
  "obj_contains (obj_set k v obj) k' \<longleftrightarrow> (if k' = k then v \<noteq> JUndefined else obj_contains obj k')"
  by (auto simp: obj_set_def)

lemma obj_value_insert_awg [simp]:
  "obj_value (insert_awg_key wg key json) k =
     (if k = key \<and> isString (obj_value wg key) \<and> json_toString (obj_value wg key) \<noteq> ''''
      then obj_value wg key else obj_value json k)"
  by (simp add: insert_awg_key_def Let_def)

lemma obj_contains_insert_awg: "k \<noteq> key \<Longrightarrow> obj_contains (insert_awg_key wg key json) k \<longleftrightarrow> obj_contains json k"
  by (simp add: insert_awg_key_def Let_def)

lemma awg_keys_value:
  "obj_value (fold (insert_awg_key wg) ks json) k =
     (if k \<in> set ks \<and> isString (obj_value wg k) \<and> json_toString (obj_value wg k) \<noteq> ''''
      then obj_value wg k else obj_value json k)"
  by (induction ks arbitrary: json) auto

lemma awg_keys_contains: "k \<notin> set ks \<Longrightarrow> obj_contains (fold (insert_awg_key wg) ks json) k \<longleftrightarrow> obj_contains json k"
  by (induction ks arbitrary: json) (simp_all add: obj_contains_insert_awg)

text \<open>The ranges of a request, as addresses.\<close>

definition text_range :: "('w, 'e) socket_env_scheme \<Rightarrow> QString \<Rightarrow> IPAddress" where
  "text_range env t =
     (if list_ex is_slash t
      then \<lparr>m_address = parseHost env (takeWhile (Not \<circ> is_slash) t),
            m_prefixLength = atoi env (takeWhile (Not \<circ> is_slash) (tl (dropWhile (Not \<circ> is_slash) t)))\<rparr>
      else \<lparr>m_address = parseHost env t, m_prefixLength = 32\<rparr>)"

definition client_ranges ::
  "('w, 'e) socket_env_scheme \<Rightarrow> QJsonValue list \<Rightarrow> int \<Rightarrow> QString list \<Rightarrow> IPAddress list" where
  "client_ranges env plain typ sites =
     (if plain \<noteq> [] \<and> plain \<noteq> [JString ''0.0.0.0/0'', JString ''::/0'']
      then map (text_range env \<circ> json_toString) plain
      else if typ = 1 then map (text_range env) sites
      else if typ = 0 \<or> typ = 2
      then [\<lparr>m_address = parseHost env ''0.0.0.0'', m_prefixLength = 0\<rparr>,
            \<lparr>m_address = parseHost env ''::'', m_prefixLength = 0\<rparr>]
      else [])"

definition atoi_int :: "('w, 'e) socket_env_scheme \<Rightarrow> bool" where
  "atoi_int env = (\<forall>b. - 2147483648 \<le> atoi_overflow env b \<and> atoi_overflow env b \<le> 2147483647)"

lemma atoi_range: "atoi_int env \<Longrightarrow> - 2147483648 \<le> atoi env b \<and> atoi env b \<le> 2147483647"
  unfolding atoi_def Let_def case_prod_beta by (simp add: atoi_int_def)

lemma append_range:
  "- 2147483648 \<le> r \<Longrightarrow> r \<le> 2147483647 \<Longrightarrow>
   append_ranges env (ip_range a r b # vs) acc =
     append_ranges env vs (acc @ [\<lparr>m_address = parseHost env a, m_prefixLength = r\<rparr>])"
  by (simp add: ip_range_def)

lemma append_text_ranges:
  "atoi_int env \<Longrightarrow>
   append_ranges env (map (range_of_text env) ts) acc = Some (acc @ map (text_range env) ts)"
  by (induction ts arbitrary: acc)
    (simp_all add: range_of_text_def text_range_def append_range atoi_range del: append_ranges.simps(2))

lemma append_allowed_ranges:
  assumes "atoi_int env"
  shows "append_ranges env (allowed_ranges env plain typ sites) [] =
    Some (client_ranges env plain typ (map json_toString sites))"
proof -
  have m: "append_ranges env (map (range_of_text env \<circ> json_toString) vs) [] =
      Some (map (text_range env \<circ> json_toString) vs)" for vs
    using append_text_ranges [OF assms, of "map json_toString vs" "[]"] by (simp add: comp_def)
  show ?thesis
    by (auto simp: allowed_ranges_def client_ranges_def m [unfolded comp_def] append_range comp_def simp del: append_ranges.simps(2))
qed

lemma append_strings_all: "list_all isString vs \<Longrightarrow> append_strings vs acc = Some (acc @ map json_toString vs)"
  by (induction vs arbitrary: acc) simp_all

lemma json_toInt_range: "- 2147483648 \<le> json_toInt 0 v \<and> json_toInt 0 v \<le> 2147483647"
  by (cases v) simp_all

lemma cast_int: "- 2147483648 \<le> i \<Longrightarrow> i \<le> 2147483647 \<Longrightarrow> cast_signed 32 ov (of_int i) = i"
  by (simp add: cast_signed_def)

text \<open>
  A configuration that can be sent: the keys are strings, the host is a non-empty string, the
  resolvers are strings if they are there, and the two lists contain strings.
\<close>

definition string_or_missing :: "QJsonValue \<Rightarrow> bool" where
  "string_or_missing v = (v = JUndefined \<or> isString v)"

definition usable_config :: "QJsonObject \<Rightarrow> bool" where
  "usable_config raw =
     (let wg = wg_config_data raw in
      isString (obj_value wg ''client_priv_key'') \<and> isString (obj_value wg ''server_pub_key'') \<and>
      isString (obj_value wg ''hostName'') \<and> json_toString (obj_value wg ''hostName'') \<noteq> '''' \<and>
      string_or_missing (obj_value raw ''dns1'') \<and> string_or_missing (obj_value raw ''dns2'') \<and>
      list_all isString (json_toArray (obj_value raw ''splitTunnelApps'')) \<and>
      list_all isString (json_toArray (obj_value raw ''allowedDnsServers'')))"

text \<open>The tunnel a configuration describes.\<close>

definition describes :: "('w, 'e) socket_env_scheme \<Rightarrow> QJsonObject \<Rightarrow> InterfaceConfig \<Rightarrow> bool" where
  "describes env raw c =
     (let wg = wg_config_data raw;
          host = json_toString (obj_value wg ''hostName'');
          typ = json_toInt 0 (obj_value raw ''splitTunnelType'');
          sites = map json_toString (json_toArray (obj_value raw ''splitTunnelSites''));
          mtu = string_toInt (json_toString (obj_value wg ''mtu''))
      in m_hopType c = SingleHop \<and>
         m_privateKey c = json_toString (obj_value wg ''client_priv_key'') \<and>
         m_serverPublicKey c = json_toString (obj_value wg ''server_pub_key'') \<and>
         m_serverIpv4AddrIn c = Some host \<and> m_serverIpv4Gateway c = host \<and>
         m_deviceIpv6Address c = Some ''fd58:baa6:dead::1'' \<and>
         m_serverPort c = json_toInt 0 (obj_value wg ''port'') \<and>
         m_deviceMTU c = (if mtu = 0 then 1420 else if os_windows env \<and> mtu < 1280 then 1280 else mtu) \<and>
         m_primaryDnsServer c = json_toString (obj_value raw ''dns1'') \<and>
         m_secondaryDnsServer c =
           (if sublist amneziaDnsIp (json_toString (obj_value raw ''dns1'')) then ''''
            else json_toString (obj_value raw ''dns2'')) \<and>
         m_allowedIPAddressRanges c =
           std_sort env (client_ranges env (json_toArray (obj_value wg ''allowed_ips'')) typ sites) \<and>
         m_excludedAddresses c = host # (if typ = 2 then sites else []) \<and>
         m_vpnDisabledApps c = map json_toString (json_toArray (obj_value raw ''splitTunnelApps'')) \<and>
         m_allowedDnsServers c = map json_toString (json_toArray (obj_value raw ''allowedDnsServers'')) \<and>
         m_killSwitchEnabled c = variant_toBool (VString (json_toString (obj_value raw ''killSwitchOption''))))"

lemma request_values:
  fixes raw defines "wg \<equiv> wg_config_data raw" and "typ \<equiv> json_toInt 0 (obj_value raw ''splitTunnelType'')"
    and "sites \<equiv> json_toArray (obj_value raw ''splitTunnelSites'')"
  shows "obj_value (activate_request env raw) ''type'' = JString ''activate''"
    "obj_value (activate_request env raw) ''privateKey'' = obj_value wg ''client_priv_key''"
    "obj_value (activate_request env raw) ''serverPublicKey'' = obj_value wg ''server_pub_key''"
    "obj_value (activate_request env raw) ''serverPort'' = JDouble (of_int (json_toInt 0 (obj_value wg ''port'')))"
    "obj_value (activate_request env raw) ''deviceIpv6Address'' = JString ''fd58:baa6:dead::1''"
    "obj_value (activate_request env raw) ''serverIpv4AddrIn'' = obj_value wg ''hostName''"
    "obj_value (activate_request env raw) ''serverIpv4Gateway'' = obj_value wg ''hostName''"
    "obj_value (activate_request env raw) ''deviceMTU'' = obj_value wg ''mtu''"
    "obj_value (activate_request env raw) ''primaryDnsServer'' = obj_value raw ''dns1''"
    "obj_value (activate_request env raw) ''secondaryDnsServer'' =
       (if sublist amneziaDnsIp (json_toString (obj_value raw ''dns1'')) then JUndefined else obj_value raw ''dns2'')"
    "obj_value (activate_request env raw) ''allowedIPAddressRanges'' =
       JArray (allowed_ranges env (json_toArray (obj_value wg ''allowed_ips'')) typ sites)"
    "obj_value (activate_request env raw) ''excludedAddresses'' =
       JArray (array_item (obj_value wg ''hostName'') # (if typ = 2 then map (JString \<circ> json_toString) sites else []))"
    "obj_value (activate_request env raw) ''vpnDisabledApps'' = JArray (json_toArray (obj_value raw ''splitTunnelApps''))"
    "obj_value (activate_request env raw) ''allowedDnsServers'' = JArray (json_toArray (obj_value raw ''allowedDnsServers''))"
    "obj_value (activate_request env raw) ''killSwitchOption'' = obj_value raw ''killSwitchOption''"
    "obj_value (activate_request env raw) ''hopType'' = JUndefined"
  unfolding wg_def typ_def sites_def
  by (simp_all add: activate_request_def Let_def awg_keys_value awgProtocolKeys_def obj_value_def [of "[]"])

lemma request_contains:
  "\<not> obj_contains (activate_request env raw) ''hopType''"
  "obj_contains (activate_request env raw) ''primaryDnsServer'' \<longleftrightarrow> obj_value raw ''dns1'' \<noteq> JUndefined"
  "obj_contains (activate_request env raw) ''secondaryDnsServer'' \<longleftrightarrow>
     obj_value raw ''dns2'' \<noteq> JUndefined \<and> \<not> sublist amneziaDnsIp (json_toString (obj_value raw ''dns1''))"
  by (simp_all add: activate_request_def Let_def obj_contains_insert_awg awgProtocolKeys_def obj_contains_def [of "[]"])

lemma request_has_value:
  "typ (obj_value obj k) \<Longrightarrow> obj_value obj k \<noteq> JUndefined \<Longrightarrow> has_value typ obj k"
  by (simp add: has_value_def obj_contains_value)

lemma parse_dns_missing:
  "string_or_missing (obj_value obj k) \<Longrightarrow> (obj_contains obj k \<longleftrightarrow> obj_value obj k \<noteq> JUndefined) \<Longrightarrow>
   parse_dns obj k = Some (json_toString (obj_value obj k))"
  by (auto simp: parse_dns_def string_or_missing_def)

lemma parseStringList_array:
  "obj_value obj k = JArray vs \<Longrightarrow> list_all isString vs \<Longrightarrow>
   parseStringList obj k [] = Some (map json_toString vs)"
  using obj_contains_value [of obj k] by (simp add: parseStringList_def append_strings_all)

lemma parse_mtu_value:
  "parse_mtu env obj =
     (let mtu = string_toInt (json_toString (obj_value obj ''deviceMTU''))
      in if mtu = 0 then 1420 else if os_windows env \<and> mtu < 1280 then 1280 else mtu)"
proof -
  have "string_toInt '''' = 0" by code_simp
  then have "\<not> obj_contains obj ''deviceMTU'' \<Longrightarrow> string_toInt (json_toString (obj_value obj ''deviceMTU'')) = 0"
    using obj_contains_value [of obj "''deviceMTU''"] by force
  then show ?thesis by (auto simp: parse_mtu_def Let_def)
qed

lemma parse_awg_fields2 [simp]:
  "m_serverIpv4Gateway (parse_awg obj c) = m_serverIpv4Gateway c" "m_serverPort (parse_awg obj c) = m_serverPort c"
  "m_primaryDnsServer (parse_awg obj c) = m_primaryDnsServer c"
  "m_secondaryDnsServer (parse_awg obj c) = m_secondaryDnsServer c"
  "m_excludedAddresses (parse_awg obj c) = m_excludedAddresses c"
  "m_vpnDisabledApps (parse_awg obj c) = m_vpnDisabledApps c"
  "m_allowedDnsServers (parse_awg obj c) = m_allowedDnsServers c"
  "m_killSwitchEnabled (parse_awg obj c) = m_killSwitchEnabled c"
  by (simp_all add: parse_awg_def if_present_field)

lemma request_parses:
  assumes u: "usable_config raw" and a: "atoi_int env"
  shows "\<exists>c. parseConfig env (activate_request env raw) (InterfaceConfig_new SingleHop False) = Some c \<and>
    describes env raw c"
proof -
  let ?r = "activate_request env raw" and ?wg = "wg_config_data raw"
  let ?host = "json_toString (obj_value ?wg ''hostName'')"
  have host: "obj_value ?wg ''hostName'' = JString ?host" "?host \<noteq> ''''"
    using u by (auto simp: usable_config_def Let_def dest: isString_eq)
  have strings: "list_all isString (map (JString \<circ> json_toString) vs)"
    "map json_toString (map (JString \<circ> json_toString) vs) = map json_toString vs" for vs by (simp_all add: list_all_iff)
  have item: "array_item (obj_value ?wg ''hostName'') = JString ?host"
    by (subst (1 2) host(1)) (simp add: array_item_def)
  have srv: "json_nullable env (obj_value ?wg ''hostName'') = Some ?host"
    using host by (metis json_nullable.simps(1))
  have keys: "has_value isString ?r ''privateKey''" "has_value isString ?r ''serverPublicKey''"
    "has_value isDouble ?r ''serverPort''"
    using u by (auto intro!: request_has_value simp: request_values usable_config_def Let_def)
  have dns: "parse_dns ?r ''primaryDnsServer'' = Some (json_toString (obj_value raw ''dns1''))"
    "parse_dns ?r ''secondaryDnsServer'' = Some
       (if sublist amneziaDnsIp (json_toString (obj_value raw ''dns1'')) then ''''
        else json_toString (obj_value raw ''dns2''))"
    using u by (subst parse_dns_missing; simp add: request_values request_contains usable_config_def
        string_or_missing_def Let_def)+
  have rs: "parse_ranges env ?r [] = Some (std_sort env (client_ranges env
      (json_toArray (obj_value ?wg ''allowed_ips'')) (json_toInt 0 (obj_value raw ''splitTunnelType''))
      (map json_toString (json_toArray (obj_value raw ''splitTunnelSites'')))))"
    using obj_contains_value [of ?r "''allowedIPAddressRanges''"]
    by (simp add: parse_ranges_def request_values append_allowed_ranges [OF a])
  have ls: "parseStringList ?r ''excludedAddresses'' [] = Some (?host #
       (if json_toInt 0 (obj_value raw ''splitTunnelType'') = 2
        then map json_toString (json_toArray (obj_value raw ''splitTunnelSites'')) else []))"
    "parseStringList ?r ''vpnDisabledApps'' [] = Some (map json_toString (json_toArray (obj_value raw ''splitTunnelApps'')))"
    "parseStringList ?r ''allowedDnsServers'' [] = Some (map json_toString (json_toArray (obj_value raw ''allowedDnsServers'')))"
    using u parseStringList_array [OF request_values(12) [of env raw]] parseStringList_array [OF request_values(13) [of env raw]]
      parseStringList_array [OF request_values(14) [of env raw]]
    by (simp_all add: usable_config_def Let_def item strings)
  have hop: "parse_hop env ?r = Some SingleHop" by (simp add: parse_hop_def request_contains)
  have port: "cast_signed 32 (int_overflow env) (of_int (json_toInt 0 (obj_value ?wg ''port''))) =
      json_toInt 0 (obj_value ?wg ''port'')"
    using json_toInt_range [of "obj_value ?wg ''port''"] by (simp add: cast_int)
  show ?thesis
    unfolding parseConfig_def Let_def
    by (simp add: keys dns hop rs ls srv port InterfaceConfig_new_def describes_def Let_def request_values parse_mtu_value)
qed

section \<open>The first connection\<close>

text \<open>An error is followed by the timeout that it started.\<close>

definition retry :: "('w, 'e) socket_env_scheme \<Rightarrow> LocalSocketController \<Rightarrow> LocalSocketController" where
  "retry env s = lsc_timeout env (errorOccurred s)"

definition connect_call :: "('w, 'e) socket_env_scheme \<Rightarrow> lsc_call" where
  "connect_call env = last (lsc_calls (initializeInternal env LocalSocketController_new))"

lemma initializeInternal_fields [simp]:
  "lsc_calls (initializeInternal env s) = lsc_calls s @ [connect_call env]"
  "m_daemonState (initializeInternal env s) = eInitializing"
  "m_initializingRetry (initializeInternal env s) = m_initializingRetry s"
  "m_initializingTimer (initializeInternal env s) = m_initializingTimer s"
  by (simp_all add: initializeInternal_def connect_call_def Let_def)

lemma retry_fields:
  assumes "m_daemonState s = eInitializing" "m_initializingRetry s < MAX_CONNECTION_RETRY"
  shows "lsc_calls (retry env s) = lsc_calls s @ [StartTimer CONNECTION_RETRY_TIMER_MSEC, connect_call env]"
    "m_daemonState (retry env s) = eInitializing" "m_initializingRetry (retry env s) = m_initializingRetry s + 1"
  using assms by (simp_all add: retry_def lsc_timeout_def errorOccurred_def Let_def)

lemma concat_replicate_Suc: "concat (replicate (Suc k) xs) = concat (replicate k xs) @ xs"
  by (induction k) simp_all

lemma retries:
  assumes "k \<le> 10" "m_daemonState s = eInitializing" "m_initializingRetry s = 0"
  shows "lsc_calls ((retry env ^^ k) s) =
      lsc_calls s @ concat (replicate k [StartTimer CONNECTION_RETRY_TIMER_MSEC, connect_call env]) \<and>
    m_daemonState ((retry env ^^ k) s) = eInitializing \<and> m_initializingRetry ((retry env ^^ k) s) = of_nat k"
  using assms(1)
proof (induction k)
  case (Suc k)
  have "(of_nat k :: 32 word) < 10"
    using Suc.prems by (simp add: word_less_nat_alt unat_of_nat)
  with Suc show ?case
    by (simp add: retry_fields MAX_CONNECTION_RETRY_def concat_replicate_Suc del: replicate_Suc)
qed (simp add: assms)

section \<open>The status of the daemon\<close>

text \<open>The tunnel that a status is about, with its peer.\<close>

definition reported :: "('w, 'e) socket_env_scheme \<Rightarrow> 'w Daemon \<Rightarrow> (ConnectionState \<times> PeerStatus) option" where
  "reported env d =
     (if interfaceExists env (daemon_world d) \<and> connections d \<noteq> []
      then map_option (Pair (hd (connections d)))
             (find_peer (m_serverPublicKey (cs_config (hd (connections d)))) (peerStatus env (daemon_world d)))
      else None)"

definition status_message :: "('w, 'e) socket_env_scheme \<Rightarrow> 'w Daemon \<Rightarrow> QJsonObject" where
  "status_message env d = obj_insert ''type'' (JString ''status'') (getStatus env d)"

lemma status_values:
  "obj_value (status_message env d) ''type'' = JString ''status''"
  "reported env d = None \<Longrightarrow> obj_value (status_message env d) ''connected'' = JBool False"
  "reported env d = None \<Longrightarrow> obj_value (status_message env d) ''serverIpv4Gateway'' = JUndefined"
  "reported env d = Some (c, p) \<Longrightarrow> obj_value (status_message env d) ''connected'' = JBool True"
  "reported env d = Some (c, p) \<Longrightarrow>
     obj_value (status_message env d) ''serverIpv4Gateway'' = JString (m_serverIpv4Gateway (cs_config c))"
  "reported env d = Some (c, p) \<Longrightarrow>
     obj_value (status_message env d) ''deviceIpv4Address'' = JString (text_of (m_deviceIpv4Address (cs_config c)))"
  "reported env d = Some (c, p) \<Longrightarrow>
     obj_value (status_message env d) ''date'' = JString (dateToString env (cs_date c))"
  "reported env d = Some (c, p) \<Longrightarrow> obj_value (status_message env d) ''txBytes'' = JDouble (of_int (ps_txBytes p))"
  "reported env d = Some (c, p) \<Longrightarrow> obj_value (status_message env d) ''rxBytes'' = JDouble (of_int (ps_rxBytes p))"
  by (auto simp: status_message_def reported_def getStatus_def Let_def obj_value_def [of "[]"]
      split: option.splits if_splits)

lemma daemon_answers_status:
  assumes "json_object env data = Some obj" "obj_value obj ''type'' = JString ''status''"
  shows "conn_written (parseCommand env data s) = conn_written s @ [status_message env (conn_daemon s)]"
  using assms by (simp add: parseCommand_def conn_write_def status_message_def)

text \<open>What the client makes of it.\<close>

definition understood :: "('w, 'e) socket_env_scheme \<Rightarrow> 'w Daemon \<Rightarrow> LocalSocketController \<Rightarrow> LocalSocketController" where
  "understood env d s =
     (if m_daemonState s = eInitializing then
        let s1 = s\<lparr>m_daemonState := eReady\<rparr> in
        case reported env d of
          None \<Rightarrow> lsc_do (Initialized True False None) s1
        | Some (c, p) \<Rightarrow>
            (case date_fromString env (dateToString env (cs_date c)) of
               None \<Rightarrow> s1
             | Some t \<Rightarrow> lsc_do (Initialized True True (Some t)) s1)
      else
        case reported env d of
          None \<Rightarrow> s
        | Some (c, p) \<Rightarrow>
            lsc_do (StatusUpdated (m_serverIpv4Gateway (cs_config c)) (text_of (m_deviceIpv4Address (cs_config c)))
              (of_int (ps_txBytes p)) (of_int (ps_rxBytes p))) s)"

lemma client_understands:
  assumes "message_ok env (status_message env d)" "lsc_buffer s = []"
    and "m_daemonState s = eInitializing \<or> m_daemonState s = eReady"
  shows "lsc_readData env (wire env (status_message env d)) s = understood env d s"
proof -
  have j: "json_object env (compactJson env (status_message env d)) = Some (status_message env d)"
    using assms(1) by (simp add: message_ok_def)
  note c = client_reads_message [OF assms(1,2)]
  show ?thesis
  proof (cases "reported env d")
    case None
    with assms(3) show ?thesis
      by (auto simp: c lsc_parseCommand_def j understood_def initial_status_def later_status_def status_values)
  next
    case (Some r)
    then obtain cc p where "reported env d = Some (cc, p)" by (cases r) simp
    with assms(3) show ?thesis
      by (auto simp: c lsc_parseCommand_def j understood_def initial_status_def later_status_def status_values)
  qed
qed

lemma daemon_applies_request:
  assumes "usable_config raw" "atoi_int env" "message_ok env (activate_request env raw)" "m_buffer s = []"
  shows "\<exists>config. describes env raw config \<and>
    conn_daemon (readData env [wire env (activate_request env raw)] s) = snd (activate env config (conn_daemon s))"
proof -
  obtain c where c: "parseConfig env (activate_request env raw) (InterfaceConfig_new SingleHop False) = Some c"
    "describes env raw c" using request_parses [OF assms(1,2)] by blast
  have "json_object env (compactJson env (activate_request env raw)) = Some (activate_request env raw)"
    using assms(3) by (simp add: message_ok_def)
  with c daemon_reads_message(1) [OF assms(3,4)] show ?thesis
    by (intro exI [of _ c]) (simp add: parseCommand_def handle_activate_def request_values Let_def case_prod_beta)
qed

section \<open>Properties\<close>

text \<open>An instance: one object is all that is ever sent, and dates do not parse.\<close>

definition example_socket_env :: "QJsonObject \<Rightarrow> unit socket_env" where
  "example_socket_env obj =
     \<lparr>os_windows = False, parseHost = (\<lambda>t. NullAddress), parseSubnet = (\<lambda>t. (NullAddress, 0)),
      hostToString = (\<lambda>a. ''''), hopTypeKey = (\<lambda>t. Some SingleHop), hopTypeName = (\<lambda>h. ''SingleHop''),
      empty_is_null = True, int_overflow = (\<lambda>x. 0), std_sort = sort_key (\<lambda>ip. - m_prefixLength ip),
      platform = (\<lambda>c w. (True, w)), interfaceExists = (\<lambda>w. True), interfaceName = ''amn0'',
      peerStatus = (\<lambda>w. []), supportIPUtils = True, batches = False, hash_order = (\<lambda>ks. ks),
      dateToString = (\<lambda>d. ''''), json_object = (\<lambda>b. Some obj),
      compactJson = (\<lambda>obj. ''{}''), date_fromString = (\<lambda>t. None), var_run_socket = True,
      atoi_overflow = (\<lambda>b. 0)\<rparr>"

definition example_raw :: QJsonObject where
  "example_raw =
     [(''protocol'', JString ''awg''), (''dns1'', JString ''1.1.1.1''), (''splitTunnelType'', JDouble 2),
      (''splitTunnelSites'', JArray [JString ''198.51.100.7'']),
      (''awg_config_data'', JObject [(''client_priv_key'', JString ''k''), (''server_pub_key'', JString ''p''),
        (''hostName'', JString ''203.0.113.1''), (''port'', JDouble 51820)])]"

lemma example_request_same: "activate_request (example_socket_env obj) raw = activate_request (example_socket_env []) raw"
proof -
  have "atoi_overflow (example_socket_env obj) = atoi_overflow (example_socket_env [])"
    by (simp add: example_socket_env_def)
  then have "atoi (example_socket_env obj) = atoi (example_socket_env [])"
    by (intro ext) (simp only: atoi_def)
  then have "range_of_text (example_socket_env obj) = range_of_text (example_socket_env [])"
    by (intro ext) (simp only: range_of_text_def)
  then have "allowed_ranges (example_socket_env obj) = allowed_ranges (example_socket_env [])"
    by (intro ext) (simp only: allowed_ranges_def)
  then show ?thesis by (simp only: activate_request_def)
qed

lemma example_message: "message_ok (example_socket_env obj) obj"
  by (simp add: message_ok_def example_socket_env_def is_newline_def) code_simp





text \<open>
  A tunnel whose handshake is pending has no date. A client that is started meanwhile becomes
  ready without ever reporting that it is initialized.
\<close>

theorem pending_tunnel_hides_client:
  assumes "message_ok env (status_message env d)" "lsc_buffer s = []" "m_daemonState s = eInitializing"
    and "reported env d = Some (c, p)" "cs_date c = None" "date_fromString env (dateToString env None) = None"
  shows "lsc_readData env (wire env (status_message env d)) s = s\<lparr>m_daemonState := eReady\<rparr>"
  using client_understands [OF assms(1,2)] assms(3-6) by (simp add: understood_def)

text \<open>
  C31: the first connection is tried eleven times. Ten errors are each followed by a pause of 500
  milliseconds and a new attempt, the eleventh reports a failed initialization and a disconnection
  once, stops the timer and resets the counter, and leaves the controller in the ready state.
\<close>

theorem connection_attempts:
  defines "tried env s \<equiv> (retry env ^^ 10) (lsc_initialize env s)"
  shows "lsc_calls (tried env s) = lsc_calls s @ connect_call env #
      concat (replicate 10 [StartTimer CONNECTION_RETRY_TIMER_MSEC, connect_call env]) \<and>
    lsc_calls (errorOccurred (tried env s)) = lsc_calls (tried env s) @ [Initialized False False None, LscDisconnected] \<and>
    m_daemonState (errorOccurred (tried env s)) = eReady \<and> m_initializingRetry (errorOccurred (tried env s)) = 0 \<and>
    \<not> m_initializingTimer (errorOccurred (tried env s))"
proof -
  have i: "m_daemonState (lsc_initialize env s) = eInitializing" "m_initializingRetry (lsc_initialize env s) = 0"
    "lsc_calls (lsc_initialize env s) = lsc_calls s @ [connect_call env]"
    by (simp_all add: lsc_initialize_def)
  have t: "lsc_calls (tried env s) = lsc_calls s @ connect_call env #
      concat (replicate 10 [StartTimer CONNECTION_RETRY_TIMER_MSEC, connect_call env])"
    "m_daemonState (tried env s) = eInitializing" "m_initializingRetry (tried env s) = 10"
    using retries [of 10, OF _ i(1,2), of env] i(3) by (simp_all add: tried_def)
  then show ?thesis
    by (simp add: errorOccurred_def MAX_CONNECTION_RETRY_def disconnectInternal_def Let_def)
qed

text \<open>A failure of the backend reaches the client and is only logged there.\<close>

lemma backend_failure_ignored:
  assumes "message_ok env (last (conn_written (backendFailure err t)))" "lsc_buffer s = []"
  shows "lsc_readData env (wire env (last (conn_written (backendFailure err t)))) s = s"
  using assms client_reads_message [OF assms]
  by (simp add: backendFailure_def conn_write_def lsc_parseCommand_def message_ok_def Let_def)

end
