(* ===== verification/Vpn_Configuration.thy ===== *)
theory Vpn_Configuration
  imports Preference_Lists Local_Socket_Facts
begin

text \<open>
  The two steps of \<^verbatim>\<open>client/vpnConnection.cpp\<close> that put the preferences into the configuration of a
  connection, \<open>appendKillSwitchConfig\<close> and \<open>appendSplitTunnelingConfig\<close>, with the checks of
  addresses from \<^verbatim>\<open>client/core/utils/networkUtilities.cpp\<close>. At the end the whole way from the
  preferences to the tunnel of the daemon.
\<close>

section \<open>Addresses\<close>

definition checkIPv4Format :: "(QString \<Rightarrow> QHostAddress) \<Rightarrow> QString \<Rightarrow> bool" where
  "checkIPv4Format parse ip =
     (ip \<noteq> '''' \<and> length (filter (\<lambda>c. c = CHR ''.'') ip) = 3 \<and> protocol (parse ip) = IPv4Protocol)"

definition checkIpSubnetFormat :: "(QString \<Rightarrow> QHostAddress) \<Rightarrow> QString \<Rightarrow> bool" where
  "checkIpSubnetFormat parse ip =
     (if CHR ''/'' \<notin> set ip then checkIPv4Format parse ip
      else case split_str ''/'' ip of
             [a, m] \<Rightarrow> (case toInt m of
                          None \<Rightarrow> False
                        | Some subnet \<Rightarrow> 0 \<le> subnet \<and> subnet \<le> 32 \<and> checkIPv4Format parse a)
           | _ \<Rightarrow> False)"

section \<open>The configuration\<close>

definition appendKillSwitchConfig ::
  "'e settings_env_scheme \<Rightarrow> QJsonObject \<Rightarrow> AppSettings \<Rightarrow> QJsonObject \<times> AppSettings" where
  "appendKillSwitchConfig env cfg r =
     (let (kill, r1) = isKillSwitchEnabled env r;
          (dns, r2) = getAllowedDnsServers env r1
      in (obj_insert ''allowedDnsServers'' (JArray (map JString dns))
            (obj_insert ''killSwitchOption'' (JString (variant_toString (VBool kill))) cfg), r2))"

text \<open>The first line of a native configuration that sets a key.\<close>

fun native_value :: "QString \<Rightarrow> QString list \<Rightarrow> QString option" where
  "native_value key [] = None"
| "native_value key (l # ls) =
     (let parts = split_str ''='' l
      in if 2 \<le> length parts \<and> trimmed (hd parts) = key then Some (trimmed (join ''='' (tl parts)))
         else native_value key ls)"

definition native_setting :: "QString \<Rightarrow> QJsonObject \<Rightarrow> QString option" where
  "native_setting key configData =
     native_value key (split_str [CHR 0x0A] (json_toString (obj_value configData ''config'')))"

definition fill_allowed_ips :: "QJsonObject \<Rightarrow> QJsonObject" where
  "fill_allowed_ips configData =
     (let v = obj_value configData ''allowed_ips'' in
      if isString v
      then obj_insert ''allowed_ips'' (JArray (map JString (split_str '', '' (json_toString v)))) configData
      else if v = JUndefined then
        (case native_setting ''AllowedIPs'' configData of
           None \<Rightarrow> configData
         | Some ips \<Rightarrow>
             obj_insert ''allowed_ips''
               (JArray (map (JString \<circ> trimmed) (filter (\<lambda>p. p \<noteq> []) (split_str '','' ips)))) configData)
      else configData)"

definition fill_keepalive :: "QJsonObject \<Rightarrow> QJsonObject" where
  "fill_keepalive configData =
     (if obj_value configData ''persistent_keep_alive'' = JUndefined then
        (case native_setting ''PersistentKeepalive'' configData of
           None \<Rightarrow> configData
         | Some v \<Rightarrow> obj_insert ''persistent_keep_alive'' (JString v) configData)
      else configData)"

text \<open>
  The old formats of the two protocols are brought up to date; the result tells whether sites may be
  split. The object is stored back whenever it changed, which is the same as always.
\<close>

definition native_config :: "QJsonObject \<Rightarrow> bool \<times> QJsonObject" where
  "native_config cfg =
     (let protocolName = json_toString (obj_value cfg ''protocol'') in
      if protocolName = ''awg'' \<or> protocolName = ''wireguard'' then
        let key = protocolName @ ''_config_data'';
            data0 = json_toObject (obj_value cfg key);
            data1 = fill_keepalive (fill_allowed_ips data0);
            ips = json_toArray (obj_value data1 ''allowed_ips'')
        in (JString ''0.0.0.0/0'' \<in> set ips \<and> JString ''::/0'' \<in> set ips,
            if data1 = data0 then cfg else obj_insert key (JObject data1) cfg)
      else (True, cfg))"

definition site_texts :: "(QString \<Rightarrow> QHostAddress) \<Rightarrow> (QString \<times> QVariant) list \<Rightarrow> QString list" where
  "site_texts parse m =
     rev (remdups (rev (concat (map (\<lambda>(k, v).
       if checkIpSubnetFormat parse k then [k] else filter (checkIpSubnetFormat parse) (siteIpList v)) m))))"

definition site_split ::
  "'e settings_env_scheme \<Rightarrow> (QString \<Rightarrow> QHostAddress) \<Rightarrow> bool \<Rightarrow> QJsonObject \<Rightarrow> AppSettings
   \<Rightarrow> (RouteMode \<times> QString list) \<times> AppSettings" where
  "site_split env parse allow cfg r =
     (let (enabled, r1) = isSitesSplitTunnelingEnabled env r in
      if \<not> enabled then ((VpnAllSites, []), r1)
      else
        let (mode, r2) = routeMode env r1 in
        if \<not> allow then ((mode, []), r2)
        else
          let (m, r3) = vpnSites env mode r2;
              sites = site_texts parse m
          in if sites = [] then ((VpnAllSites, []), r3)
             else if mode = VpnOnlyForwardSites
             then ((mode, sites @ [json_toString (obj_value cfg ''dns1''), json_toString (obj_value cfg ''dns2'')]), r3)
             else ((mode, sites), r3))"

text \<open>Routing by application is switched off, so its part is constant.\<close>

definition app_split ::
  "'e settings_env_scheme \<Rightarrow> AppSettings \<Rightarrow> (AppsRouteMode \<times> QString list) \<times> AppSettings" where
  "app_split env r =
     (if isAppsSplitTunnelingEnabled then
        let (mode, r1) = appsRouteMode env r;
            (apps, r2) = vpnApps env mode r1;
            names = map (\<lambda>a. if appPath a = '''' then packageName a else appPath a) apps
        in ((if names = [] then VpnAllApps else mode, names), r2)
      else ((VpnAllApps, []), r))"

definition appendSplitTunnelingConfig ::
  "'e settings_env_scheme \<Rightarrow> (QString \<Rightarrow> QHostAddress) \<Rightarrow> QJsonObject \<Rightarrow> AppSettings \<Rightarrow> QJsonObject \<times> AppSettings" where
  "appendSplitTunnelingConfig env parse cfg r =
     (let (allow, cfg1) = native_config cfg;
          ((mode, sites), r1) = site_split env parse allow cfg1 r;
          ((amode, apps), r2) = app_split env r1
      in (obj_insert ''splitTunnelApps'' (JArray (map JString apps))
           (obj_insert ''appSplitTunnelType'' (JDouble (of_int (appsRouteMode_int amode)))
           (obj_insert ''splitTunnelSites'' (JArray (map JString sites))
           (obj_insert ''splitTunnelType'' (JDouble (of_int (routeMode_int mode))) cfg1))), r2))"

text \<open>The configuration that a connection on a desktop starts with.\<close>

definition vpn_configuration ::
  "'e settings_env_scheme \<Rightarrow> (QString \<Rightarrow> QHostAddress) \<Rightarrow> QJsonObject \<Rightarrow> AppSettings \<Rightarrow> QJsonObject \<times> AppSettings" where
  "vpn_configuration env parse cfg r =
     (let (cfg1, r1) = appendKillSwitchConfig env cfg r in appendSplitTunnelingConfig env parse cfg1 r1)"

section \<open>What the preferences say\<close>

definition kill_pref :: "AppSettings \<Rightarrow> bool" where
  "kill_pref r = (case pref r ''Conf/killSwitchEnabled'' of None \<Rightarrow> True | Some v \<Rightarrow> variant_toBool v)"

definition split_pref :: "AppSettings \<Rightarrow> bool" where
  "split_pref r = (case pref r ''Conf/sitesSplitTunnelingEnabled'' of None \<Rightarrow> False | Some v \<Rightarrow> variant_toBool v)"

definition active_sites :: "(QString \<Rightarrow> QHostAddress) \<Rightarrow> AppSettings \<Rightarrow> QString list" where
  "active_sites parse r = (if split_pref r then site_texts parse (sites_of r (stored_mode r)) else [])"

definition chosen :: "(QString \<Rightarrow> QHostAddress) \<Rightarrow> QJsonObject \<Rightarrow> AppSettings \<Rightarrow> RouteMode \<times> QString list" where
  "chosen parse cfg r =
     (let sites = active_sites parse r in
      if sites = [] then (VpnAllSites, [])
      else if stored_mode r = VpnOnlyForwardSites
      then (stored_mode r, sites @ [json_toString (obj_value cfg ''dns1''), json_toString (obj_value cfg ''dns2'')])
      else (stored_mode r, sites))"

text \<open>Reading preferences does not change them.\<close>

definition same_prefs :: "AppSettings \<Rightarrow> AppSettings \<Rightarrow> bool" where
  "same_prefs r r' = (app_ok r' \<and> (\<forall>k. plain_key k \<longrightarrow> pref r' k = pref r k))"

lemma same_prefsD:
  assumes "same_prefs r r'"
  shows "app_ok r'" "kill_pref r' = kill_pref r" "dns_pref r' = dns_pref r" "split_pref r' = split_pref r"
    "stored_mode r' = stored_mode r" "sites_of r' mode = sites_of r mode"
  using assms by (simp_all add: same_prefs_def kill_pref_def dns_pref_def split_pref_def stored_mode_def sites_of_def)

lemma same_prefs_trans: "same_prefs r r1 \<Longrightarrow> same_prefs r1 r2 \<Longrightarrow> same_prefs r r2"
  by (simp add: same_prefs_def)

lemma killSwitch_facts:
  assumes "app_ok r"
  shows "fst (isKillSwitchEnabled env r) = kill_pref r" "same_prefs r (snd (isKillSwitchEnabled env r))"
  by (simp_all add: isKillSwitchEnabled_def kill_pref_def same_prefs_def bool_setting_facts [OF assms])

lemma allowedDns_facts:
  assumes "app_ok r"
  shows "fst (getAllowedDnsServers env r) = dns_pref r" "same_prefs r (snd (getAllowedDnsServers env r))"
  by (simp_all add: getAllowedDnsServers_def dns_pref_def same_prefs_def app_value_facts [OF assms] case_prod_beta
      split: option.split)

lemma splitEnabled_facts:
  assumes "app_ok r"
  shows "fst (isSitesSplitTunnelingEnabled env r) = split_pref r" "same_prefs r (snd (isSitesSplitTunnelingEnabled env r))"
  by (simp_all add: isSitesSplitTunnelingEnabled_def split_pref_def same_prefs_def bool_setting_facts [OF assms])

lemma routeMode_same: "app_ok r \<Longrightarrow> same_prefs r (snd (routeMode env r))"
  by (simp add: routeMode_def same_prefs_def app_value_facts case_prod_beta)

lemma killSwitch_config:
  assumes "app_ok r"
  shows "fst (appendKillSwitchConfig env cfg r) = obj_insert ''allowedDnsServers'' (JArray (map JString (dns_pref r)))
      (obj_insert ''killSwitchOption'' (JString (if kill_pref r then ''true'' else ''false'')) cfg)"
    "same_prefs r (snd (appendKillSwitchConfig env cfg r))"
proof -
  note k = killSwitch_facts [OF assms, of env]
  note d = allowedDns_facts [OF same_prefsD(1) [OF k(2)], of env]
  show "fst (appendKillSwitchConfig env cfg r) = obj_insert ''allowedDnsServers'' (JArray (map JString (dns_pref r)))
      (obj_insert ''killSwitchOption'' (JString (if kill_pref r then ''true'' else ''false'')) cfg)"
    by (simp add: appendKillSwitchConfig_def case_prod_beta Let_def k(1) d(1) same_prefsD(3) [OF k(2)])
  show "same_prefs r (snd (appendKillSwitchConfig env cfg r))"
    using same_prefs_trans [OF k(2) d(2)] by (simp add: appendKillSwitchConfig_def case_prod_beta Let_def)
qed

lemma site_split_chosen:
  assumes "app_ok r"
  shows "fst (site_split env parse True cfg r) = chosen parse cfg r"
proof -
  note e = splitEnabled_facts [OF assms, of env]
  let ?r1 = "snd (isSitesSplitTunnelingEnabled env r)"
  note m = routeMode_facts(1) [OF same_prefsD(1) [OF e(2)], of env]
  note s = routeMode_same [OF same_prefsD(1) [OF e(2)], of env]
  have v: "fst (vpnSites env mode (snd (routeMode env ?r1))) = sites_of r mode" for mode
    by (simp add: vpnSites_facts [OF same_prefsD(1) [OF s]] same_prefsD(6) [OF s] same_prefsD(6) [OF e(2)])
  show ?thesis
    by (simp add: site_split_def chosen_def active_sites_def case_prod_beta Let_def e(1) m v same_prefsD(5) [OF e(2)])
qed

section \<open>From the preferences to the tunnel\<close>

lemma fill_values:
  "k \<noteq> ''allowed_ips'' \<Longrightarrow> obj_value (fill_allowed_ips d) k = obj_value d k"
  "k \<noteq> ''persistent_keep_alive'' \<Longrightarrow> obj_value (fill_keepalive d) k = obj_value d k"
  by (simp_all add: fill_allowed_ips_def fill_keepalive_def Let_def split: option.split)

lemma fill_array: "isArray (obj_value d ''allowed_ips'') \<Longrightarrow> fill_allowed_ips d = d"
  by (cases "obj_value d ''allowed_ips''") (simp_all add: fill_allowed_ips_def)

definition wireguard_protocol :: "QJsonObject \<Rightarrow> bool" where
  "wireguard_protocol cfg = (obj_value cfg ''protocol'' \<in> {JString ''awg'', JString ''wireguard''})"

definition default_ranges :: "QJsonValue list" where
  "default_ranges = [JString ''0.0.0.0/0'', JString ''::/0'']"

text \<open>The values of the protocol's data, after the old formats were brought up to date.\<close>

lemma native_config_facts:
  assumes "wireguard_protocol cfg" "obj_value (wg_config_data cfg) ''allowed_ips'' = JArray ips"
  shows "fst (native_config cfg) = (JString ''0.0.0.0/0'' \<in> set ips \<and> JString ''::/0'' \<in> set ips)"
    "k \<noteq> ''persistent_keep_alive'' \<Longrightarrow>
       obj_value (wg_config_data (snd (native_config cfg))) k = obj_value (wg_config_data cfg) k"
    "k \<noteq> json_toString (obj_value cfg ''protocol'') @ ''_config_data'' \<Longrightarrow>
       obj_value (snd (native_config cfg)) k = obj_value cfg k"
proof -
  let ?p = "json_toString (obj_value cfg ''protocol'')" and ?d = "wg_config_data cfg"
  have p: "?p = ''awg'' \<or> ?p = ''wireguard''" using assms(1) by (auto simp: wireguard_protocol_def)
  have a: "fill_allowed_ips ?d = ?d" by (rule fill_array) (simp add: assms(2))
  have n: "native_config cfg = (JString ''0.0.0.0/0'' \<in> set ips \<and> JString ''::/0'' \<in> set ips,
      if fill_keepalive ?d = ?d then cfg else obj_insert (?p @ ''_config_data'') (JObject (fill_keepalive ?d)) cfg)"
    using p a by (simp add: native_config_def Let_def wg_config_data_def [symmetric] fill_values assms(2))
  have q: "''protocol'' \<noteq> ?p @ ''_config_data''" using p by auto
  show "fst (native_config cfg) = (JString ''0.0.0.0/0'' \<in> set ips \<and> JString ''::/0'' \<in> set ips)"
    by (simp add: n)
  show "k \<noteq> ?p @ ''_config_data'' \<Longrightarrow> obj_value (snd (native_config cfg)) k = obj_value cfg k" by (simp add: n)
  show "k \<noteq> ''persistent_keep_alive'' \<Longrightarrow>
       obj_value (wg_config_data (snd (native_config cfg))) k = obj_value ?d k"
    using q by (simp add: n wg_config_data_def [of "obj_insert _ _ _"] fill_values)
qed

text \<open>
  The order of the two ranges matters to the request alone: the sites are written into the
  configuration, and the request still asks for the two ranges.
\<close>

lemma swapped_ranges_ignore_sites:
  assumes "wireguard_protocol cfg" "obj_value (wg_config_data cfg) ''allowed_ips'' = JArray (rev default_ranges)"
  shows "fst (native_config cfg) \<and>
    client_ranges env (rev default_ranges) typ sites = map (text_range env) [''::/0'', ''0.0.0.0/0'']"
  by (simp add: native_config_facts [OF assms] client_ranges_def default_ranges_def)

definition usable_base :: "QJsonObject \<Rightarrow> bool" where
  "usable_base cfg =
     (let wg = wg_config_data cfg in
      isString (obj_value wg ''client_priv_key'') \<and> isString (obj_value wg ''server_pub_key'') \<and>
      isString (obj_value wg ''hostName'') \<and> json_toString (obj_value wg ''hostName'') \<noteq> '''' \<and>
      string_or_missing (obj_value cfg ''dns1'') \<and> string_or_missing (obj_value cfg ''dns2''))"

lemma kill_config_wg:
  "wireguard_protocol cfg \<Longrightarrow> cfg1 = obj_insert ''allowedDnsServers'' x (obj_insert ''killSwitchOption'' y cfg) \<Longrightarrow>
   wireguard_protocol cfg1 \<and> wg_config_data cfg1 = wg_config_data cfg"
  by (auto simp: wireguard_protocol_def wg_config_data_def)

text \<open>The four entries that are added at the end.\<close>

lemma split_config_values:
  fixes env parse cfg r defines "c2 \<equiv> fst (appendSplitTunnelingConfig env parse cfg r)"
  assumes "wireguard_protocol cfg" "obj_value (wg_config_data cfg) ''allowed_ips'' = JArray default_ranges" "app_ok r"
  shows "obj_value c2 ''splitTunnelType'' = JDouble (of_int (routeMode_int (fst (chosen parse cfg r))))"
    "obj_value c2 ''splitTunnelSites'' = JArray (map JString (snd (chosen parse cfg r)))"
    "obj_value c2 ''splitTunnelApps'' = JArray []"
    "k \<noteq> ''persistent_keep_alive'' \<Longrightarrow> obj_value (wg_config_data c2) k = obj_value (wg_config_data cfg) k"
    "k \<in> {''dns1'', ''dns2'', ''killSwitchOption'', ''allowedDnsServers''} \<Longrightarrow> obj_value c2 k = obj_value cfg k"
proof -
  note n = native_config_facts [OF assms(2,3)]
  let ?c1 = "snd (native_config cfg)"
  have p: "json_toString (obj_value cfg ''protocol'') \<in> {''awg'', ''wireguard''}"
    using assms(2) by (auto simp: wireguard_protocol_def)
  have v: "obj_value ?c1 k = obj_value cfg k" if "k \<notin> {''awg_config_data'', ''wireguard_config_data''}" for k
    using p that by (intro n(3)) auto
  have a: "fst (native_config cfg)" by (simp add: n(1) default_ranges_def)
  have "chosen parse ?c1 r = chosen parse cfg r" by (simp add: chosen_def v Let_def)
  then have c2: "c2 = obj_insert ''splitTunnelApps'' (JArray [])
      (obj_insert ''appSplitTunnelType'' (JDouble (of_int (appsRouteMode_int VpnAllApps)))
      (obj_insert ''splitTunnelSites'' (JArray (map JString (snd (chosen parse cfg r))))
      (obj_insert ''splitTunnelType'' (JDouble (of_int (routeMode_int (fst (chosen parse cfg r))))) ?c1)))"
    using a site_split_chosen [OF assms(4), of env parse ?c1]
    by (simp add: c2_def appendSplitTunnelingConfig_def case_prod_beta Let_def app_split_def isAppsSplitTunnelingEnabled_def)
  have "wg_config_data c2 = wg_config_data ?c1"
    using p by (auto simp: c2 wg_config_data_def v)
  then show "k \<noteq> ''persistent_keep_alive'' \<Longrightarrow> obj_value (wg_config_data c2) k = obj_value (wg_config_data cfg) k"
    by (simp add: n(2))
  show "obj_value c2 ''splitTunnelType'' = JDouble (of_int (routeMode_int (fst (chosen parse cfg r))))"
    "obj_value c2 ''splitTunnelSites'' = JArray (map JString (snd (chosen parse cfg r)))"
    "obj_value c2 ''splitTunnelApps'' = JArray []" by (simp_all add: c2)
  show "k \<in> {''dns1'', ''dns2'', ''killSwitchOption'', ''allowedDnsServers''} \<Longrightarrow> obj_value c2 k = obj_value cfg k"
    by (elim insertE emptyE; simp only: c2; simp add: v)
qed

text \<open>The configuration with the preferences in it: what the request is made from.\<close>

lemma vpn_configuration_values:
  fixes senv parse cfg r defines "raw \<equiv> fst (vpn_configuration senv parse cfg r)"
  assumes "wireguard_protocol cfg" "obj_value (wg_config_data cfg) ''allowed_ips'' = JArray default_ranges" "app_ok r"
  shows "json_toInt 0 (obj_value raw ''splitTunnelType'') = json_toInt 0 (JDouble (of_int (routeMode_int (fst (chosen parse cfg r)))))"
    "json_toArray (obj_value raw ''splitTunnelSites'') = map JString (snd (chosen parse cfg r))"
    "json_toArray (obj_value raw ''splitTunnelApps'') = []"
    "json_toArray (obj_value raw ''allowedDnsServers'') = map JString (dns_pref r)"
    "obj_value raw ''killSwitchOption'' = JString (if kill_pref r then ''true'' else ''false'')"
    "k \<noteq> ''persistent_keep_alive'' \<Longrightarrow> obj_value (wg_config_data raw) k = obj_value (wg_config_data cfg) k"
    "k \<in> {''dns1'', ''dns2''} \<Longrightarrow> obj_value raw k = obj_value cfg k"
proof -
  note kf = killSwitch_config [OF assms(4), of senv cfg]
  let ?c1 = "fst (appendKillSwitchConfig senv cfg r)" and ?r1 = "snd (appendKillSwitchConfig senv cfg r)"
  note p = same_prefsD [OF kf(2)]
  have w: "wireguard_protocol ?c1" "wg_config_data ?c1 = wg_config_data cfg"
    using kill_config_wg [OF assms(2) kf(1)] by simp_all
  have raw: "raw = fst (appendSplitTunnelingConfig senv parse ?c1 ?r1)"
    by (simp add: raw_def vpn_configuration_def case_prod_beta)
  have ips: "obj_value (wg_config_data ?c1) ''allowed_ips'' = JArray default_ranges" by (simp add: w(2) assms(3))
  have ch: "chosen parse ?c1 ?r1 = chosen parse cfg r"
    by (simp add: chosen_def active_sites_def p kf(1) Let_def)
  note v = split_config_values [OF w(1) ips p(1), where env = senv and parse = parse, folded raw, unfolded ch w(2)]
  show "json_toInt 0 (obj_value raw ''splitTunnelType'') = json_toInt 0 (JDouble (of_int (routeMode_int (fst (chosen parse cfg r)))))"
    "json_toArray (obj_value raw ''splitTunnelSites'') = map JString (snd (chosen parse cfg r))"
    "json_toArray (obj_value raw ''splitTunnelApps'') = []"
    "json_toArray (obj_value raw ''allowedDnsServers'') = map JString (dns_pref r)"
    "obj_value raw ''killSwitchOption'' = JString (if kill_pref r then ''true'' else ''false'')"
    "k \<noteq> ''persistent_keep_alive'' \<Longrightarrow> obj_value (wg_config_data raw) k = obj_value (wg_config_data cfg) k"
    using v(5) [of "''allowedDnsServers''"] v(5) [of "''killSwitchOption''"] by (simp_all add: v(1-4) kf(1))
  show "k \<in> {''dns1'', ''dns2''} \<Longrightarrow> obj_value raw k = obj_value cfg k"
    using v(5) [of k] by (auto simp: kf(1))
qed

definition named_mode :: "RouteMode \<Rightarrow> bool" where
  "named_mode mode = (mode \<in> {VpnAllSites, VpnOnlyForwardSites, VpnAllExceptSites})"

text \<open>The routing of a tunnel as the preferences want it.\<close>

definition routed :: "('w, 'e) socket_env_scheme \<Rightarrow> QJsonObject \<Rightarrow> AppSettings \<Rightarrow> InterfaceConfig \<Rightarrow> bool" where
  "routed env cfg r c =
     (let sites = active_sites (parseHost env) r;
          host = json_toString (obj_value (wg_config_data cfg) ''hostName'');
          dns = [json_toString (obj_value cfg ''dns1''), json_toString (obj_value cfg ''dns2'')]
      in m_killSwitchEnabled c = kill_pref r \<and> m_allowedDnsServers c = dns_pref r \<and> m_vpnDisabledApps c = [] \<and>
         m_excludedAddresses c = host # (if stored_mode r = VpnAllExceptSites then sites else []) \<and>
         m_allowedIPAddressRanges c = std_sort env
           (if sites \<noteq> [] \<and> stored_mode r = VpnOnlyForwardSites then map (text_range env) (sites @ dns)
            else [\<lparr>m_address = parseHost env ''0.0.0.0'', m_prefixLength = 0\<rparr>,
                  \<lparr>m_address = parseHost env ''::'', m_prefixLength = 0\<rparr>]))"

lemma bool_text: "variant_toBool (VString (if b then ''true'' else ''false'')) = b"
  by (cases b) (simp, code_simp, simp, code_simp)

lemma named_mode_int: "named_mode mode \<Longrightarrow> json_toInt 0 (JDouble (of_int (routeMode_int mode))) = routeMode_int mode"
  by (auto simp: named_mode_def)

lemma named_mode_iff:
  "named_mode mode \<Longrightarrow> (routeMode_int mode = 1 \<longleftrightarrow> mode = VpnOnlyForwardSites) \<and>
     (routeMode_int mode = 2 \<longleftrightarrow> mode = VpnAllExceptSites) \<and> (routeMode_int mode = 0 \<longleftrightarrow> mode = VpnAllSites)"
  by (auto simp: named_mode_def)

lemma chosen_facts:
  assumes "named_mode (stored_mode r)"
  shows "named_mode (fst (chosen parse cfg r))"
    "(if fst (chosen parse cfg r) = VpnAllExceptSites then snd (chosen parse cfg r) else []) =
       (if stored_mode r = VpnAllExceptSites then active_sites parse r else [])"
    "fst (chosen parse cfg r) = VpnOnlyForwardSites \<longleftrightarrow> active_sites parse r \<noteq> [] \<and> stored_mode r = VpnOnlyForwardSites"
    "fst (chosen parse cfg r) = VpnOnlyForwardSites \<Longrightarrow> snd (chosen parse cfg r) =
       active_sites parse r @ [json_toString (obj_value cfg ''dns1''), json_toString (obj_value cfg ''dns2'')]"
  using assms by (auto simp: chosen_def named_mode_def Let_def split: if_splits)

lemma describes_routed:
  assumes "wireguard_protocol cfg" "obj_value (wg_config_data cfg) ''allowed_ips'' = JArray default_ranges" "app_ok r"
    and "named_mode (stored_mode r)" "describes env (fst (vpn_configuration senv (parseHost env) cfg r)) c"
  shows "routed env cfg r c"
proof -
  note v = vpn_configuration_values [OF assms(1-3), where senv = senv and parse = "parseHost env"]
  note ch = chosen_facts [OF assms(4), where parse = "parseHost env" and cfg = cfg]
  let ?mode = "fst (chosen (parseHost env) cfg r)" and ?sites = "snd (chosen (parseHost env) cfg r)"
  have s: "map json_toString (map JString xs) = xs" for xs by (induction xs) simp_all
  note d = assms(5) [unfolded describes_def Let_def v(1-5) v(6) [where k = "''hostName''", simplified]
      v(6) [where k = "''allowed_ips''", simplified] named_mode_int [OF ch(1)] s assms(2)]
  have e: "m_excludedAddresses c = json_toString (obj_value (wg_config_data cfg) ''hostName'') #
      (if stored_mode r = VpnAllExceptSites then active_sites (parseHost env) r else [])"
    using d named_mode_iff [OF ch(1)] by (simp only: ch(2) simp_thms)
  have "named_mode ?mode \<Longrightarrow> ?mode \<noteq> VpnOnlyForwardSites \<Longrightarrow> ?mode = VpnAllSites \<or> ?mode = VpnAllExceptSites"
    by (auto simp: named_mode_def)
  then have "client_ranges env default_ranges (routeMode_int ?mode) ?sites =
      (if ?mode = VpnOnlyForwardSites then map (text_range env) ?sites
       else [\<lparr>m_address = parseHost env ''0.0.0.0'', m_prefixLength = 0\<rparr>,
             \<lparr>m_address = parseHost env ''::'', m_prefixLength = 0\<rparr>])"
    using named_mode_iff [OF ch(1)] ch(1) by (auto simp: client_ranges_def default_ranges_def)
  then have a: "m_allowedIPAddressRanges c = std_sort env
      (if ?mode = VpnOnlyForwardSites then map (text_range env) ?sites
       else [\<lparr>m_address = parseHost env ''0.0.0.0'', m_prefixLength = 0\<rparr>,
             \<lparr>m_address = parseHost env ''::'', m_prefixLength = 0\<rparr>])"
    using d by (simp only: json_toArray.simps simp_thms)
  have r: "m_killSwitchEnabled c = kill_pref r" "m_allowedDnsServers c = dns_pref r" "m_vpnDisabledApps c = []"
    using d by (simp_all only: json_toString.simps bool_text s list.map simp_thms)
  show ?thesis
    unfolding routed_def Let_def e a r
    by (cases "?mode = VpnOnlyForwardSites") (use ch(3,4) in \<open>auto simp del: map_append\<close>)
qed

lemma usable_raw:
  assumes "wireguard_protocol cfg" "obj_value (wg_config_data cfg) ''allowed_ips'' = JArray default_ranges" "app_ok r"
    and "usable_base cfg"
  shows "usable_config (fst (vpn_configuration senv parse cfg r))"
proof -
  note v = vpn_configuration_values [OF assms(1-3), where senv = senv and parse = parse]
  have "list_all isString (map JString xs)" for xs by (simp add: list_all_iff)
  with assms(4) show ?thesis
    unfolding usable_config_def usable_base_def Let_def v(3,4) v(6) [where k = "''hostName''", simplified]
      v(6) [where k = "''client_priv_key''", simplified] v(6) [where k = "''server_pub_key''", simplified]
      v(7) [where k = "''dns1''", simplified] v(7) [where k = "''dns2''", simplified]
    by (simp only: list.pred_inject simp_thms)
qed

lemma preferences_activate:
  fixes senv env cfg r defines "raw \<equiv> fst (vpn_configuration senv (parseHost env) cfg r)"
  assumes "wireguard_protocol cfg" "obj_value (wg_config_data cfg) ''allowed_ips'' = JArray default_ranges"
    and "usable_base cfg" "app_ok r" "named_mode (stored_mode r)"
    and "atoi_int env" "message_ok env (activate_request env raw)" "m_buffer s = []"
  shows "\<exists>config. routed env cfg r config \<and>
    conn_daemon (readData env [wire env (activate_request env raw)] s) = snd (activate env config (conn_daemon s))"
proof -
  have "usable_config raw" unfolding raw_def by (rule usable_raw) (fact assms)+
  from daemon_applies_request [OF this assms(7-9)] obtain c where c: "describes env raw c"
    "conn_daemon (readData env [wire env (activate_request env raw)] s) = snd (activate env c (conn_daemon s))" by blast
  have "routed env cfg r c"
    by (rule describes_routed [OF assms(2,3,5,6)]) (rule c(1) [unfolded raw_def])
  with c(2) show ?thesis by blast
qed

section \<open>Properties\<close>

definition example_cfg :: QJsonObject where
  "example_cfg =
     [(''protocol'', JString ''awg''), (''dns1'', JString ''1.1.1.1''),
      (''awg_config_data'', JObject [(''client_priv_key'', JString ''k''), (''server_pub_key'', JString ''p''),
        (''hostName'', JString ''203.0.113.1''), (''allowed_ips'', JArray default_ranges)])]"



end
