(* ===== verification/Linux_Firewall.thy ===== *)
theory Linux_Firewall
  imports Qt_Values
begin

text \<open>
  \<^verbatim>\<open>client/platforms/linux/daemon/linuxfirewall.cpp\<close>: the chains through which the client controls the
  firewall of Linux. Every anchor is a placeholder chain, linked into a root chain at its place,
  and a chain with the rules; an anchor is enabled by a jump from the first to the second. The
  program iptables is a parameter, one invocation at a time; the shell scripts around the
  invocations are written out. The results of the functions on chains are never read and left out.
\<close>

section \<open>Rules and commands\<close>

datatype IPVersion = IPv4 | IPv6 | Both

datatype fw_table = FilterTable | NatTable | RawTable | MangleTable

datatype rule_match =
    OutIface QString | NotOutIface QString | Dst QString | Proto QString | Sport nat | Dport nat
  | Mark nat | CGroup nat

datatype rule_target = ACCEPT | REJECT | Jump QString | MASQUERADE | SetMark nat

type_synonym fw_rule = "rule_match list \<times> rule_target"

datatype ipt_op =
    NewChain QString | FlushChain QString | DeleteChain QString | ListChain QString
  | CheckRule QString fw_rule | AppendRule QString fw_rule | InsertRule QString fw_rule
  | DeleteRule QString fw_rule | DeleteAt QString nat | ReplaceFirst QString fw_rule

text \<open>An invocation of iptables, or of ip6tables, and the other commands that are run.\<close>

datatype fw_command =
    Iptables bool fw_table ipt_op
  | AddRoutingTable | MakeCGroup | AddMarkRule | DelMarkRule | FlushRoutingTable | FlushRouteCache

text \<open>
  Exit codes and effects of the commands, the column of targets that iptables lists for a chain,
  and whether the cgroup file system is there.
\<close>

record 'w fw_env =
  run_command :: "fw_command \<Rightarrow> 'w \<Rightarrow> int \<times> 'w"
  listed_targets :: "bool \<Rightarrow> fw_table \<Rightarrow> QString \<Rightarrow> 'w \<Rightarrow> QString list"
  cgroup_exists :: "'w \<Rightarrow> bool"

datatype anchor_callback = SetupSplitting | TeardownSplitting

record 'w LinuxFirewall =
  fw_world :: 'w
  anchorCallbacks :: "((bool \<times> fw_table \<times> QString) \<times> anchor_callback) list"

definition kRootChain :: QString where "kRootChain = ''amnvpn.anchors''"

definition kOutputChain :: QString where "kOutputChain = ''OUTPUT''"

definition anchorChain :: "QString \<Rightarrow> QString" where "anchorChain anchor = ''amnvpn.a.'' @ anchor"

definition actualChain :: "QString \<Rightarrow> QString" where "actualChain anchor = ''amnvpn.'' @ anchor"

definition jump_to :: "QString \<Rightarrow> fw_rule" where "jump_to chain = ([], Jump chain)"

definition fw_execute :: "('w, 'e) fw_env_scheme \<Rightarrow> fw_command \<Rightarrow> 'w LinuxFirewall \<Rightarrow> int \<times> 'w LinuxFirewall" where
  "fw_execute env c s = (let (code, w) = run_command env c (fw_world s) in (code, s\<lparr>fw_world := w\<rparr>))"

definition iptables ::
  "('w, 'e) fw_env_scheme \<Rightarrow> bool \<Rightarrow> fw_table \<Rightarrow> ipt_op \<Rightarrow> 'w LinuxFirewall \<Rightarrow> int \<times> 'w LinuxFirewall" where
  "iptables env v6 table oper = fw_execute env (Iptables v6 table oper)"

text \<open>A function of one version of the protocol, for both in turn.\<close>

fun for_versions :: "(bool \<Rightarrow> 's \<Rightarrow> 's) \<Rightarrow> IPVersion \<Rightarrow> 's \<Rightarrow> 's" where
  "for_versions f IPv4 s = f False s"
| "for_versions f IPv6 s = f True s"
| "for_versions f Both s = f True (f False s)"

section \<open>Chains\<close>

definition createChain1 ::
  "('w, 'e) fw_env_scheme \<Rightarrow> QString \<Rightarrow> fw_table \<Rightarrow> bool \<Rightarrow> 'w LinuxFirewall \<Rightarrow> 'w LinuxFirewall" where
  "createChain1 env chain table v6 s =
     (let (code, s1) = iptables env v6 table (NewChain chain) s
      in if code = 0 then s1 else snd (iptables env v6 table (FlushChain chain) s1))"

definition createChain ::
  "('w, 'e) fw_env_scheme \<Rightarrow> IPVersion \<Rightarrow> QString \<Rightarrow> fw_table \<Rightarrow> 'w LinuxFirewall \<Rightarrow> 'w LinuxFirewall" where
  "createChain env ip chain table = for_versions (createChain1 env chain table) ip"

definition deleteChain1 ::
  "('w, 'e) fw_env_scheme \<Rightarrow> QString \<Rightarrow> fw_table \<Rightarrow> bool \<Rightarrow> 'w LinuxFirewall \<Rightarrow> 'w LinuxFirewall" where
  "deleteChain1 env chain table v6 s =
     (let (code, s1) = iptables env v6 table (ListChain chain) s in
      if code = 0 then
        let (code2, s2) = iptables env v6 table (FlushChain chain) s1
        in if code2 = 0 then snd (iptables env v6 table (DeleteChain chain) s2) else s2
      else s1)"

definition deleteChain ::
  "('w, 'e) fw_env_scheme \<Rightarrow> IPVersion \<Rightarrow> QString \<Rightarrow> fw_table \<Rightarrow> 'w LinuxFirewall \<Rightarrow> 'w LinuxFirewall" where
  "deleteChain env ip chain table = for_versions (deleteChain1 env chain table) ip"

text \<open>The number of the first rule after the first one that has a target.\<close>

fun later_target :: "QString \<Rightarrow> nat \<Rightarrow> QString list \<Rightarrow> nat option" where
  "later_target chain n [] = None"
| "later_target chain n (t # ts) = (if n > 1 \<and> t = chain then Some n else later_target chain (Suc n) ts)"

text \<open>The jump is inserted at the top, and one older jump further down is deleted.\<close>

definition insert_first ::
  "('w, 'e) fw_env_scheme \<Rightarrow> QString \<Rightarrow> QString \<Rightarrow> fw_table \<Rightarrow> bool \<Rightarrow> 'w LinuxFirewall \<Rightarrow> 'w LinuxFirewall" where
  "insert_first env chain parent table v6 s =
     (let (code, s1) = iptables env v6 table (InsertRule parent (jump_to chain)) s in
      if code = 0 then
        case later_target chain 1 (listed_targets env v6 table parent (fw_world s1)) of
          None \<Rightarrow> s1
        | Some n \<Rightarrow> snd (iptables env v6 table (DeleteAt parent n) s1)
      else s1)"

definition linkChain1 ::
  "('w, 'e) fw_env_scheme \<Rightarrow> QString \<Rightarrow> QString \<Rightarrow> bool \<Rightarrow> fw_table \<Rightarrow> bool \<Rightarrow> 'w LinuxFirewall \<Rightarrow> 'w LinuxFirewall" where
  "linkChain1 env chain parent mustBeFirst table v6 s =
     (if mustBeFirst then
        (case listed_targets env v6 table parent (fw_world s) of
           t # ts \<Rightarrow> if t = chain then s else insert_first env chain parent table v6 s
         | [] \<Rightarrow> insert_first env chain parent table v6 s)
      else
        let (code, s1) = iptables env v6 table (CheckRule parent (jump_to chain)) s
        in if code \<noteq> 0 then snd (iptables env v6 table (AppendRule parent (jump_to chain)) s1) else s1)"

definition linkChain ::
  "('w, 'e) fw_env_scheme \<Rightarrow> IPVersion \<Rightarrow> QString \<Rightarrow> QString \<Rightarrow> bool \<Rightarrow> fw_table \<Rightarrow> 'w LinuxFirewall \<Rightarrow> 'w LinuxFirewall" where
  "linkChain env ip chain parent mustBeFirst table = for_versions (linkChain1 env chain parent mustBeFirst table) ip"

definition unlinkChain1 ::
  "('w, 'e) fw_env_scheme \<Rightarrow> QString \<Rightarrow> QString \<Rightarrow> fw_table \<Rightarrow> bool \<Rightarrow> 'w LinuxFirewall \<Rightarrow> 'w LinuxFirewall" where
  "unlinkChain1 env chain parent table v6 s =
     (let (code, s1) = iptables env v6 table (CheckRule parent (jump_to chain)) s
      in if code = 0 then snd (iptables env v6 table (DeleteRule parent (jump_to chain)) s1) else s1)"

definition unlinkChain ::
  "('w, 'e) fw_env_scheme \<Rightarrow> IPVersion \<Rightarrow> QString \<Rightarrow> QString \<Rightarrow> fw_table \<Rightarrow> 'w LinuxFirewall \<Rightarrow> 'w LinuxFirewall" where
  "unlinkChain env ip chain parent table = for_versions (unlinkChain1 env chain parent table) ip"

definition ensureRootAnchorPriority :: "('w, 'e) fw_env_scheme \<Rightarrow> IPVersion \<Rightarrow> 'w LinuxFirewall \<Rightarrow> 'w LinuxFirewall" where
  "ensureRootAnchorPriority env ip = linkChain env ip kRootChain kOutputChain True FilterTable"

section \<open>Traffic splitting\<close>

definition setupTrafficSplitting :: "('w, 'e) fw_env_scheme \<Rightarrow> 'w LinuxFirewall \<Rightarrow> 'w LinuxFirewall" where
  "setupTrafficSplitting env s =
     (if \<not> cgroup_exists env (fw_world s) then s
      else snd (fw_execute env AddMarkRule (snd (fw_execute env MakeCGroup (snd (fw_execute env AddRoutingTable s))))))"

definition teardownTrafficSplitting :: "('w, 'e) fw_env_scheme \<Rightarrow> 'w LinuxFirewall \<Rightarrow> 'w LinuxFirewall" where
  "teardownTrafficSplitting env s =
     snd (fw_execute env FlushRouteCache (snd (fw_execute env FlushRoutingTable (snd (fw_execute env DelMarkRule s)))))"

fun run_callback :: "('w, 'e) fw_env_scheme \<Rightarrow> anchor_callback option \<Rightarrow> 'w LinuxFirewall \<Rightarrow> 'w LinuxFirewall" where
  "run_callback env None s = s"
| "run_callback env (Some SetupSplitting) s = setupTrafficSplitting env s"
| "run_callback env (Some TeardownSplitting) s = teardownTrafficSplitting env s"

section \<open>Anchors\<close>

definition register_callback ::
  "bool \<Rightarrow> fw_table \<Rightarrow> QString \<Rightarrow> anchor_callback option \<Rightarrow> 'w LinuxFirewall \<Rightarrow> 'w LinuxFirewall" where
  "register_callback enabled table anchor f s =
     (case f of
        None \<Rightarrow> s
      | Some c \<Rightarrow> if map_of (anchorCallbacks s) (enabled, table, anchor) \<noteq> None then s
                  else s\<lparr>anchorCallbacks := ((enabled, table, anchor), c) # anchorCallbacks s\<rparr>)"

definition append_rules ::
  "('w, 'e) fw_env_scheme \<Rightarrow> QString \<Rightarrow> fw_table \<Rightarrow> bool \<Rightarrow> fw_rule list \<Rightarrow> 'w LinuxFirewall \<Rightarrow> 'w LinuxFirewall" where
  "append_rules env chain table v6 rules =
     fold (\<lambda>r s. snd (iptables env v6 table (AppendRule chain r) s)) rules"

definition installAnchor1 ::
  "('w, 'e) fw_env_scheme \<Rightarrow> QString \<Rightarrow> fw_rule list \<Rightarrow> fw_table \<Rightarrow> anchor_callback option \<Rightarrow> anchor_callback option
   \<Rightarrow> bool \<Rightarrow> 'w LinuxFirewall \<Rightarrow> 'w LinuxFirewall" where
  "installAnchor1 env anchor rules table enableFunc disableFunc v6 s =
     (let s1 = createChain1 env (anchorChain anchor) table v6 s;
          s2 = linkChain1 env (anchorChain anchor) kRootChain False table v6 s1;
          s3 = register_callback True table anchor enableFunc s2;
          s4 = register_callback False table anchor disableFunc s3;
          s5 = createChain1 env (actualChain anchor) table v6 s4
      in append_rules env (actualChain anchor) table v6 rules s5)"

definition installAnchor ::
  "('w, 'e) fw_env_scheme \<Rightarrow> IPVersion \<Rightarrow> QString \<Rightarrow> fw_rule list \<Rightarrow> fw_table \<Rightarrow> anchor_callback option
   \<Rightarrow> anchor_callback option \<Rightarrow> 'w LinuxFirewall \<Rightarrow> 'w LinuxFirewall" where
  "installAnchor env ip anchor rules table enableFunc disableFunc =
     for_versions (installAnchor1 env anchor rules table enableFunc disableFunc) ip"

definition uninstallAnchor1 ::
  "('w, 'e) fw_env_scheme \<Rightarrow> QString \<Rightarrow> fw_table \<Rightarrow> bool \<Rightarrow> 'w LinuxFirewall \<Rightarrow> 'w LinuxFirewall" where
  "uninstallAnchor1 env anchor table v6 s =
     (let s1 = unlinkChain1 env (anchorChain anchor) kRootChain table v6 s;
          s2 = deleteChain1 env (anchorChain anchor) table v6 s1
      in deleteChain1 env (actualChain anchor) table v6 s2)"

definition uninstallAnchor ::
  "('w, 'e) fw_env_scheme \<Rightarrow> IPVersion \<Rightarrow> QString \<Rightarrow> fw_table \<Rightarrow> 'w LinuxFirewall \<Rightarrow> 'w LinuxFirewall" where
  "uninstallAnchor env ip anchor table = for_versions (uninstallAnchor1 env anchor table) ip"

text \<open>The anchors of the filter table in the order of their installation, which is their priority.\<close>

definition filter_anchors :: "(IPVersion \<times> QString \<times> fw_rule list) list" where
  "filter_anchors =
     [(Both, ''000.allowLoopback'', [([OutIface ''lo+''], ACCEPT)]),
      (IPv4, ''320.allowDNS'', []),
      (Both, ''310.blockDNS'', [([Proto ''udp'', Dport 53], REJECT), ([Proto ''tcp'', Dport 53], REJECT)]),
      (IPv4, ''300.allowLAN'',
        [([Dst ''10.0.0.0/8''], ACCEPT), ([Dst ''169.254.0.0/16''], ACCEPT), ([Dst ''172.16.0.0/12''], ACCEPT),
         ([Dst ''192.168.0.0/16''], ACCEPT), ([Dst ''224.0.0.0/4''], ACCEPT), ([Dst ''255.255.255.255/32''], ACCEPT)]),
      (IPv6, ''300.allowLAN'',
        [([Dst ''fc00::/7''], ACCEPT), ([Dst ''fe80::/10''], ACCEPT), ([Dst ''ff00::/8''], ACCEPT)]),
      (IPv4, ''290.allowDHCP'', [([Proto ''udp'', Dst ''255.255.255.255'', Sport 68, Dport 67], ACCEPT)]),
      (IPv6, ''290.allowDHCP'', [([Proto ''udp'', Dst ''ff00::/8'', Sport 546, Dport 547], ACCEPT)]),
      (IPv6, ''250.blockIPv6'', [([NotOutIface ''lo+''], REJECT)]),
      (Both, ''200.allowVPN'',
        [([OutIface ''amn0+''], ACCEPT), ([OutIface ''tun0+''], ACCEPT), ([OutIface ''tun2+''], ACCEPT)]),
      (Both, ''130.allowMarkedXray'', [([Mark 0x82], ACCEPT)]),
      (IPv4, ''120.blockNets'', []),
      (IPv4, ''110.allowNets'', []),
      (Both, ''400.allowPIA'', []),
      (Both, ''100.blockAll'', [([], REJECT)])]"

definition removed_anchors :: "(IPVersion \<times> QString) list" where
  "removed_anchors =
     [(Both, ''000.allowLoopback''), (Both, ''400.allowPIA''), (IPv4, ''320.allowDNS''), (Both, ''310.blockDNS''),
      (Both, ''300.allowLAN''), (Both, ''290.allowDHCP''), (IPv6, ''250.blockIPv6''), (Both, ''200.allowVPN''),
      (IPv4, ''120.blockNets''), (Both, ''130.allowMarkedXray''), (IPv4, ''110.allowNets''), (Both, ''100.blockAll'')]"

definition fw_uninstall :: "('w, 'e) fw_env_scheme \<Rightarrow> 'w LinuxFirewall \<Rightarrow> 'w LinuxFirewall" where
  "fw_uninstall env s =
     (let drop_root = (\<lambda>(table, parent) s. deleteChain env Both kRootChain table (unlinkChain env Both kRootChain parent table s));
          s1 = fold drop_root [(FilterTable, kOutputChain), (RawTable, ''PREROUTING''), (NatTable, ''POSTROUTING''),
                               (MangleTable, kOutputChain)] s;
          s2 = fold (\<lambda>(ip, anchor). uninstallAnchor env ip anchor FilterTable) removed_anchors s1;
          s3 = uninstallAnchor env Both ''100.transIp'' NatTable s2;
          s4 = uninstallAnchor env Both ''100.tagPkts'' MangleTable s3;
          s5 = uninstallAnchor env Both ''100.vpnTunOnly'' RawTable s4
      in teardownTrafficSplitting env s5)"

definition fw_install :: "('w, 'e) fw_env_scheme \<Rightarrow> 'w LinuxFirewall \<Rightarrow> 'w LinuxFirewall" where
  "fw_install env s =
     (let s1 = fold (createChain env Both kRootChain) [FilterTable, RawTable, NatTable, MangleTable] (fw_uninstall env s);
          s2 = fold (\<lambda>(ip, anchor, rules). installAnchor env ip anchor rules FilterTable None None) filter_anchors s1;
          s3 = installAnchor env Both ''100.transIp'' [([], MASQUERADE)] NatTable None None s2;
          s4 = installAnchor env Both ''100.tagPkts'' [([CGroup 0x567], SetMark 0x3211)] MangleTable
                 (Some SetupSplitting) (Some TeardownSplitting) s3;
          s5 = installAnchor env Both ''100.vpnTunOnly'' [([], ACCEPT)] RawTable None None s4;
          s6 = fold (\<lambda>(table, parent). linkChain env Both kRootChain parent True table)
                 [(FilterTable, kOutputChain), (NatTable, ''POSTROUTING''), (MangleTable, kOutputChain),
                  (RawTable, ''PREROUTING'')] s5
      in setupTrafficSplitting env s6)"

definition isInstalled :: "('w, 'e) fw_env_scheme \<Rightarrow> 'w LinuxFirewall \<Rightarrow> bool \<times> 'w LinuxFirewall" where
  "isInstalled env s =
     (let (code, s1) = iptables env False FilterTable (CheckRule kOutputChain (jump_to kRootChain)) s in (code = 0, s1))"

definition enableAnchor1 ::
  "('w, 'e) fw_env_scheme \<Rightarrow> QString \<Rightarrow> fw_table \<Rightarrow> bool \<Rightarrow> 'w LinuxFirewall \<Rightarrow> 'w LinuxFirewall" where
  "enableAnchor1 env anchor table v6 s =
     (let (code, s1) = iptables env v6 table (CheckRule (anchorChain anchor) (jump_to (actualChain anchor))) s
      in if code = 0 then s1
         else snd (iptables env v6 table (AppendRule (anchorChain anchor) (jump_to (actualChain anchor))) s1))"

definition disableAnchor1 ::
  "('w, 'e) fw_env_scheme \<Rightarrow> QString \<Rightarrow> fw_table \<Rightarrow> bool \<Rightarrow> 'w LinuxFirewall \<Rightarrow> 'w LinuxFirewall" where
  "disableAnchor1 env anchor table v6 s =
     (let (code, s1) = iptables env v6 table (CheckRule (anchorChain anchor) (jump_to (actualChain anchor))) s
      in if code \<noteq> 0 then s1 else snd (iptables env v6 table (FlushChain (anchorChain anchor)) s1))"

definition enableAnchor ::
  "('w, 'e) fw_env_scheme \<Rightarrow> IPVersion \<Rightarrow> QString \<Rightarrow> fw_table \<Rightarrow> 'w LinuxFirewall \<Rightarrow> 'w LinuxFirewall" where
  "enableAnchor env ip anchor table = for_versions (enableAnchor1 env anchor table) ip"

definition disableAnchor ::
  "('w, 'e) fw_env_scheme \<Rightarrow> IPVersion \<Rightarrow> QString \<Rightarrow> fw_table \<Rightarrow> 'w LinuxFirewall \<Rightarrow> 'w LinuxFirewall" where
  "disableAnchor env ip anchor table = for_versions (disableAnchor1 env anchor table) ip"

definition replaceAnchor ::
  "('w, 'e) fw_env_scheme \<Rightarrow> IPVersion \<Rightarrow> QString \<Rightarrow> fw_rule \<Rightarrow> fw_table \<Rightarrow> 'w LinuxFirewall \<Rightarrow> 'w LinuxFirewall" where
  "replaceAnchor env ip anchor newRule table =
     for_versions (\<lambda>v6 s. snd (iptables env v6 table (ReplaceFirst (actualChain anchor) newRule) s)) ip"

text \<open>The protocol version \<open>Both\<close> is asked of iptables alone, as in the code.\<close>

definition isAnchorEnabled ::
  "('w, 'e) fw_env_scheme \<Rightarrow> IPVersion \<Rightarrow> QString \<Rightarrow> fw_table \<Rightarrow> 'w LinuxFirewall \<Rightarrow> bool \<times> 'w LinuxFirewall" where
  "isAnchorEnabled env ip anchor table s =
     (let (code, s1) = iptables env (ip = IPv6) table (CheckRule (anchorChain anchor) (jump_to (actualChain anchor))) s
      in (code = 0, s1))"

definition setAnchorEnabled ::
  "('w, 'e) fw_env_scheme \<Rightarrow> fw_table \<Rightarrow> IPVersion \<Rightarrow> QString \<Rightarrow> bool \<Rightarrow> 'w LinuxFirewall \<Rightarrow> 'w LinuxFirewall" where
  "setAnchorEnabled env table ip anchor enabled s =
     (let s1 = (if enabled then enableAnchor env ip anchor table s else disableAnchor env ip anchor table s)
      in run_callback env (map_of (anchorCallbacks s1) (enabled, table, anchor)) s1)"

section \<open>Servers and networks\<close>

definition replace_rules ::
  "('w, 'e) fw_env_scheme \<Rightarrow> QString \<Rightarrow> fw_rule list \<Rightarrow> 'w LinuxFirewall \<Rightarrow> 'w LinuxFirewall" where
  "replace_rules env anchor rules s =
     append_rules env (actualChain anchor) FilterTable False rules
       (snd (iptables env False FilterTable (FlushChain (actualChain anchor)) s))"

definition dns_rules :: "QString list \<Rightarrow> fw_rule list" where
  "dns_rules servers =
     [([OutIface iface, Dst server, Proto p, Dport 53], ACCEPT).
        server \<leftarrow> servers, iface \<leftarrow> [''amn0+'', ''tun0+'', ''tun2+''], p \<leftarrow> [''udp'', ''tcp'']]"

definition updateDNSServers :: "('w, 'e) fw_env_scheme \<Rightarrow> QString list \<Rightarrow> 'w LinuxFirewall \<Rightarrow> 'w LinuxFirewall" where
  "updateDNSServers env servers = replace_rules env ''320.allowDNS'' (dns_rules servers)"

definition updateAllowNets :: "('w, 'e) fw_env_scheme \<Rightarrow> QString list \<Rightarrow> 'w LinuxFirewall \<Rightarrow> 'w LinuxFirewall" where
  "updateAllowNets env servers = replace_rules env ''110.allowNets'' (map (\<lambda>t. ([Dst t], ACCEPT)) servers)"

definition updateBlockNets :: "('w, 'e) fw_env_scheme \<Rightarrow> QString list \<Rightarrow> 'w LinuxFirewall \<Rightarrow> 'w LinuxFirewall" where
  "updateBlockNets env servers = replace_rules env ''120.blockNets'' (map (\<lambda>t. ([Dst t], REJECT)) servers)"

end
