(* ===== verification/Packet_Filter.thy ===== *)
theory Packet_Filter
  imports Linux_Firewall
begin

text \<open>
  What the firewall of \<open>Linux_Firewall\<close> does to packets. The effect of an invocation of iptables on
  the chains of the filter table, as its manual describes it, is the hypothesis \<open>iptables_ok\<close>; a
  packet is decided by the first rule that matches, through the jumps. The lemmas reduce the
  functions of the firewall to functions on chains, and the chains to a table of anchors that
  are enabled and of their rules.
\<close>

section \<open>Chains\<close>

type_synonym fw_chains = "QString \<rightharpoonup> fw_rule list"

fun readable_match :: "(QString \<Rightarrow> bool) \<Rightarrow> rule_match \<Rightarrow> bool" where
  "readable_match rd (Dst d) = rd d"
| "readable_match rd _ = True"

definition readable_rule :: "(QString \<Rightarrow> bool) \<Rightarrow> fw_rule \<Rightarrow> bool" where
  "readable_rule rd r = list_all (readable_match rd) (fst r)"

fun target_exists :: "fw_chains \<Rightarrow> rule_target \<Rightarrow> bool" where
  "target_exists m (Jump c) = (m c \<noteq> None)"
| "target_exists m _ = True"

definition referenced :: "fw_chains \<Rightarrow> QString \<Rightarrow> bool" where
  "referenced m c = (\<exists>p rs. m p = Some rs \<and> Jump c \<in> snd ` set rs)"

definition put_rule :: "(QString \<Rightarrow> bool) \<Rightarrow> QString \<Rightarrow> fw_rule \<Rightarrow> (fw_rule list \<Rightarrow> fw_rule list) \<Rightarrow> fw_chains \<Rightarrow> bool \<times> fw_chains" where
  "put_rule rd c r f m =
     (case m c of
        None \<Rightarrow> (False, m)
      | Some rs \<Rightarrow> if readable_rule rd r \<and> target_exists m (snd r) then (True, m(c \<mapsto> f rs)) else (False, m))"

text \<open>Whether an operation succeeds on the chains of a table, and the chains after it.\<close>

fun apply_op :: "(QString \<Rightarrow> bool) \<Rightarrow> ipt_op \<Rightarrow> fw_chains \<Rightarrow> bool \<times> fw_chains" where
  "apply_op rd (NewChain c) m = (if m c = None then (True, m(c \<mapsto> [])) else (False, m))"
| "apply_op rd (FlushChain c) m = (if m c = None then (False, m) else (True, m(c \<mapsto> [])))"
| "apply_op rd (DeleteChain c) m =
     (if m c = Some [] \<and> \<not> referenced m c \<and> c \<noteq> kOutputChain then (True, m(c := None)) else (False, m))"
| "apply_op rd (ListChain c) m = (m c \<noteq> None, m)"
| "apply_op rd (CheckRule c r) m = (case m c of None \<Rightarrow> False | Some rs \<Rightarrow> r \<in> set rs, m)"
| "apply_op rd (AppendRule c r) m = put_rule rd c r (\<lambda>rs. rs @ [r]) m"
| "apply_op rd (InsertRule c r) m = put_rule rd c r (\<lambda>rs. r # rs) m"
| "apply_op rd (DeleteRule c r) m =
     (case m c of None \<Rightarrow> (False, m) | Some rs \<Rightarrow> if r \<in> set rs then (True, m(c \<mapsto> remove1 r rs)) else (False, m))"
| "apply_op rd (DeleteAt c n) m =
     (case m c of
        None \<Rightarrow> (False, m)
      | Some rs \<Rightarrow> if 1 \<le> n \<and> n \<le> length rs then (True, m(c \<mapsto> take (n - 1) rs @ drop n rs)) else (False, m))"
| "apply_op rd (ReplaceFirst c r) m =
     (if m c = Some [] then (False, m) else put_rule rd c r (\<lambda>rs. r # tl rs) m)"

fun target_name :: "rule_target \<Rightarrow> QString" where
  "target_name (Jump c) = c"
| "target_name ACCEPT = ''ACCEPT''"
| "target_name REJECT = ''REJECT''"
| "target_name MASQUERADE = ''MASQUERADE''"
| "target_name (SetMark n) = ''MARK''"

text \<open>
  The chains of the filter table, for each version of the protocol. Texts of addresses that
  iptables cannot read make a rule fail.
\<close>

definition iptables_ok ::
  "('w, 'e) fw_env_scheme \<Rightarrow> (bool \<Rightarrow> QString \<Rightarrow> bool) \<Rightarrow> ('w \<Rightarrow> bool \<Rightarrow> fw_chains) \<Rightarrow> bool" where
  "iptables_ok env rd ch =
     ((\<forall>v6 oper w.
         (fst (run_command env (Iptables v6 FilterTable oper) w) = 0) = fst (apply_op (rd v6) oper (ch w v6)) \<and>
         ch (snd (run_command env (Iptables v6 FilterTable oper) w)) =
           (ch w)(v6 := snd (apply_op (rd v6) oper (ch w v6)))) \<and>
      (\<forall>c w. (\<forall>v6 oper. c \<noteq> Iptables v6 FilterTable oper) \<longrightarrow> ch (snd (run_command env c w)) = ch w) \<and>
      (\<forall>v6 c w. listed_targets env v6 FilterTable c w =
         map (target_name \<circ> snd) (case ch w v6 c of None \<Rightarrow> [] | Some rs \<Rightarrow> rs)))"

section \<open>Packets\<close>

record 'a fw_packet =
  p_iface :: QString
  p_dst :: 'a
  p_proto :: QString
  p_sport :: nat
  p_dport :: nat
  p_mark :: nat

text \<open>A plus at the end of the name of an interface stands for any continuation.\<close>

definition iface_matches :: "QString \<Rightarrow> QString \<Rightarrow> bool" where
  "iface_matches pat i = (if pat \<noteq> [] \<and> last pat = CHR ''+'' then take (length pat - 1) i = butlast pat else i = pat)"

text \<open>The addresses that a text stands for are a parameter, none if it cannot be read.\<close>

fun match_packet :: "(QString \<Rightarrow> 'a set option) \<Rightarrow> 'a fw_packet \<Rightarrow> rule_match \<Rightarrow> bool" where
  "match_packet addr p (OutIface i) = iface_matches i (p_iface p)"
| "match_packet addr p (NotOutIface i) = (\<not> iface_matches i (p_iface p))"
| "match_packet addr p (Dst d) = (case addr d of None \<Rightarrow> False | Some A \<Rightarrow> p_dst p \<in> A)"
| "match_packet addr p (Proto t) = (p_proto p = t)"
| "match_packet addr p (Sport n) = (p_sport p = n)"
| "match_packet addr p (Dport n) = (p_dport p = n)"
| "match_packet addr p (Mark n) = (p_mark p = n)"
| "match_packet addr p (CGroup n) = False"

text \<open>The decision of a list of rules, with a bound on the nesting of jumps.\<close>

fun decide :: "nat \<Rightarrow> fw_chains \<Rightarrow> (rule_match \<Rightarrow> bool) \<Rightarrow> fw_rule list \<Rightarrow> bool option" where
  "decide 0 m g rs = None"
| "decide (Suc n) m g [] = None"
| "decide (Suc n) m g ((ms, t) # rs) =
     (if list_all g ms then
        (case t of
           ACCEPT \<Rightarrow> Some True
         | REJECT \<Rightarrow> Some False
         | Jump c \<Rightarrow> (case (case m c of None \<Rightarrow> None | Some sub \<Rightarrow> decide n m g sub) of
                        None \<Rightarrow> decide (Suc n) m g rs
                      | Some b \<Rightarrow> Some b)
         | _ \<Rightarrow> decide (Suc n) m g rs)
      else decide (Suc n) m g rs)"

section \<open>The firewall on chains\<close>

lemma iptables_chains:
  assumes "iptables_ok env rd ch"
  shows "(fst (iptables env v6 FilterTable oper s) = 0) = fst (apply_op (rd v6) oper (ch (fw_world s) v6))"
    "ch (fw_world (snd (iptables env v6 FilterTable oper s))) =
       (ch (fw_world s))(v6 := snd (apply_op (rd v6) oper (ch (fw_world s) v6)))"
  using assms by (simp_all add: iptables_ok_def iptables_def fw_execute_def case_prod_beta)

lemma other_chains:
  assumes "iptables_ok env rd ch"
  shows "(\<And>v6 oper. c \<noteq> Iptables v6 FilterTable oper) \<Longrightarrow> ch (fw_world (snd (fw_execute env c s))) = ch (fw_world s)"
    "table \<noteq> FilterTable \<Longrightarrow> ch (fw_world (snd (iptables env v6 table oper s))) = ch (fw_world s)"
  using assms by (simp_all add: iptables_ok_def iptables_def fw_execute_def case_prod_beta)

lemma listed_chains:
  "iptables_ok env rd ch \<Longrightarrow> listed_targets env v6 FilterTable c w =
     map (target_name \<circ> snd) (case ch w v6 c of None \<Rightarrow> [] | Some rs \<Rightarrow> rs)"
  by (simp add: iptables_ok_def)

definition delete_map :: "QString \<Rightarrow> fw_chains \<Rightarrow> fw_chains" where
  "delete_map c m = (if m c = None then m else snd (apply_op (\<lambda>t. True) (DeleteChain c) (m(c \<mapsto> []))))"

definition link_map :: "QString \<Rightarrow> QString \<Rightarrow> fw_chains \<Rightarrow> fw_chains" where
  "link_map c p m =
     (case m p of
        None \<Rightarrow> m
      | Some rs \<Rightarrow> if jump_to c \<in> set rs \<or> m c = None then m else m(p \<mapsto> rs @ [jump_to c]))"

definition unlink_map :: "QString \<Rightarrow> QString \<Rightarrow> fw_chains \<Rightarrow> fw_chains" where
  "unlink_map c p m =
     (case m p of None \<Rightarrow> m | Some rs \<Rightarrow> if jump_to c \<in> set rs then m(p \<mapsto> remove1 (jump_to c) rs) else m)"

definition extend_map :: "(QString \<Rightarrow> bool) \<Rightarrow> QString \<Rightarrow> fw_rule list \<Rightarrow> fw_chains \<Rightarrow> fw_chains" where
  "extend_map rd c rules m =
     (case m c of None \<Rightarrow> m | Some rs \<Rightarrow> m(c \<mapsto> rs @ filter (readable_rule rd) rules))"

lemma createChain1_chains:
  assumes "iptables_ok env rd ch"
  shows "ch (fw_world (createChain1 env c FilterTable v6 s)) = (ch (fw_world s))(v6 := (ch (fw_world s) v6)(c \<mapsto> []))"
  using iptables_chains [OF assms, of v6 "NewChain c" s]
  by (simp add: createChain1_def case_prod_beta iptables_chains [OF assms] split: if_splits)

lemma deleteChain1_chains:
  assumes "iptables_ok env rd ch"
  shows "ch (fw_world (deleteChain1 env c FilterTable v6 s)) = (ch (fw_world s))(v6 := delete_map c (ch (fw_world s) v6))"
  by (simp add: deleteChain1_def delete_map_def case_prod_beta Let_def iptables_chains [OF assms])

lemma linkChain1_chains:
  assumes "iptables_ok env rd ch"
  shows "ch (fw_world (linkChain1 env c p False FilterTable v6 s)) = (ch (fw_world s))(v6 := link_map c p (ch (fw_world s) v6))"
  by (auto simp: linkChain1_def link_map_def case_prod_beta Let_def iptables_chains [OF assms] put_rule_def
      jump_to_def readable_rule_def split: option.splits)

lemma unlinkChain1_chains:
  assumes "iptables_ok env rd ch"
  shows "ch (fw_world (unlinkChain1 env c p FilterTable v6 s)) = (ch (fw_world s))(v6 := unlink_map c p (ch (fw_world s) v6))"
  by (auto simp: unlinkChain1_def unlink_map_def case_prod_beta Let_def iptables_chains [OF assms] split: option.splits)

lemma append_rules_chains:
  assumes "iptables_ok env rd ch" "list_all (\<lambda>r. \<forall>d. snd r \<noteq> Jump d) rules"
  shows "ch (fw_world (append_rules env c FilterTable v6 rules s)) =
    (ch (fw_world s))(v6 := extend_map (rd v6) c rules (ch (fw_world s) v6))"
  using assms(2)
proof (induction rules arbitrary: s)
  case Nil
  show ?case by (auto simp: append_rules_def extend_map_def fun_eq_iff split: option.split)
next
  case (Cons r rules)
  have t: "target_exists m (snd r)" for m using Cons(2) by (cases "snd r") auto
  have e: "extend_map (rd v6) c rules (snd (apply_op (rd v6) (AppendRule c r) m)) = extend_map (rd v6) c (r # rules) m" for m
    by (cases "m c") (auto simp: extend_map_def put_rule_def t)
  have "append_rules env c FilterTable v6 (r # rules) s =
      append_rules env c FilterTable v6 rules (snd (iptables env v6 FilterTable (AppendRule c r) s))"
    by (simp add: append_rules_def)
  with Cons(1) [of "snd (iptables env v6 FilterTable (AppendRule c r) s)"] Cons(2) show ?case
    by (simp only: iptables_chains(2) [OF assms(1)] e fun_upd_same fun_upd_upd list.pred_inject simp_thms)
qed

section \<open>Versions and anchors\<close>

fun in_version :: "IPVersion \<Rightarrow> bool \<Rightarrow> bool" where
  "in_version IPv4 v6 = (\<not> v6)"
| "in_version IPv6 v6 = v6"
| "in_version Both v6 = True"

lemma for_versions_chains:
  assumes "\<And>v6 s. ch (fw_world (f v6 s)) = (ch (fw_world s))(v6 := g v6 (ch (fw_world s) v6))"
  shows "ch (fw_world (for_versions f ip s)) v6 = (if in_version ip v6 then g v6 (ch (fw_world s) v6) else ch (fw_world s) v6)"
  by (cases ip; cases v6) (simp_all add: assms)

definition install_map :: "(QString \<Rightarrow> bool) \<Rightarrow> QString \<Rightarrow> fw_rule list \<Rightarrow> fw_chains \<Rightarrow> fw_chains" where
  "install_map rd anchor rules m =
     extend_map rd (actualChain anchor) rules
       ((link_map (anchorChain anchor) kRootChain (m(anchorChain anchor \<mapsto> [])))(actualChain anchor \<mapsto> []))"

lemma register_callback_world [simp]: "fw_world (register_callback e t a f s) = fw_world s"
  by (simp add: register_callback_def split: option.split)

lemma installAnchor_chains:
  assumes "iptables_ok env rd ch" "list_all (\<lambda>r. \<forall>d. snd r \<noteq> Jump d) rules"
  shows "ch (fw_world (installAnchor env ip anchor rules FilterTable f g s)) v6 =
    (if in_version ip v6 then install_map (rd v6) anchor rules (ch (fw_world s) v6) else ch (fw_world s) v6)"
  unfolding installAnchor_def
  by (rule for_versions_chains)
    (simp add: installAnchor1_def Let_def append_rules_chains [OF assms] createChain1_chains [OF assms(1)]
      linkChain1_chains [OF assms(1)] install_map_def fun_eq_iff)

definition uninstall_map :: "QString \<Rightarrow> fw_chains \<Rightarrow> fw_chains" where
  "uninstall_map anchor m =
     delete_map (actualChain anchor) (delete_map (anchorChain anchor) (unlink_map (anchorChain anchor) kRootChain m))"

lemma uninstallAnchor_chains:
  assumes "iptables_ok env rd ch"
  shows "ch (fw_world (uninstallAnchor env ip anchor FilterTable s)) v6 =
    (if in_version ip v6 then uninstall_map anchor (ch (fw_world s) v6) else ch (fw_world s) v6)"
  unfolding uninstallAnchor_def
  by (rule for_versions_chains)
    (simp add: uninstallAnchor1_def Let_def deleteChain1_chains [OF assms] unlinkChain1_chains [OF assms] uninstall_map_def fun_eq_iff)

text \<open>The other tables do not matter.\<close>

lemma for_versions_same:
  "(\<And>v6 s. ch (fw_world (f v6 s)) = ch (fw_world s)) \<Longrightarrow> ch (fw_world (for_versions f ip s)) = ch (fw_world s)"
  by (cases ip) simp_all

lemma other_tables:
  assumes "iptables_ok env rd ch" "table \<noteq> FilterTable"
  shows "ch (fw_world (createChain1 env c table v6 s)) = ch (fw_world s)"
    "ch (fw_world (deleteChain1 env c table v6 s)) = ch (fw_world s)"
    "ch (fw_world (linkChain1 env c p b table v6 s)) = ch (fw_world s)"
    "ch (fw_world (unlinkChain1 env c p table v6 s)) = ch (fw_world s)"
    "ch (fw_world (append_rules env c table v6 rules s)) = ch (fw_world s)"
proof -
  note o = other_chains(2) [OF assms]
  show "ch (fw_world (createChain1 env c table v6 s)) = ch (fw_world s)"
    "ch (fw_world (deleteChain1 env c table v6 s)) = ch (fw_world s)"
    "ch (fw_world (unlinkChain1 env c p table v6 s)) = ch (fw_world s)"
    by (simp_all add: createChain1_def deleteChain1_def unlinkChain1_def Let_def case_prod_beta o)
  have "ch (fw_world (insert_first env c p table v6 s)) = ch (fw_world s)"
    by (simp add: insert_first_def case_prod_beta o split: option.split)
  then show "ch (fw_world (linkChain1 env c p b table v6 s)) = ch (fw_world s)"
    by (simp add: linkChain1_def case_prod_beta o split: list.split)
  show "ch (fw_world (append_rules env c table v6 rules s)) = ch (fw_world s)"
    by (induction rules arbitrary: s) (simp_all add: append_rules_def o)
qed

lemma other_table_operations:
  assumes "iptables_ok env rd ch" "table \<noteq> FilterTable"
  shows "ch (fw_world (createChain env ip c table s)) = ch (fw_world s)"
    "ch (fw_world (deleteChain env ip c table s)) = ch (fw_world s)"
    "ch (fw_world (linkChain env ip c p b table s)) = ch (fw_world s)"
    "ch (fw_world (unlinkChain env ip c p table s)) = ch (fw_world s)"
    "ch (fw_world (installAnchor env ip anchor rules table f g s)) = ch (fw_world s)"
    "ch (fw_world (uninstallAnchor env ip anchor table s)) = ch (fw_world s)"
  by (simp_all add: createChain_def deleteChain_def linkChain_def unlinkChain_def installAnchor_def uninstallAnchor_def
      installAnchor1_def uninstallAnchor1_def Let_def for_versions_same other_tables [OF assms])

lemma splitting_chains:
  assumes "iptables_ok env rd ch"
  shows "ch (fw_world (setupTrafficSplitting env s)) = ch (fw_world s)"
    "ch (fw_world (teardownTrafficSplitting env s)) = ch (fw_world s)"
    "ch (fw_world (run_callback env f s)) = ch (fw_world s)"
proof -
  show *: "ch (fw_world (setupTrafficSplitting env s)) = ch (fw_world s)"
    "ch (fw_world (teardownTrafficSplitting env s)) = ch (fw_world s)"
    by (simp_all add: setupTrafficSplitting_def teardownTrafficSplitting_def other_chains(1) [OF assms])
  show "ch (fw_world (run_callback env f s)) = ch (fw_world s)"
    by (cases "(env, f, s)" rule: run_callback.cases) (simp_all add: setupTrafficSplitting_def teardownTrafficSplitting_def other_chains(1) [OF assms])
qed

section \<open>Installation\<close>

definition good_name :: "QString \<Rightarrow> bool" where
  "good_name a = (a \<noteq> [] \<and> hd a \<in> set ''0123456789'')"

lemma chain_names [simp]:
  "anchorChain a = anchorChain b \<longleftrightarrow> a = b" "actualChain a = actualChain b \<longleftrightarrow> a = b"
  "anchorChain a \<noteq> kRootChain" "kRootChain \<noteq> anchorChain a" "anchorChain a \<noteq> kOutputChain" "kOutputChain \<noteq> anchorChain a"
  "actualChain a \<noteq> kOutputChain" "kOutputChain \<noteq> actualChain a" "kRootChain \<noteq> kOutputChain" "kOutputChain \<noteq> kRootChain"
  "good_name b \<Longrightarrow> anchorChain a \<noteq> actualChain b" "good_name b \<Longrightarrow> actualChain b \<noteq> anchorChain a"
  "good_name a \<Longrightarrow> actualChain a \<noteq> kRootChain" "good_name a \<Longrightarrow> kRootChain \<noteq> actualChain a"
  by (auto simp: anchorChain_def actualChain_def kRootChain_def kOutputChain_def good_name_def)

lemma jump_to_inject [simp]: "jump_to a = jump_to b \<longleftrightarrow> a = b" "snd (jump_to a) = Jump a" "fst (jump_to a) = []"
  by (simp_all add: jump_to_def)

lemma delete_map_other: "c' \<noteq> c \<Longrightarrow> delete_map c m c' = m c'"
  by (simp add: delete_map_def)

lemma unlink_map_other: "c' \<noteq> p \<Longrightarrow> unlink_map c p m c' = m c'"
  by (simp add: unlink_map_def split: option.split)

lemma uninstall_map_output: "uninstall_map a m kOutputChain = m kOutputChain"
  by (simp add: uninstall_map_def delete_map_other unlink_map_other)

text \<open>No rule jumps to the root chain, or at most one that does so always.\<close>

definition absent :: "fw_chains \<Rightarrow> bool" where
  "absent m = (\<exists>rs. m kOutputChain = Some rs \<and> Jump kRootChain \<notin> snd ` set rs)"

definition clean :: "fw_chains \<Rightarrow> bool" where
  "clean m = (\<exists>rs. m kOutputChain = Some rs \<and> Jump kRootChain \<notin> snd ` set (remove1 (jump_to kRootChain) rs))"

lemma absent_clean:
  assumes "absent m"
  shows "clean m"
proof -
  obtain rs where rs: "m kOutputChain = Some rs" "Jump kRootChain \<notin> snd ` set rs"
    using assms unfolding absent_def by blast
  have "snd ` set (remove1 (jump_to kRootChain) rs) \<subseteq> snd ` set rs" by (intro image_mono set_remove1_subset)
  with rs show ?thesis unfolding clean_def by blast
qed

lemma unlink_absent:
  assumes "clean m"
  shows "absent (unlink_map kRootChain kOutputChain m)"
proof -
  obtain rs where "m kOutputChain = Some rs" "Jump kRootChain \<notin> snd ` set (remove1 (jump_to kRootChain) rs)"
    using assms unfolding clean_def by blast
  then show ?thesis
    by (cases "jump_to kRootChain \<in> set rs") (simp_all add: absent_def unlink_map_def remove1_idem del: image_iff)
qed

lemma uninstallAnchors_output:
  assumes "iptables_ok env rd ch"
  shows "ch (fw_world (fold (\<lambda>(ip, anchor). uninstallAnchor env ip anchor FilterTable) l s)) v6 kOutputChain =
    ch (fw_world s) v6 kOutputChain"
proof (induction l arbitrary: s)
  case (Cons x l)
  obtain ip a where "x = (ip, a)" by (cases x)
  with Cons show ?case by (simp add: uninstallAnchor_chains [OF assms] uninstall_map_output)
qed simp

lemma uninstall_absent:
  assumes "iptables_ok env rd ch" "clean (ch (fw_world s) v6)"
  shows "absent (ch (fw_world (fw_uninstall env s)) v6)"
proof -
  note o = other_table_operations [OF assms(1)] splitting_chains [OF assms(1)]
  have u: "ch (fw_world (unlinkChain env Both kRootChain kOutputChain FilterTable s)) v6 =
      unlink_map kRootChain kOutputChain (ch (fw_world s) v6)" for s
    unfolding unlinkChain_def
    by (subst for_versions_chains [where ch = ch and g = "\<lambda>v6. unlink_map kRootChain kOutputChain"])
      (simp_all add: unlinkChain1_chains [OF assms(1)])
  have d: "ch (fw_world (deleteChain env Both kRootChain FilterTable s)) v6 kOutputChain = ch (fw_world s) v6 kOutputChain" for s
    unfolding deleteChain_def
    by (subst for_versions_chains [where ch = ch and g = "\<lambda>v6. delete_map kRootChain"])
      (simp_all add: deleteChain1_chains [OF assms(1)] delete_map_other)
  have "ch (fw_world (fw_uninstall env s)) v6 kOutputChain =
      unlink_map kRootChain kOutputChain (ch (fw_world s) v6) kOutputChain"
    by (simp add: fw_uninstall_def Let_def o uninstallAnchors_output [OF assms(1)] u d)
  then show ?thesis using unlink_absent [OF assms(2)] by (simp add: absent_def)
qed

text \<open>The anchors of a version in their order.\<close>

definition anchors_of :: "bool \<Rightarrow> (QString \<times> fw_rule list) list" where
  "anchors_of v6 = map snd (filter (\<lambda>(ip, x). in_version ip v6) filter_anchors)"

definition install_all :: "(QString \<Rightarrow> bool) \<Rightarrow> (QString \<times> fw_rule list) list \<Rightarrow> fw_chains \<Rightarrow> fw_chains" where
  "install_all rd l = fold (\<lambda>(a, rules). install_map rd a rules) l"

lemma installAnchors_chains:
  assumes "iptables_ok env rd ch" "list_all (\<lambda>(ip, a, rules). list_all (\<lambda>r. \<forall>d. snd r \<noteq> Jump d) rules) l"
  shows "ch (fw_world (fold (\<lambda>(ip, a, rules). installAnchor env ip a rules FilterTable None None) l s)) v6 =
    install_all (rd v6) (map snd (filter (\<lambda>(ip, x). in_version ip v6) l)) (ch (fw_world s) v6)"
  using assms(2)
proof (induction l arbitrary: s)
  case (Cons x l)
  obtain ip a rules where "x = (ip, a, rules)" by (cases x)
  with Cons show ?case by (simp add: installAnchor_chains [OF assms(1)] install_all_def)
qed (simp add: install_all_def)

lemma install_map_eq:
  assumes "good_name a" "m kRootChain = Some rs" "jump_to (anchorChain a) \<notin> set rs"
  shows "install_map rd a rules m = m(anchorChain a \<mapsto> [], kRootChain \<mapsto> rs @ [jump_to (anchorChain a)],
    actualChain a \<mapsto> filter (readable_rule rd) rules)"
  using assms by (simp add: install_map_def link_map_def extend_map_def)

lemma install_all_chains:
  assumes "list_all (\<lambda>(a, rules). good_name a) l" "distinct (map fst l)" "m kRootChain = Some rs"
    and "\<forall>a\<in>set (map fst l). jump_to (anchorChain a) \<notin> set rs"
  shows "install_all rd l m kRootChain = Some (rs @ map (\<lambda>(a, rules). jump_to (anchorChain a)) l) \<and>
    install_all rd l m kOutputChain = m kOutputChain \<and>
    (\<forall>(a, rules) \<in> set l. install_all rd l m (anchorChain a) = Some [] \<and>
       install_all rd l m (actualChain a) = Some (filter (readable_rule rd) rules)) \<and>
    (\<forall>a. good_name a \<longrightarrow> a \<notin> set (map fst l) \<longrightarrow>
       install_all rd l m (anchorChain a) = m (anchorChain a) \<and> install_all rd l m (actualChain a) = m (actualChain a))"
  using assms
proof (induction l arbitrary: m rs)
  case Nil
  then show ?case by (simp add: install_all_def)
next
  case (Cons x l)
  obtain a rules where x: "x = (a, rules)" by (cases x)
  have g: "good_name a" "jump_to (anchorChain a) \<notin> set rs" "a \<notin> set (map fst l)" using Cons(2,3,5) x by auto
  let ?m = "install_map rd a rules m" and ?rs = "rs @ [jump_to (anchorChain a)]"
  have m: "?m = m(anchorChain a \<mapsto> [], kRootChain \<mapsto> ?rs, actualChain a \<mapsto> filter (readable_rule rd) rules)"
    using install_map_eq [of a m rs rd rules] g(1,2) Cons(4) by simp
  have s: "install_all rd (x # l) m = install_all rd l ?m" by (simp add: install_all_def x)
  have "?m kRootChain = Some ?rs" using g(1) by (simp add: m)
  moreover have "\<forall>b\<in>set (map fst l). jump_to (anchorChain b) \<notin> set ?rs" using Cons(5) g(3) x by auto
  moreover have "list_all (\<lambda>(a, rules). good_name a) l" "distinct (map fst l)" using Cons(2,3) x by simp_all
  ultimately have IH: "install_all rd l ?m kRootChain = Some (?rs @ map (\<lambda>(a, rules). jump_to (anchorChain a)) l) \<and>
      install_all rd l ?m kOutputChain = ?m kOutputChain \<and>
      (\<forall>(a, rules) \<in> set l. install_all rd l ?m (anchorChain a) = Some [] \<and>
         install_all rd l ?m (actualChain a) = Some (filter (readable_rule rd) rules)) \<and>
      (\<forall>a. good_name a \<longrightarrow> a \<notin> set (map fst l) \<longrightarrow>
         install_all rd l ?m (anchorChain a) = ?m (anchorChain a) \<and> install_all rd l ?m (actualChain a) = ?m (actualChain a))"
    by (intro Cons(1)) simp_all
  have own_m: "?m (anchorChain a) = Some []" "?m (actualChain a) = Some (filter (readable_rule rd) rules)"
    using g(1) by (simp_all add: m)
  have own: "install_all rd l ?m (anchorChain a) = Some []" "install_all rd l ?m (actualChain a) = Some (filter (readable_rule rd) rules)"
    using IH g(1,3) own_m by metis+
  have other: "?m (anchorChain b) = m (anchorChain b)" "?m (actualChain b) = m (actualChain b)" if "good_name b" "b \<noteq> a" for b
    using that g(1) by (simp_all add: m)
  have out: "?m kOutputChain = m kOutputChain" by (simp add: m)
  show ?case
    unfolding s
  proof (intro conjI)
    show "install_all rd l ?m kRootChain = Some (rs @ map (\<lambda>(a, rules). jump_to (anchorChain a)) (x # l))"
      using conjunct1 [OF IH] by (simp add: x)
    show "install_all rd l ?m kOutputChain = m kOutputChain" using IH out by (simp only: simp_thms)
    show "\<forall>(a, rules) \<in> set (x # l). install_all rd l ?m (anchorChain a) = Some [] \<and>
        install_all rd l ?m (actualChain a) = Some (filter (readable_rule rd) rules)"
      using conjunct1 [OF conjunct2 [OF conjunct2 [OF IH]]] own
      by (simp only: x list.set ball_simps split_conv simp_thms)
    show "\<forall>b. good_name b \<longrightarrow> b \<notin> set (map fst (x # l)) \<longrightarrow>
        install_all rd l ?m (anchorChain b) = m (anchorChain b) \<and> install_all rd l ?m (actualChain b) = m (actualChain b)"
    proof (intro allI impI)
      fix b assume b: "good_name b" "b \<notin> set (map fst (x # l))"
      then have "b \<noteq> a" "b \<notin> set (map fst l)" by (simp_all add: x)
      with IH b(1) other [OF b(1)] show "install_all rd l ?m (anchorChain b) = m (anchorChain b) \<and>
          install_all rd l ?m (actualChain b) = m (actualChain b)" by (simp only: simp_thms)
    qed
  qed
qed

lemma anchors_good:
  "list_all (\<lambda>(a, rules). good_name a) (anchors_of v6)" "distinct (map fst (anchors_of v6))"
  "list_all (\<lambda>(ip, a, rules). list_all (\<lambda>r. \<forall>d. snd r \<noteq> Jump d) rules) filter_anchors"
  by (cases v6; simp add: anchors_of_def filter_anchors_def good_name_def)+

text \<open>
  The chains of a version show a table of anchors: which of them are enabled, and their rules.
\<close>

definition shown :: "bool \<Rightarrow> fw_chains \<Rightarrow> (QString \<Rightarrow> bool) \<Rightarrow> (QString \<Rightarrow> fw_rule list) \<Rightarrow> bool" where
  "shown v6 m ons rules =
     ((\<exists>rest. m kOutputChain = Some (jump_to kRootChain # rest) \<and> Jump kRootChain \<notin> snd ` set rest) \<and>
      m kRootChain = Some (map (\<lambda>(a, r). jump_to (anchorChain a)) (anchors_of v6)) \<and>
      (\<forall>a \<in> fst ` set (anchors_of v6).
         m (anchorChain a) = Some (if ons a then [jump_to (actualChain a)] else []) \<and> m (actualChain a) = Some (rules a)))"

definition fw_shown ::
  "('w \<Rightarrow> bool \<Rightarrow> fw_chains) \<Rightarrow> 'w LinuxFirewall \<Rightarrow> (bool \<Rightarrow> QString \<Rightarrow> bool) \<Rightarrow> (bool \<Rightarrow> QString \<Rightarrow> fw_rule list) \<Rightarrow> bool" where
  "fw_shown ch s ons rules = (\<forall>v6. shown v6 (ch (fw_world s) v6) (ons v6) (rules v6))"

definition base_rules :: "(bool \<Rightarrow> QString \<Rightarrow> bool) \<Rightarrow> bool \<Rightarrow> QString \<Rightarrow> fw_rule list" where
  "base_rules rd v6 a = filter (readable_rule (rd v6)) (the (map_of (anchors_of v6) a))"

lemma shown_clean: "shown v6 m ons rules \<Longrightarrow> clean m"
  by (auto simp: shown_def clean_def)

lemma target_root: "target_name t = kRootChain \<longleftrightarrow> t = Jump kRootChain"
  by (cases t) (simp_all add: kRootChain_def)

lemma later_target_none: "chain \<notin> set ts \<Longrightarrow> later_target chain n ts = None"
  by (induction chain n ts rule: later_target.induct) auto

lemma link_first_chains:
  assumes "iptables_ok env rd ch" "absent (ch (fw_world s) v6)" "ch (fw_world s) v6 kRootChain \<noteq> None"
  shows "ch (fw_world (linkChain1 env kRootChain kOutputChain True FilterTable v6 s)) =
    (ch (fw_world s))(v6 := (ch (fw_world s) v6)(kOutputChain \<mapsto> jump_to kRootChain # the (ch (fw_world s) v6 kOutputChain)))"
proof -
  obtain rs where rs: "ch (fw_world s) v6 kOutputChain = Some rs" "Jump kRootChain \<notin> snd ` set rs"
    using assms(2) unfolding absent_def by blast
  have n: "kRootChain \<notin> set (map (target_name \<circ> snd) rs)"
  proof
    assume "kRootChain \<in> set (map (target_name \<circ> snd) rs)"
    then obtain r where "r \<in> set rs" "target_name (snd r) = kRootChain" by auto
    then have "Jump kRootChain \<in> snd ` set rs" unfolding target_root by (metis imageI)
    with rs(2) show False by contradiction
  qed
  let ?s = "snd (iptables env v6 FilterTable (InsertRule kOutputChain (jump_to kRootChain)) s)"
  have i: "apply_op (rd v6) (InsertRule kOutputChain (jump_to kRootChain)) (ch (fw_world s) v6) =
      (True, (ch (fw_world s) v6)(kOutputChain \<mapsto> jump_to kRootChain # rs))"
    using assms(3) by (simp add: put_rule_def rs(1) readable_rule_def)
  have l: "later_target kRootChain 1 (listed_targets env v6 FilterTable kOutputChain (fw_world ?s)) = None"
    using later_target_none [OF n, of "Suc 1"]
    by (simp add: listed_chains [OF assms(1)] iptables_chains [OF assms(1)] i del: apply_op.simps)
  have "insert_first env kRootChain kOutputChain FilterTable v6 s = ?s"
    using iptables_chains(1) [OF assms(1), of v6 "InsertRule kOutputChain (jump_to kRootChain)" s]
    by (simp add: insert_first_def case_prod_beta i l [simplified] del: apply_op.simps)
  moreover have "linkChain1 env kRootChain kOutputChain True FilterTable v6 s =
      insert_first env kRootChain kOutputChain FilterTable v6 s"
    using n by (auto simp: linkChain1_def listed_chains [OF assms(1)] rs(1) split: list.split)
  ultimately show ?thesis by (simp add: iptables_chains [OF assms(1)] i rs(1) del: apply_op.simps)
qed

lemma link_both:
  assumes "iptables_ok env rd ch" "\<And>v6. absent (ch (fw_world s) v6)" "\<And>v6. ch (fw_world s) v6 kRootChain \<noteq> None"
  shows "ch (fw_world (linkChain env Both kRootChain kOutputChain True FilterTable s)) v6 =
    (ch (fw_world s) v6)(kOutputChain \<mapsto> jump_to kRootChain # the (ch (fw_world s) v6 kOutputChain))"
proof -
  let ?f = "linkChain1 env kRootChain kOutputChain True FilterTable"
  note f = link_first_chains [OF assms(1-3), of False]
  then have t: "ch (fw_world (?f False s)) True = ch (fw_world s) True" by simp
  have g: "ch (fw_world (?f True (?f False s))) = (ch (fw_world (?f False s)))(True :=
      (ch (fw_world s) True)(kOutputChain \<mapsto> jump_to kRootChain # the (ch (fw_world s) True kOutputChain)))"
    by (rule link_first_chains [OF assms(1), of "?f False s" True, unfolded t]) (fact assms)+
  show ?thesis unfolding linkChain_def for_versions.simps g f by (cases v6) simp_all
qed

lemma create_roots:
  assumes "iptables_ok env rd ch"
  shows "ch (fw_world (fold (createChain env Both kRootChain) [FilterTable, RawTable, NatTable, MangleTable] s)) v6 =
    (ch (fw_world s) v6)(kRootChain \<mapsto> [])"
proof -
  have "ch (fw_world (createChain env Both kRootChain FilterTable s)) v6 = (ch (fw_world s) v6)(kRootChain \<mapsto> [])"
    unfolding createChain_def
    by (subst for_versions_chains [where ch = ch and g = "\<lambda>v6 m. m(kRootChain \<mapsto> [])"])
      (simp_all add: createChain1_chains [OF assms])
  then show ?thesis by (simp add: other_table_operations [OF assms])
qed

lemma install_shown:
  assumes "iptables_ok env rd ch" "\<And>v6. clean (ch (fw_world s) v6)"
  shows "fw_shown ch (fw_install env s) (\<lambda>v6 a. False) (base_rules rd)"
proof -
  note o = other_table_operations [OF assms(1)] splitting_chains [OF assms(1)]
  define s0 where "s0 = fw_uninstall env s"
  have ab: "absent (ch (fw_world s0) v6)" for v6 unfolding s0_def by (rule uninstall_absent [OF assms])
  define s1 where "s1 = fold (createChain env Both kRootChain) [FilterTable, RawTable, NatTable, MangleTable] s0"
  define s2 where "s2 = fold (\<lambda>(ip, anchor, rules). installAnchor env ip anchor rules FilterTable None None) filter_anchors s1"
  define s5 where "s5 = installAnchor env Both ''100.vpnTunOnly'' [([], ACCEPT)] RawTable None None
    (installAnchor env Both ''100.tagPkts'' [([CGroup 0x567], SetMark 0x3211)] MangleTable (Some SetupSplitting)
      (Some TeardownSplitting) (installAnchor env Both ''100.transIp'' [([], MASQUERADE)] NatTable None None s2))"
  have c1: "ch (fw_world s1) v6 = (ch (fw_world s0) v6)(kRootChain \<mapsto> [])" for v6
    unfolding s1_def by (rule create_roots [OF assms(1)])
  have c2: "ch (fw_world s2) v6 = install_all (rd v6) (anchors_of v6) (ch (fw_world s1) v6)" for v6
    unfolding s2_def anchors_of_def by (rule installAnchors_chains [OF assms(1) anchors_good(3)])
  have c5: "ch (fw_world s5) = ch (fw_world s2)" by (simp add: s5_def o)
  have root: "ch (fw_world s1) v6 kRootChain = Some []" for v6 by (simp add: c1)
  have all: "ch (fw_world s5) v6 kRootChain = Some (map (\<lambda>(a, rules). jump_to (anchorChain a)) (anchors_of v6)) \<and>
      ch (fw_world s5) v6 kOutputChain = ch (fw_world s1) v6 kOutputChain \<and>
      (\<forall>(a, rules) \<in> set (anchors_of v6). ch (fw_world s5) v6 (anchorChain a) = Some [] \<and>
         ch (fw_world s5) v6 (actualChain a) = Some (filter (readable_rule (rd v6)) rules))" for v6
    using install_all_chains [of "anchors_of v6" "ch (fw_world s1) v6" "[]" "rd v6"] anchors_good(1,2) [of v6] root [of v6]
    by (simp only: c5 c2 list.set append_Nil empty_iff ball_triv simp_thms not_False_eq_True True_implies_equals)
      (elim conjE, assumption)
  have ab5: "absent (ch (fw_world s5) v6)" "ch (fw_world s5) v6 kRootChain \<noteq> None" for v6
    using ab [of v6] all [of v6] by (simp_all add: absent_def c1)
  have inst: "fw_install env s = setupTrafficSplitting env (linkChain env Both kRootChain ''PREROUTING'' True RawTable
      (linkChain env Both kRootChain kOutputChain True MangleTable (linkChain env Both kRootChain ''POSTROUTING'' True NatTable
      (linkChain env Both kRootChain kOutputChain True FilterTable s5))))"
    by (simp only: fw_install_def Let_def s0_def s1_def s2_def s5_def fold_simps split_conv)
  have c: "ch (fw_world (fw_install env s)) v6 = (ch (fw_world s5) v6)(kOutputChain \<mapsto>
      jump_to kRootChain # the (ch (fw_world s5) v6 kOutputChain))" for v6
    unfolding inst o(7) using link_both [OF assms(1) ab5] by (simp add: o)
  have out: "Jump kRootChain \<notin> snd ` set (the (ch (fw_world s5) v6 kOutputChain))" for v6
    using ab5(1) [of v6] by (auto simp: absent_def)
  have r: "the (map_of (anchors_of v6) a) = rs" if "(a, rs) \<in> set (anchors_of v6)" for a rs v6
    using that anchors_good(2) [of v6] by simp
  show ?thesis
    unfolding fw_shown_def shown_def c base_rules_def
  proof (intro allI conjI ballI, goal_cases)
    case (1 v6) show ?case using out [of v6] by simp
  next
    case (2 v6) show ?case using all [of v6] by simp
  next
    case (3 v6 a)
    then obtain rs where "(a, rs) \<in> set (anchors_of v6)" by auto
    with all [of v6] show ?case by auto
  next
    case (4 v6 a)
    then obtain rs where "(a, rs) \<in> set (anchors_of v6)" by auto
    with all [of v6] r [of a rs v6] show ?case by auto
  qed
qed

section \<open>Operations on installed anchors\<close>

definition disable_map :: "QString \<Rightarrow> fw_chains \<Rightarrow> fw_chains" where
  "disable_map a m =
     (case m (anchorChain a) of
        None \<Rightarrow> m
      | Some rs \<Rightarrow> if jump_to (actualChain a) \<in> set rs then m(anchorChain a \<mapsto> []) else m)"

lemma enableAnchor1_chains:
  assumes "iptables_ok env rd ch"
  shows "ch (fw_world (enableAnchor1 env a FilterTable v6 s)) =
    (ch (fw_world s))(v6 := link_map (actualChain a) (anchorChain a) (ch (fw_world s) v6))"
  by (auto simp: enableAnchor1_def link_map_def case_prod_beta Let_def iptables_chains [OF assms] put_rule_def
      jump_to_def readable_rule_def split: option.splits)

lemma disableAnchor1_chains:
  assumes "iptables_ok env rd ch"
  shows "ch (fw_world (disableAnchor1 env a FilterTable v6 s)) = (ch (fw_world s))(v6 := disable_map a (ch (fw_world s) v6))"
  by (auto simp: disableAnchor1_def disable_map_def case_prod_beta Let_def iptables_chains [OF assms] split: option.splits)

lemma setAnchorEnabled_chains:
  assumes "iptables_ok env rd ch"
  shows "ch (fw_world (setAnchorEnabled env FilterTable ip a b s)) v6 =
    (if in_version ip v6 then (if b then link_map (actualChain a) (anchorChain a) else disable_map a) (ch (fw_world s) v6)
     else ch (fw_world s) v6)"
proof (cases b)
  case True
  then show ?thesis
    using for_versions_chains [where ch = ch and f = "enableAnchor1 env a FilterTable" and
        g = "\<lambda>v6. link_map (actualChain a) (anchorChain a)", OF enableAnchor1_chains [OF assms]]
    by (simp add: setAnchorEnabled_def Let_def splitting_chains [OF assms] enableAnchor_def)
next
  case False
  then show ?thesis
    using for_versions_chains [where ch = ch and f = "disableAnchor1 env a FilterTable" and
        g = "\<lambda>v6. disable_map a", OF disableAnchor1_chains [OF assms]]
    by (simp add: setAnchorEnabled_def Let_def splitting_chains [OF assms] disableAnchor_def)
qed

lemma anchor_good: "a \<in> fst ` set (anchors_of v6) \<Longrightarrow> good_name a"
  using anchors_good(1) [of v6] by (auto simp: list_all_iff)

lemma shown_anchor:
  assumes "shown v6 m ons rules" "a \<in> fst ` set (anchors_of v6)"
  shows "m (anchorChain a) = Some (if ons a then [jump_to (actualChain a)] else [])" "m (actualChain a) = Some (rules a)"
  using assms unfolding shown_def by blast+

lemma shown_enabled:
  assumes "shown v6 m ons rules" "a \<in> fst ` set (anchors_of v6)"
  shows "shown v6 ((if b then link_map (actualChain a) (anchorChain a) else disable_map a) m) (ons(a := b)) rules"
proof -
  have g: "good_name a" "\<And>a'. a' \<in> fst ` set (anchors_of v6) \<Longrightarrow> good_name a'" using assms(2) anchor_good by blast+
  have "(if b then link_map (actualChain a) (anchorChain a) else disable_map a) m =
      m(anchorChain a \<mapsto> (if b then [jump_to (actualChain a)] else []))"
    using shown_anchor [OF assms] by (auto simp: link_map_def disable_map_def)
  moreover have "shown v6 (m(anchorChain a \<mapsto> (if b then [jump_to (actualChain a)] else []))) (ons(a := b)) rules"
    using assms(1) g by (simp add: shown_def)
  ultimately show ?thesis by simp
qed

definition set_on :: "IPVersion \<Rightarrow> QString \<Rightarrow> bool \<Rightarrow> (bool \<Rightarrow> QString \<Rightarrow> bool) \<Rightarrow> bool \<Rightarrow> QString \<Rightarrow> bool" where
  "set_on ip a b ons v6 = (if in_version ip v6 then (ons v6)(a := b) else ons v6)"

definition has_anchor :: "IPVersion \<Rightarrow> QString \<Rightarrow> bool" where
  "has_anchor ip a = ((in_version ip False \<longrightarrow> a \<in> set (map fst (anchors_of False))) \<and>
     (in_version ip True \<longrightarrow> a \<in> set (map fst (anchors_of True))))"

lemma setAnchorEnabled_shown:
  assumes "iptables_ok env rd ch" "fw_shown ch s ons rules" "has_anchor ip a"
  shows "fw_shown ch (setAnchorEnabled env FilterTable ip a b s) (set_on ip a b ons) rules"
  unfolding fw_shown_def
proof
  fix v6
  have s: "shown v6 (ch (fw_world s) v6) (ons v6) (rules v6)" using assms(2) by (simp add: fw_shown_def)
  have "in_version ip v6 \<Longrightarrow> a \<in> fst ` set (anchors_of v6)" using assms(3) by (cases v6) (simp_all add: has_anchor_def)
  then show "shown v6 (ch (fw_world (setAnchorEnabled env FilterTable ip a b s)) v6) (set_on ip a b ons v6) (rules v6)"
    using s shown_enabled [OF s, of a b] by (simp add: setAnchorEnabled_chains [OF assms(1)] set_on_def)
qed

definition set_rules ::
  "QString \<Rightarrow> fw_rule list \<Rightarrow> (bool \<Rightarrow> QString \<Rightarrow> fw_rule list) \<Rightarrow> bool \<Rightarrow> QString \<Rightarrow> fw_rule list" where
  "set_rules a rs rules v6 = (if v6 then rules v6 else (rules v6)(a := rs))"

lemma replace_rules_shown:
  assumes "iptables_ok env rd ch" "fw_shown ch s ons rules" "has_anchor IPv4 a" "list_all (\<lambda>r. \<forall>d. snd r \<noteq> Jump d) rs"
  shows "fw_shown ch (replace_rules env a rs s) ons (set_rules a (filter (readable_rule (rd False)) rs) rules)"
proof -
  have s: "shown v6 (ch (fw_world s) v6) (ons v6) (rules v6)" for v6 using assms(2) by (simp add: fw_shown_def)
  have a: "a \<in> fst ` set (anchors_of False)" using assms(3) by (simp add: has_anchor_def)
  have g: "good_name a" "\<And>a' v6. a' \<in> fst ` set (anchors_of v6) \<Longrightarrow> good_name a'" using a anchor_good by blast+
  have "ch (fw_world (replace_rules env a rs s)) =
      (ch (fw_world s))(False := (ch (fw_world s) False)(actualChain a \<mapsto> filter (readable_rule (rd False)) rs))"
    using shown_anchor(2) [OF s a]
    by (simp add: replace_rules_def append_rules_chains [OF assms(1,4)] iptables_chains [OF assms(1)] extend_map_def)
  moreover have "shown False ((ch (fw_world s) False)(actualChain a \<mapsto> filter (readable_rule (rd False)) rs)) (ons False)
      ((rules False)(a := filter (readable_rule (rd False)) rs))"
    using s [of False] g by (simp add: shown_def)
  ultimately show ?thesis using s by (simp add: fw_shown_def set_rules_def)
qed

lemma isInstalled_chains:
  assumes "iptables_ok env rd ch"
  shows "ch (fw_world (snd (isInstalled env s))) = ch (fw_world s)"
    "fw_shown ch s ons rules \<Longrightarrow> fst (isInstalled env s)"
    "absent (ch (fw_world s) False) \<Longrightarrow> \<not> fst (isInstalled env s)"
proof -
  have f: "fst (isInstalled env s) = (case ch (fw_world s) False kOutputChain of None \<Rightarrow> False | Some rs \<Rightarrow> jump_to kRootChain \<in> set rs)"
    by (simp add: isInstalled_def case_prod_beta iptables_chains [OF assms])
  show "ch (fw_world (snd (isInstalled env s))) = ch (fw_world s)"
    by (simp add: isInstalled_def case_prod_beta iptables_chains [OF assms])
  have "shown False m o' r' \<Longrightarrow> \<exists>rest. m kOutputChain = Some (jump_to kRootChain # rest)" for m o' r'
    unfolding shown_def by blast
  then show "fw_shown ch s ons rules \<Longrightarrow> fst (isInstalled env s)"
    unfolding f fw_shown_def by fastforce
  assume "absent (ch (fw_world s) False)"
  then obtain rs where "ch (fw_world s) False kOutputChain = Some rs" "Jump kRootChain \<notin> snd ` set rs"
    unfolding absent_def by blast
  then show "\<not> fst (isInstalled env s)" by (auto simp: f jump_to_def intro: rev_image_eqI)
qed

section \<open>Decisions\<close>

fun first_match :: "(rule_match \<Rightarrow> bool) \<Rightarrow> fw_rule list \<Rightarrow> bool option" where
  "first_match g [] = None"
| "first_match g ((ms, t) # rs) =
     (if list_all g ms \<and> t = ACCEPT then Some True else if list_all g ms \<and> t = REJECT then Some False
      else first_match g rs)"

lemma decide_plain: "list_all (\<lambda>r. \<forall>d. snd r \<noteq> Jump d) rs \<Longrightarrow> decide (Suc n) m g rs = first_match g rs"
  by (induction g rs rule: first_match.induct) (auto split: rule_target.split)

text \<open>Rules that iptables did not take match nothing.\<close>

lemma first_match_readable:
  assumes "\<And>d. \<not> rd d \<Longrightarrow> \<not> g (Dst d)"
  shows "first_match g (filter (readable_rule rd) rs) = first_match g rs"
proof -
  have "list_all g ms \<Longrightarrow> readable_rule rd (ms, t)" for ms t
  proof -
    have "g x \<Longrightarrow> readable_match rd x" for x using assms by (cases x) auto
    then show "list_all g ms \<Longrightarrow> readable_rule rd (ms, t)" by (simp add: readable_rule_def list_all_iff)
  qed
  then show ?thesis by (induction g rs rule: first_match.induct) auto
qed

fun anchors_verdict ::
  "(rule_match \<Rightarrow> bool) \<Rightarrow> (QString \<Rightarrow> bool) \<Rightarrow> (QString \<Rightarrow> fw_rule list) \<Rightarrow> QString list \<Rightarrow> bool option" where
  "anchors_verdict g ons rules [] = None"
| "anchors_verdict g ons rules (a # l) =
     (case (if ons a then first_match g (rules a) else None) of
        None \<Rightarrow> anchors_verdict g ons rules l
      | Some b \<Rightarrow> Some b)"

lemma decide_anchors:
  assumes "\<forall>a \<in> set l. m (anchorChain a) = Some (if ons a then [jump_to (actualChain a)] else []) \<and>
      m (actualChain a) = Some (rules a) \<and> list_all (\<lambda>r. \<forall>d. snd r \<noteq> Jump d) (rules a)"
  shows "decide (Suc (Suc (Suc n))) m g (map (\<lambda>a. jump_to (anchorChain a)) l) = anchors_verdict g ons rules l"
  using assms
proof (induction l)
  case (Cons a l)
  have d: "decide (Suc (Suc n)) m g (if ons a then [jump_to (actualChain a)] else []) =
      (if ons a then first_match g (rules a) else None)"
    using Cons(2) by (auto simp: jump_to_def decide_plain split: option.split)
  have IH: "decide (Suc (Suc (Suc n))) m g (map (\<lambda>a. jump_to (anchorChain a)) l) = anchors_verdict g ons rules l"
    by (rule Cons(1)) (use Cons(2) in simp)
  have m: "m (anchorChain a) = Some (if ons a then [jump_to (actualChain a)] else [])" using Cons(2) by simp
  show ?case
    using m d IH by (cases "ons a") (simp_all add: jump_to_def [of "anchorChain a"] split: option.split)
qed simp

text \<open>What happens to a packet that is sent.\<close>

definition output_decision :: "nat \<Rightarrow> fw_chains \<Rightarrow> (rule_match \<Rightarrow> bool) \<Rightarrow> bool option" where
  "output_decision n m g = decide n m g (case m kOutputChain of None \<Rightarrow> [] | Some rs \<Rightarrow> rs)"

definition plain_anchors :: "bool \<Rightarrow> (QString \<Rightarrow> fw_rule list) \<Rightarrow> bool" where
  "plain_anchors v6 rules = list_all (\<lambda>a. list_all (\<lambda>r. \<forall>d. snd r \<noteq> Jump d) (rules a)) (map fst (anchors_of v6))"

lemma shown_decides:
  assumes "shown v6 m ons rules" "plain_anchors v6 rules" "4 \<le> n"
    and "anchors_verdict g ons rules (map fst (anchors_of v6)) = Some b"
  shows "output_decision n m g = Some b"
proof -
  obtain k where n: "n = Suc (Suc (Suc (Suc k)))" using assms(3) by (intro that [of "n - 4"]) simp
  have r: "m kRootChain = Some (map (\<lambda>a. jump_to (anchorChain a)) (map fst (anchors_of v6)))"
    using assms(1) by (simp add: shown_def case_prod_beta comp_def)
  obtain rest where o: "m kOutputChain = Some (jump_to kRootChain # rest)" using assms(1) unfolding shown_def by blast
  have a: "\<forall>a \<in> set (map fst (anchors_of v6)). m (anchorChain a) = Some (if ons a then [jump_to (actualChain a)] else []) \<and>
      m (actualChain a) = Some (rules a) \<and> list_all (\<lambda>r. \<forall>d. snd r \<noteq> Jump d) (rules a)"
    using assms(1,2) by (auto simp: shown_def plain_anchors_def list_all_iff)
  have "decide (Suc (Suc (Suc k))) m g (map (\<lambda>a. jump_to (anchorChain a)) (map fst (anchors_of v6))) = Some b"
    using decide_anchors [OF a, of k g] assms(4) by simp
  with r o show ?thesis by (simp add: output_decision_def n jump_to_def [of kRootChain])
qed

lemma base_plain: "plain_anchors v6 (base_rules rd v6)"
proof -
  have "list_all (\<lambda>(a, rs). list_all (\<lambda>r. \<forall>d. snd r \<noteq> Jump d) rs) (anchors_of v6)"
    using anchors_good(3) by (fastforce simp: anchors_of_def list_all_iff)
  then show ?thesis
    using anchors_good(2) [of v6]
    by (fastforce simp: plain_anchors_def base_rules_def list_all_iff)
qed

lemma set_rules_plain:
  "plain_anchors v6 (rules v6) \<Longrightarrow> list_all (\<lambda>r. \<forall>d. snd r \<noteq> Jump d) rs \<Longrightarrow> plain_anchors v6 (set_rules a (filter P rs) rules v6)"
  by (auto simp: plain_anchors_def set_rules_def list_all_iff)

end
