(* ===== verification/Kill_Switch.thy ===== *)
theory Kill_Switch
  imports Packet_Filter Split_Tunneling Local_Socket
begin

text \<open>
  The kill switch of the service on Linux, \<^verbatim>\<open>service/server/killswitch.cpp\<close>, and the part of
  \<^verbatim>\<open>client/platforms/linux/daemon/wireguardutilslinux.cpp\<close> that sets the same firewall for a WireGuard
  tunnel. The static objects of the service, its settings and its firewall, are one state.
\<close>

section \<open>Checks of addresses\<close>

definition digits_upto :: "nat \<Rightarrow> QString \<Rightarrow> bool" where
  "digits_upto n p = (p \<noteq> [] \<and> length p \<le> n \<and> list_all isDigit p)"

definition dotted :: "QString \<Rightarrow> bool" where
  "dotted a = (let ps = split_str ''.'' a in length ps = 4 \<and> list_all (digits_upto 3) ps)"

text \<open>The end of a regular expression also matches before a line break at the end of the text.\<close>

definition ip_pattern :: "QString \<Rightarrow> bool" where
  "ip_pattern v =
     (case split_str ''/'' (if v \<noteq> [] \<and> last v = CHR 0x0A then butlast v else v) of
        [a] \<Rightarrow> dotted a
      | [a, m] \<Rightarrow> dotted a \<and> digits_upto 2 m
      | _ \<Rightarrow> False)"

definition toInt_upto :: "int \<Rightarrow> QString \<Rightarrow> bool" where
  "toInt_upto n t = (case toInt t of None \<Rightarrow> False | Some i \<Rightarrow> 0 \<le> i \<and> i \<le> n)"

definition isValidIpOrCidr :: "QString \<Rightarrow> bool" where
  "isValidIpOrCidr v =
     (ip_pattern v \<and> list_all (toInt_upto 255) (split_str ''.'' (hd (split_str ''/'' v))) \<and>
      (CHR ''/'' \<in> set v \<longrightarrow> toInt_upto 32 (split_str ''/'' v ! 1)))"

section \<open>The kill switch\<close>

record 'w KillSwitch =
  ks_settings :: SecureQSettings
  m_allowedRanges :: "QString list"
  ks_firewall :: "'w LinuxFirewall"

definition with_firewall :: "('w LinuxFirewall \<Rightarrow> 'w LinuxFirewall) \<Rightarrow> 'w KillSwitch \<Rightarrow> 'w KillSwitch" where
  "with_firewall f s = s\<lparr>ks_firewall := f (ks_firewall s)\<rparr>"

definition set_anchors ::
  "('w, 'e) fw_env_scheme \<Rightarrow> (IPVersion \<times> QString \<times> bool) list \<Rightarrow> 'w LinuxFirewall \<Rightarrow> 'w LinuxFirewall" where
  "set_anchors env = fold (\<lambda>(ip, anchor, enabled). setAnchorEnabled env FilterTable ip anchor enabled)"

definition ensure_installed :: "('w, 'e) fw_env_scheme \<Rightarrow> 'w LinuxFirewall \<Rightarrow> 'w LinuxFirewall" where
  "ensure_installed env f = (let (there, f1) = isInstalled env f in if there then f1 else fw_install env f1)"

definition ks_isStrict :: "'e settings_env_scheme \<Rightarrow> 'w KillSwitch \<Rightarrow> bool \<times> 'w KillSwitch" where
  "ks_isStrict senv s =
     (let (v, st) = settings_value senv ''Conf/strictKillSwitchEnabled'' (VBool False) (ks_settings s)
      in (variant_toBool v, s\<lparr>ks_settings := st\<rparr>))"

definition strict_anchors :: "(IPVersion \<times> QString \<times> bool) list" where
  "strict_anchors =
     [(Both, ''000.allowLoopback'', True), (Both, ''100.blockAll'', True), (IPv4, ''110.allowNets'', False),
      (IPv4, ''120.blockNets'', False), (Both, ''130.allowMarkedXray'', False), (IPv4, ''200.allowVPN'', False),
      (IPv6, ''250.blockIPv6'', True), (Both, ''290.allowDHCP'', False), (Both, ''300.allowLAN'', False),
      (IPv4, ''310.blockDNS'', False), (IPv4, ''320.allowDNS'', False), (Both, ''400.allowPIA'', False)]"

definition open_anchors :: "(IPVersion \<times> QString \<times> bool) list" where
  "open_anchors =
     [(Both, ''000.allowLoopback'', True), (Both, ''100.blockAll'', False), (IPv4, ''110.allowNets'', False),
      (IPv4, ''120.blockNets'', False), (Both, ''130.allowMarkedXray'', False), (IPv4, ''200.allowVPN'', False),
      (IPv6, ''250.blockIPv6'', False), (Both, ''290.allowDHCP'', True), (Both, ''300.allowLAN'', True),
      (IPv4, ''310.blockDNS'', False), (IPv4, ''320.allowDNS'', True), (Both, ''400.allowPIA'', False)]"

definition disableKillSwitch ::
  "'e settings_env_scheme \<Rightarrow> ('w, 'f) fw_env_scheme \<Rightarrow> 'w KillSwitch \<Rightarrow> bool \<times> 'w KillSwitch" where
  "disableKillSwitch senv env s =
     (let (strict, s1) = ks_isStrict senv s;
          s2 = (if strict then with_firewall (set_anchors env strict_anchors) s1
                else with_firewall (fw_uninstall env \<circ> set_anchors env open_anchors) s1)
      in (True, s2\<lparr>m_allowedRanges := []\<rparr>))"

definition disableAllTraffic :: "('w, 'f) fw_env_scheme \<Rightarrow> 'w KillSwitch \<Rightarrow> bool \<times> 'w KillSwitch" where
  "disableAllTraffic env s =
     (True, (with_firewall (set_anchors env
        [(Both, ''100.blockAll'', True), (Both, ''130.allowMarkedXray'', False), (Both, ''000.allowLoopback'', True),
         (IPv6, ''250.blockIPv6'', True)] \<circ> ensure_installed env) s)\<lparr>m_allowedRanges := []\<rparr>)"

definition ks_init ::
  "'e settings_env_scheme \<Rightarrow> ('w, 'f) fw_env_scheme \<Rightarrow> SecureQSettings \<Rightarrow> 'w KillSwitch \<Rightarrow> bool \<times> 'w KillSwitch" where
  "ks_init senv env settings s =
     (let (strict, s1) = ks_isStrict senv (s\<lparr>ks_settings := settings\<rparr>)
      in if strict then disableAllTraffic env s1 else (True, s1))"

definition ks_refresh ::
  "'e settings_env_scheme \<Rightarrow> ('w, 'f) fw_env_scheme \<Rightarrow> bool \<Rightarrow> 'w KillSwitch \<Rightarrow> bool \<times> 'w KillSwitch" where
  "ks_refresh senv env enabled s =
     (let s1 = s\<lparr>ks_settings := setValue senv ''Conf/strictKillSwitchEnabled'' (VBool enabled) (ks_settings s)\<rparr>;
          (strict, s2) = ks_isStrict senv s1
      in if strict then disableAllTraffic env s2 else disableKillSwitch senv env s2)"

definition resetAllowedRange ::
  "('w, 'f) fw_env_scheme \<Rightarrow> QString list \<Rightarrow> 'w KillSwitch \<Rightarrow> bool \<times> 'w KillSwitch" where
  "resetAllowedRange env ranges s =
     (if \<not> list_all isValidIpOrCidr ranges then (False, s)
      else (True, with_firewall (updateAllowNets env ranges \<circ> setAnchorEnabled env FilterTable IPv4 ''110.allowNets'' True)
                    (s\<lparr>m_allowedRanges := ranges\<rparr>)))"

fun add_ranges :: "QString list \<Rightarrow> QString list \<Rightarrow> QString list" where
  "add_ranges [] known = known"
| "add_ranges (r # rs) known = add_ranges rs (if r \<noteq> '''' \<and> r \<notin> set known then known @ [r] else known)"

definition addAllowedRange ::
  "('w, 'f) fw_env_scheme \<Rightarrow> QString list \<Rightarrow> 'w KillSwitch \<Rightarrow> bool \<times> 'w KillSwitch" where
  "addAllowedRange env ranges s =
     (if \<not> list_all isValidIpOrCidr ranges then (False, s)
      else let known = add_ranges ranges (m_allowedRanges s)
           in resetAllowedRange env known (s\<lparr>m_allowedRanges := known\<rparr>))"

text \<open>Outside Windows nothing is to be done for a peer.\<close>

definition enablePeerTraffic :: "QJsonObject \<Rightarrow> 'w KillSwitch \<Rightarrow> bool \<times> 'w KillSwitch" where
  "enablePeerTraffic cfg s = (True, s)"

section \<open>Enabling the firewall\<close>

text \<open>The fields of \<^verbatim>\<open>linuxfirewall.h\<close> that are read; the others are never set.\<close>

record FirewallParams =
  dnsServers :: "QString list"
  allowAddrs :: "QString list"
  blockAddrs :: "QString list"
  blockAll :: bool
  allowNets :: bool
  blockNets :: bool

definition allowed_dns :: "QJsonObject \<Rightarrow> QString list" where
  "allowed_dns cfg =
     filter isValidIpOrCidr (map json_toString (takeWhile isString (json_toArray (obj_value cfg ''allowedDnsServers''))))"

definition nonempty :: "QString \<Rightarrow> QString list" where
  "nonempty t = (if t = '''' then [] else [t])"

text \<open>What a configuration asks for, or nothing if it is refused.\<close>

definition kill_params :: "QJsonObject \<Rightarrow> FirewallParams option" where
  "kill_params cfg =
     (let typ = json_toInt 0 (obj_value cfg ''splitTunnelType'');
          sites = map json_toString (json_toArray (obj_value cfg ''splitTunnelSites''));
          server = json_toString (obj_value cfg ''vpnServer'');
          dns1 = json_toString (obj_value cfg ''dns1'');
          dns2 = (if sublist amneziaDnsIp dns1 then '''' else json_toString (obj_value cfg ''dns2''));
          allownets = (if typ = 0 then [server] else if typ = 2 then server # sites else []);
          blocknets = (if typ = 1 then sites else [])
      in if dns1 \<noteq> '''' \<and> \<not> isValidIpOrCidr dns1 \<or> dns2 \<noteq> '''' \<and> \<not> isValidIpOrCidr dns2 then None
         else if \<not> list_all isValidIpOrCidr allownets \<or> \<not> list_all isValidIpOrCidr blocknets then None
         else Some \<lparr>dnsServers = nonempty dns1 @ nonempty dns2 @ [''127.0.0.1'', ''127.0.0.53''] @ allowed_dns cfg,
                    allowAddrs = allownets, blockAddrs = blocknets,
                    blockAll = typ = 0 \<or> typ = 2, allowNets = typ = 0 \<or> typ = 2, blockNets = typ = 1\<rparr>)"

definition set_nets :: "('w, 'f) fw_env_scheme \<Rightarrow> FirewallParams \<Rightarrow> 'w LinuxFirewall \<Rightarrow> 'w LinuxFirewall" where
  "set_nets env params f =
     (let f1 = set_anchors env [(Both, ''000.allowLoopback'', True), (Both, ''100.blockAll'', blockAll params),
                                (IPv4, ''110.allowNets'', allowNets params)] f;
          f2 = updateAllowNets env (allowAddrs params) f1;
          f3 = setAnchorEnabled env FilterTable IPv4 ''120.blockNets'' (blockNets params) f2
      in updateBlockNets env (blockAddrs params) f3)"

definition set_dns :: "('w, 'f) fw_env_scheme \<Rightarrow> FirewallParams \<Rightarrow> 'w LinuxFirewall \<Rightarrow> 'w LinuxFirewall" where
  "set_dns env params f =
     (let f1 = set_anchors env [(IPv4, ''200.allowVPN'', True), (IPv6, ''250.blockIPv6'', True),
                 (Both, ''290.allowDHCP'', True), (Both, ''300.allowLAN'', True), (IPv4, ''310.blockDNS'', True)] f
      in set_anchors env [(IPv4, ''320.allowDNS'', True), (Both, ''400.allowPIA'', True)]
           (updateDNSServers env (dnsServers params) f1))"

definition enableKillSwitch ::
  "('w, 'f) fw_env_scheme \<Rightarrow> QJsonObject \<Rightarrow> 'w KillSwitch \<Rightarrow> bool \<times> 'w KillSwitch" where
  "enableKillSwitch env cfg s =
     (case kill_params cfg of
        None \<Rightarrow> (False, s)
      | Some params \<Rightarrow>
          (True, with_firewall (\<lambda>f.
             set_dns env params (setAnchorEnabled env FilterTable Both ''130.allowMarkedXray'' True
               (set_nets env params (ensure_installed env f)))) s))"

text \<open>The firewall of a WireGuard tunnel.\<close>

definition tunnel_params :: "'e config_env_scheme \<Rightarrow> InterfaceConfig \<Rightarrow> FirewallParams" where
  "tunnel_params cenv config =
     (let everything = IPAddress_of cenv ''0.0.0.0/0'' \<in> set (m_allowedIPAddressRanges config)
      in \<lparr>dnsServers = m_primaryDnsServer config # nonempty (m_secondaryDnsServer config),
          allowAddrs = (if everything then m_excludedAddresses config else []),
          blockAddrs = (if everything then [] else map (IPAddress_toString cenv) (m_allowedIPAddressRanges config)),
          blockAll = everything, allowNets = everything \<and> m_excludedAddresses config \<noteq> [], blockNets = \<not> everything\<rparr>)"

definition applyFirewallRules :: "('w, 'f) fw_env_scheme \<Rightarrow> FirewallParams \<Rightarrow> 'w LinuxFirewall \<Rightarrow> 'w LinuxFirewall" where
  "applyFirewallRules env params f =
     set_dns env params (set_nets env params (ensureRootAnchorPriority env Both (ensure_installed env f)))"

definition tunnel_firewall ::
  "('w, 'f) fw_env_scheme \<Rightarrow> 'e config_env_scheme \<Rightarrow> InterfaceConfig \<Rightarrow> 'w LinuxFirewall \<Rightarrow> 'w LinuxFirewall" where
  "tunnel_firewall env cenv config f =
     (if m_killSwitchEnabled config then applyFirewallRules env (tunnel_params cenv config) f else f)"

end
