(* ===== verification/Kill_Switch_Facts.thy ===== *)
theory Kill_Switch_Facts
  imports Kill_Switch
begin

text \<open>
  What the kill switch lets through. The decisions on packets are compared with one specification,
  \<open>kill_verdict\<close>, in the terms of the user: loopback, tunnel, resolvers, local networks, allowed and
  blocked networks.
\<close>

section \<open>The table of anchors\<close>

text \<open>
  The states of the firewall between two requests: it is not linked, or it shows a table whose
  fixed rules are those of the installation.
\<close>

definition standard :: "(bool \<Rightarrow> QString \<Rightarrow> bool) \<Rightarrow> (bool \<Rightarrow> QString \<Rightarrow> bool) \<Rightarrow> (bool \<Rightarrow> QString \<Rightarrow> fw_rule list) \<Rightarrow> bool" where
  "standard rd ons rules =
     (\<not> ons True ''310.blockDNS'' \<and> (\<forall>v6. plain_anchors v6 (rules v6)) \<and>
      (\<forall>v6 a. a \<notin> {''110.allowNets'', ''120.blockNets'', ''320.allowDNS''} \<longrightarrow> rules v6 a = base_rules rd v6 a))"

definition linked :: "(bool \<Rightarrow> QString \<Rightarrow> bool) \<Rightarrow> ('w \<Rightarrow> bool \<Rightarrow> fw_chains) \<Rightarrow> 'w LinuxFirewall \<Rightarrow> bool" where
  "linked rd ch f = (\<exists>ons rules. fw_shown ch f ons rules \<and> standard rd ons rules)"

definition tidy :: "(bool \<Rightarrow> QString \<Rightarrow> bool) \<Rightarrow> ('w \<Rightarrow> bool \<Rightarrow> fw_chains) \<Rightarrow> 'w LinuxFirewall \<Rightarrow> bool" where
  "tidy rd ch f = ((\<forall>v6. absent (ch (fw_world f) v6)) \<or> linked rd ch f)"

lemma linkedI: "fw_shown ch f ons rules \<Longrightarrow> standard rd ons rules \<Longrightarrow> linked rd ch f"
  unfolding linked_def by blast

lemma tidy_clean: "tidy rd ch f \<Longrightarrow> clean (ch (fw_world f) v6)"
  unfolding tidy_def linked_def fw_shown_def using absent_clean shown_clean by blast

lemma standard_installed: "standard rd (\<lambda>v6 a. False) (base_rules rd)"
  by (simp add: standard_def base_plain)

lemma ensure_installed_linked:
  assumes "iptables_ok env rd ch" "tidy rd ch f"
  shows "linked rd ch (ensure_installed env f)"
proof -
  note i = isInstalled_chains [OF assms(1), of f]
  show ?thesis
  proof (cases "fst (isInstalled env f)")
    case True
    then have "linked rd ch f" using assms(2) i(3) unfolding tidy_def by blast
    with True show ?thesis by (simp add: ensure_installed_def case_prod_beta linked_def fw_shown_def i(1))
  next
    case False
    have "fw_shown ch (fw_install env (snd (isInstalled env f))) (\<lambda>v6 a. False) (base_rules rd)"
      by (rule install_shown [OF assms(1)]) (simp add: i(1) tidy_clean [OF assms(2)])
    from linkedI [OF this standard_installed] False show ?thesis
      by (simp add: ensure_installed_def case_prod_beta)
  qed
qed

definition set_all_on :: "(IPVersion \<times> QString \<times> bool) list \<Rightarrow> (bool \<Rightarrow> QString \<Rightarrow> bool) \<Rightarrow> bool \<Rightarrow> QString \<Rightarrow> bool" where
  "set_all_on l = fold (\<lambda>(ip, a, b). set_on ip a b) l"

lemma set_anchors_shown:
  assumes "iptables_ok env rd ch" "fw_shown ch f ons rules" "list_all (\<lambda>(ip, a, b). has_anchor ip a) l"
  shows "fw_shown ch (set_anchors env l f) (set_all_on l ons) rules"
  using assms(2,3)
proof (induction l arbitrary: f ons)
  case (Cons x l)
  obtain ip a b where x: "x = (ip, a, b)" by (cases x)
  have "fw_shown ch (setAnchorEnabled env FilterTable ip a b f) (set_on ip a b ons) rules"
    by (rule setAnchorEnabled_shown [OF assms(1) Cons(2)]) (use Cons(3) x in simp)
  from Cons(1) [OF this] Cons(3) x show ?case by (simp add: set_anchors_def set_all_on_def)
qed (simp add: set_anchors_def set_all_on_def)

lemma anchor_names:
  "map fst (anchors_of False) = [''000.allowLoopback'', ''320.allowDNS'', ''310.blockDNS'', ''300.allowLAN'', ''290.allowDHCP'',
     ''200.allowVPN'', ''130.allowMarkedXray'', ''120.blockNets'', ''110.allowNets'', ''400.allowPIA'', ''100.blockAll'']"
  "map fst (anchors_of True) = [''000.allowLoopback'', ''310.blockDNS'', ''300.allowLAN'', ''290.allowDHCP'', ''250.blockIPv6'',
     ''200.allowVPN'', ''130.allowMarkedXray'', ''400.allowPIA'', ''100.blockAll'']"
  by (simp_all add: anchors_of_def filter_anchors_def)

lemma has_anchors:
  "has_anchor Both a \<longleftrightarrow> a \<in> set (map fst (anchors_of False)) \<and> a \<in> set (map fst (anchors_of True))"
  "has_anchor IPv4 a \<longleftrightarrow> a \<in> set (map fst (anchors_of False))"
  "has_anchor IPv6 a \<longleftrightarrow> a \<in> set (map fst (anchors_of True))"
  by (simp_all add: has_anchor_def)

lemma updates_shown:
  assumes "iptables_ok env rd ch" "fw_shown ch f ons rules"
  shows "fw_shown ch (updateAllowNets env nets f) ons
      (set_rules ''110.allowNets'' (filter (readable_rule (rd False)) (map (\<lambda>t. ([Dst t], ACCEPT)) nets)) rules)"
    "fw_shown ch (updateBlockNets env nets f) ons
      (set_rules ''120.blockNets'' (filter (readable_rule (rd False)) (map (\<lambda>t. ([Dst t], REJECT)) nets)) rules)"
    "fw_shown ch (updateDNSServers env nets f) ons
      (set_rules ''320.allowDNS'' (filter (readable_rule (rd False)) (dns_rules nets)) rules)"
  unfolding updateAllowNets_def updateBlockNets_def updateDNSServers_def
  by (rule replace_rules_shown [OF assms]; simp add: has_anchors anchor_names list_all_iff dns_rules_def)+

lemma standard_rules:
  assumes "standard rd ons rules" "a \<in> {''110.allowNets'', ''120.blockNets'', ''320.allowDNS''}" "list_all (\<lambda>r. \<forall>d. snd r \<noteq> Jump d) rs"
  shows "standard rd ons (set_rules a (filter P rs) rules)"
  using assms by (auto simp: standard_def set_rules_plain [OF _ assms(3)]) (auto simp: set_rules_def)

section \<open>Specification\<close>

definition reaches :: "(QString \<Rightarrow> 'a set option) \<Rightarrow> 'a fw_packet \<Rightarrow> QString \<Rightarrow> bool" where
  "reaches addr p d = (case addr d of None \<Rightarrow> False | Some A \<Rightarrow> p_dst p \<in> A)"

definition on_loopback :: "'a fw_packet \<Rightarrow> bool" where
  "on_loopback p = iface_matches ''lo+'' (p_iface p)"

definition on_vpn :: "'a fw_packet \<Rightarrow> bool" where
  "on_vpn p = (iface_matches ''amn0+'' (p_iface p) \<or> iface_matches ''tun0+'' (p_iface p) \<or> iface_matches ''tun2+'' (p_iface p))"

definition is_dns :: "'a fw_packet \<Rightarrow> bool" where
  "is_dns p = (p_dport p = 53 \<and> (p_proto p = ''udp'' \<or> p_proto p = ''tcp''))"

definition to_lan :: "bool \<Rightarrow> (QString \<Rightarrow> 'a set option) \<Rightarrow> 'a fw_packet \<Rightarrow> bool" where
  "to_lan v6 addr p =
     list_ex (reaches addr p) (if v6 then [''fc00::/7'', ''fe80::/10'', ''ff00::/8'']
       else [''10.0.0.0/8'', ''169.254.0.0/16'', ''172.16.0.0/12'', ''192.168.0.0/16'', ''224.0.0.0/4'', ''255.255.255.255/32''])"

definition is_dhcp :: "bool \<Rightarrow> (QString \<Rightarrow> 'a set option) \<Rightarrow> 'a fw_packet \<Rightarrow> bool" where
  "is_dhcp v6 addr p =
     (p_proto p = ''udp'' \<and>
      (if v6 then reaches addr p ''ff00::/8'' \<and> p_sport p = 546 \<and> p_dport p = 547
       else reaches addr p ''255.255.255.255'' \<and> p_sport p = 68 \<and> p_dport p = 67))"

text \<open>
  The decision on a packet, if the anchors make one. The last flag says whether traffic with the
  mark of the Xray process is let through.
\<close>

definition kill_verdict :: "FirewallParams \<Rightarrow> bool \<Rightarrow> (QString \<Rightarrow> 'a set option) \<Rightarrow> bool \<Rightarrow> 'a fw_packet \<Rightarrow> bool option" where
  "kill_verdict params v6 addr xray p =
     (if on_loopback p then Some True
      else if \<not> v6 \<and> is_dns p then Some (on_vpn p \<and> list_ex (reaches addr p) (dnsServers params))
      else if to_lan v6 addr p \<or> is_dhcp v6 addr p then Some True
      else if v6 then Some False
      else if on_vpn p \<or> xray \<and> p_mark p = 0x82 then Some True
      else if blockNets params \<and> list_ex (reaches addr p) (blockAddrs params) then Some False
      else if allowNets params \<and> list_ex (reaches addr p) (allowAddrs params) then Some True
      else if blockAll params then Some False
      else None)"

lemma match_reaches: "match_packet addr p (Dst d) = reaches addr p d"
  by (simp add: reaches_def)

lemma first_match_nets:
  "first_match g (map (\<lambda>t. ([Dst t], ACCEPT)) l) = (if list_ex (\<lambda>t. g (Dst t)) l then Some True else None)"
  "first_match g (map (\<lambda>t. ([Dst t], REJECT)) l) = (if list_ex (\<lambda>t. g (Dst t)) l then Some False else None)"
  by (induction l) auto

lemma first_match_append: "first_match g (rs @ rs') = (case first_match g rs of None \<Rightarrow> first_match g rs' | Some b \<Rightarrow> Some b)"
  by (induction g rs rule: first_match.induct) auto

lemma first_match_dns:
  "first_match (match_packet addr p) (dns_rules servers) =
     (if is_dns p \<and> on_vpn p \<and> list_ex (reaches addr p) servers then Some True else None)"
proof (induction servers)
  case (Cons d servers)
  have "dns_rules (d # servers) = dns_rules [d] @ dns_rules servers" by (simp add: dns_rules_def)
  moreover have "first_match (match_packet addr p) (dns_rules [d]) =
      (if is_dns p \<and> on_vpn p \<and> reaches addr p d then Some True else None)"
    unfolding is_dns_def on_vpn_def by (cases "reaches addr p d") (auto simp: dns_rules_def reaches_def)
  ultimately show ?case using Cons by (simp add: first_match_append)
qed (simp add: dns_rules_def)

text \<open>The rules of each fixed anchor.\<close>

lemma first_match_base:
  assumes "\<And>d. \<not> rd v6 d \<Longrightarrow> addr d = None"
  shows "first_match (match_packet addr p) (base_rules rd v6 a) =
    first_match (match_packet addr p) (the (map_of (anchors_of v6) a))"
  unfolding base_rules_def by (rule first_match_readable) (simp add: assms)

lemma anchors_v4:
  fixes addr p defines "fm \<equiv> \<lambda>a. first_match (match_packet addr p) (the (map_of (anchors_of False) a))"
  shows "fm ''000.allowLoopback'' = (if on_loopback p then Some True else None)"
    "fm ''310.blockDNS'' = (if is_dns p then Some False else None)"
    "fm ''300.allowLAN'' = (if to_lan False addr p then Some True else None)"
    "fm ''290.allowDHCP'' = (if is_dhcp False addr p then Some True else None)"
    "fm ''200.allowVPN'' = (if on_vpn p then Some True else None)"
    "fm ''130.allowMarkedXray'' = (if p_mark p = 0x82 then Some True else None)"
    "fm ''400.allowPIA'' = None" "fm ''100.blockAll'' = Some False"
  by (simp_all add: fm_def anchors_of_def filter_anchors_def on_loopback_def is_dns_def to_lan_def reaches_def is_dhcp_def on_vpn_def)

lemma anchors_v6:
  fixes addr p defines "fm \<equiv> \<lambda>a. first_match (match_packet addr p) (the (map_of (anchors_of True) a))"
  shows "fm ''000.allowLoopback'' = (if on_loopback p then Some True else None)"
    "fm ''300.allowLAN'' = (if to_lan True addr p then Some True else None)"
    "fm ''290.allowDHCP'' = (if is_dhcp True addr p then Some True else None)"
    "fm ''250.blockIPv6'' = (if on_loopback p then None else Some False)"
    "fm ''100.blockAll'' = Some False"
  by (simp_all add: fm_def anchors_of_def filter_anchors_def on_loopback_def to_lan_def reaches_def is_dhcp_def)

section \<open>The configured firewall\<close>

definition nets_on :: "FirewallParams \<Rightarrow> (bool \<Rightarrow> QString \<Rightarrow> bool) \<Rightarrow> bool \<Rightarrow> QString \<Rightarrow> bool" where
  "nets_on params = set_all_on [(Both, ''000.allowLoopback'', True), (Both, ''100.blockAll'', blockAll params),
     (IPv4, ''110.allowNets'', allowNets params), (IPv4, ''120.blockNets'', blockNets params)]"

definition dns_on :: "(bool \<Rightarrow> QString \<Rightarrow> bool) \<Rightarrow> bool \<Rightarrow> QString \<Rightarrow> bool" where
  "dns_on = set_all_on [(IPv4, ''200.allowVPN'', True), (IPv6, ''250.blockIPv6'', True), (Both, ''290.allowDHCP'', True),
     (Both, ''300.allowLAN'', True), (IPv4, ''310.blockDNS'', True), (IPv4, ''320.allowDNS'', True), (Both, ''400.allowPIA'', True)]"

definition nets_rules ::
  "(bool \<Rightarrow> QString \<Rightarrow> bool) \<Rightarrow> FirewallParams \<Rightarrow> (bool \<Rightarrow> QString \<Rightarrow> fw_rule list) \<Rightarrow> bool \<Rightarrow> QString \<Rightarrow> fw_rule list" where
  "nets_rules rd params rules =
     set_rules ''120.blockNets'' (filter (readable_rule (rd False)) (map (\<lambda>t. ([Dst t], REJECT)) (blockAddrs params)))
       (set_rules ''110.allowNets'' (filter (readable_rule (rd False)) (map (\<lambda>t. ([Dst t], ACCEPT)) (allowAddrs params))) rules)"

definition dns_table ::
  "(bool \<Rightarrow> QString \<Rightarrow> bool) \<Rightarrow> FirewallParams \<Rightarrow> (bool \<Rightarrow> QString \<Rightarrow> fw_rule list) \<Rightarrow> bool \<Rightarrow> QString \<Rightarrow> fw_rule list" where
  "dns_table rd params = set_rules ''320.allowDNS'' (filter (readable_rule (rd False)) (dns_rules (dnsServers params)))"

lemma set_nets_shown:
  assumes "iptables_ok env rd ch" "fw_shown ch f ons rules"
  shows "fw_shown ch (set_nets env params f) (nets_on params ons) (nets_rules rd params rules)"
proof -
  let ?l = "[(Both, ''000.allowLoopback'', True), (Both, ''100.blockAll'', blockAll params), (IPv4, ''110.allowNets'', allowNets params)]"
  have "list_all (\<lambda>(ip, a, b). has_anchor ip a) ?l" by (simp add: has_anchors anchor_names)
  note f1 = set_anchors_shown [OF assms this]
  note f2 = updates_shown(1) [OF assms(1) f1, of "allowAddrs params"]
  have h: "has_anchor IPv4 ''120.blockNets''" by (simp add: has_anchors anchor_names)
  note f3 = setAnchorEnabled_shown [OF assms(1) f2 h, of "blockNets params"]
  note f4 = updates_shown(2) [OF assms(1) f3, of "blockAddrs params"]
  have "set_on IPv4 ''120.blockNets'' (blockNets params) (set_all_on ?l ons) = nets_on params ons"
    by (simp add: nets_on_def set_all_on_def)
  with f4 show ?thesis by (simp add: set_nets_def Let_def nets_rules_def)
qed

lemma set_dns_shown:
  assumes "iptables_ok env rd ch" "fw_shown ch f ons rules"
  shows "fw_shown ch (set_dns env params f) (dns_on ons) (dns_table rd params rules)"
proof -
  let ?l1 = "[(IPv4, ''200.allowVPN'', True), (IPv6, ''250.blockIPv6'', True), (Both, ''290.allowDHCP'', True),
     (Both, ''300.allowLAN'', True), (IPv4, ''310.blockDNS'', True)]" and ?l2 = "[(IPv4, ''320.allowDNS'', True), (Both, ''400.allowPIA'', True)]"
  have l: "list_all (\<lambda>(ip, a, b). has_anchor ip a) ?l1" "list_all (\<lambda>(ip, a, b). has_anchor ip a) ?l2"
    by (simp_all add: has_anchors anchor_names)
  note f1 = set_anchors_shown [OF assms l(1)]
  note f2 = updates_shown(3) [OF assms(1) f1, of "dnsServers params"]
  note f3 = set_anchors_shown [OF assms(1) f2 l(2)]
  have "set_all_on ?l2 (set_all_on ?l1 ons) = dns_on ons" by (simp add: dns_on_def set_all_on_def)
  with f3 show ?thesis by (simp add: set_dns_def Let_def dns_table_def)
qed

lemma nets_standard:
  "standard rd ons rules \<Longrightarrow> standard rd (nets_on params ons) (nets_rules rd params rules)"
  unfolding nets_rules_def
  by (intro standard_rules) (simp_all add: list_all_iff, simp add: standard_def nets_on_def set_all_on_def set_on_def)

lemma dns_standard:
  "standard rd ons rules \<Longrightarrow> standard rd (dns_on ons) (dns_table rd params rules)"
  unfolding dns_table_def
  by (intro standard_rules) (simp_all add: list_all_iff dns_rules_def, simp add: standard_def dns_on_def set_all_on_def set_on_def)

lemma configured_verdict:
  assumes "standard rd ons rules" "\<And>v6 d. rd v6 d \<longleftrightarrow> addr v6 d \<noteq> None"
  shows "anchors_verdict (match_packet (addr v6) p) (dns_on (nets_on params ons) v6) (dns_table rd params (nets_rules rd params rules) v6)
      (map fst (anchors_of v6)) = kill_verdict params v6 (addr v6) (ons v6 ''130.allowMarkedXray'') p"
proof (cases v6)
  case False
  let ?g = "match_packet (addr False) p" and ?r = "dns_table rd params (nets_rules rd params rules) False"
  have b: "a \<notin> {''110.allowNets'', ''120.blockNets'', ''320.allowDNS''} \<Longrightarrow>
      first_match ?g (?r a) = first_match ?g (the (map_of (anchors_of False) a))" for a
    using assms(1) first_match_base [of rd False "addr False" p a] assms(2)
    by (simp add: dns_table_def nets_rules_def set_rules_def standard_def)
  have fr: "first_match ?g (filter (readable_rule (rd False)) rs) = first_match ?g rs" for rs
    by (rule first_match_readable) (simp add: assms(2))
  have n: "first_match ?g (?r ''320.allowDNS'') =
        (if is_dns p \<and> on_vpn p \<and> list_ex (reaches (addr False) p) (dnsServers params) then Some True else None)"
      "first_match ?g (?r ''110.allowNets'') = (if list_ex (reaches (addr False) p) (allowAddrs params) then Some True else None)"
      "first_match ?g (?r ''120.blockNets'') = (if list_ex (reaches (addr False) p) (blockAddrs params) then Some False else None)"
    by (simp_all add: dns_table_def nets_rules_def set_rules_def fr first_match_dns first_match_nets
        match_reaches del: match_packet.simps)
  have o: "dns_on (nets_on params ons) False a = (if a = ''100.blockAll'' then blockAll params
      else if a = ''110.allowNets'' then allowNets params else if a = ''120.blockNets'' then blockNets params
      else if a = ''130.allowMarkedXray'' then ons False a else True)" if "a \<in> set (map fst (anchors_of False))" for a
    using that by (auto simp: anchor_names dns_on_def nets_on_def set_all_on_def set_on_def)
  show ?thesis
    using False by (simp add: anchor_names o b n anchors_v4 kill_verdict_def)
next
  case True
  let ?g = "match_packet (addr True) p" and ?r = "dns_table rd params (nets_rules rd params rules) True"
  have b: "a \<notin> {''110.allowNets'', ''120.blockNets'', ''320.allowDNS''} \<Longrightarrow>
      first_match ?g (?r a) = first_match ?g (the (map_of (anchors_of True) a))" for a
    using assms(1) first_match_base [of rd True "addr True" p a] assms(2)
    by (simp add: dns_table_def nets_rules_def set_rules_def standard_def)
  have o: "dns_on (nets_on params ons) True ''000.allowLoopback''" "\<not> dns_on (nets_on params ons) True ''310.blockDNS''"
    "dns_on (nets_on params ons) True ''300.allowLAN''" "dns_on (nets_on params ons) True ''290.allowDHCP''"
    "dns_on (nets_on params ons) True ''250.blockIPv6''"
    using assms(1) by (simp_all add: standard_def dns_on_def nets_on_def set_all_on_def set_on_def)
  show ?thesis
    using True by (simp add: anchor_names o b anchors_v6 kill_verdict_def)
qed

definition reads :: "(bool \<Rightarrow> QString \<Rightarrow> 'a set option) \<Rightarrow> bool \<Rightarrow> QString \<Rightarrow> bool" where
  "reads addr v6 d = (addr v6 d \<noteq> None)"

lemma configured_decision:
  assumes "iptables_ok env (reads addr) ch" "fw_shown ch f ons rules" "standard (reads addr) ons rules" "4 \<le> n"
    and "kill_verdict params v6 (addr v6) (ons v6 ''130.allowMarkedXray'') p = Some b"
  shows "output_decision n (ch (fw_world (set_dns env params (set_nets env params f))) v6) (match_packet (addr v6) p) = Some b"
proof -
  have "fw_shown ch (set_dns env params (set_nets env params f)) (dns_on (nets_on params ons))
      (dns_table (reads addr) params (nets_rules (reads addr) params rules))"
    by (rule set_dns_shown [OF assms(1) set_nets_shown [OF assms(1,2)]])
  moreover have "plain_anchors v6 (dns_table (reads addr) params (nets_rules (reads addr) params rules) v6)"
    using dns_standard [OF nets_standard [OF assms(3)]] by (simp add: standard_def)
  ultimately show ?thesis
    using configured_verdict [OF assms(3), of addr v6 p params] assms(5)
    by (intro shown_decides [OF _ _ assms(4)]) (simp_all add: fw_shown_def reads_def)
qed

lemma nets_on_xray: "nets_on params (set_on Both ''130.allowMarkedXray'' True ons) = set_on Both ''130.allowMarkedXray'' True (nets_on params ons)"
  by (simp add: nets_on_def set_all_on_def set_on_def fun_eq_iff)

lemma xray_standard: "standard rd ons rules \<Longrightarrow> standard rd (set_on ip ''130.allowMarkedXray'' b ons) rules"
  by (simp add: standard_def set_on_def)

text \<open>The table after the kill switch was enabled.\<close>

lemma enable_shown:
  assumes "iptables_ok env rd ch" "tidy rd ch f"
  shows "\<exists>ons rules. standard rd ons rules \<and> ons v6 ''130.allowMarkedXray'' \<and>
    fw_shown ch (set_dns env params (setAnchorEnabled env FilterTable Both ''130.allowMarkedXray'' True
      (set_nets env params (ensure_installed env f)))) (dns_on (nets_on params ons)) (dns_table rd params (nets_rules rd params rules))"
proof -
  obtain ons rules where f: "fw_shown ch (ensure_installed env f) ons rules" "standard rd ons rules"
    using ensure_installed_linked [OF assms] unfolding linked_def by blast
  have "has_anchor Both ''130.allowMarkedXray''" by (simp add: has_anchors anchor_names)
  note x = setAnchorEnabled_shown [OF assms(1) set_nets_shown [OF assms(1) f(1), of params] this, of True]
  note d = set_dns_shown [OF assms(1) x, of params, folded nets_on_xray]
  have "set_on Both ''130.allowMarkedXray'' True ons v6 ''130.allowMarkedXray''" by (simp add: set_on_def)
  with d xray_standard [OF f(2), of Both True] show ?thesis by blast
qed

lemma enable_linked:
  assumes "iptables_ok env rd ch" "tidy rd ch f"
  shows "linked rd ch (set_dns env params (setAnchorEnabled env FilterTable Both ''130.allowMarkedXray'' True
      (set_nets env params (ensure_installed env f))))"
  using enable_shown [OF assms] dns_standard [OF nets_standard] linkedI by metis

section \<open>Requests\<close>

lemma link_map_output: "p \<noteq> kOutputChain \<Longrightarrow> link_map c p m kOutputChain = m kOutputChain"
  by (simp add: link_map_def split: option.split)

lemma disable_map_output: "disable_map a m kOutputChain = m kOutputChain"
  by (simp add: disable_map_def split: option.split)

lemma extend_map_output: "c \<noteq> kOutputChain \<Longrightarrow> extend_map rd c rs m kOutputChain = m kOutputChain"
  by (simp add: extend_map_def split: option.split)

text \<open>Anchors and their rules do not concern the output chain.\<close>

lemma output_unchanged:
  assumes "iptables_ok env rd ch"
  shows "ch (fw_world (setAnchorEnabled env FilterTable ip a b f)) v6 kOutputChain = ch (fw_world f) v6 kOutputChain"
    "ch (fw_world (set_anchors env l f)) v6 kOutputChain = ch (fw_world f) v6 kOutputChain"
    "list_all (\<lambda>r. \<forall>d. snd r \<noteq> Jump d) rs \<Longrightarrow>
       ch (fw_world (replace_rules env a rs f)) v6 kOutputChain = ch (fw_world f) v6 kOutputChain"
proof -
  show s: "ch (fw_world (setAnchorEnabled env FilterTable ip a b f)) v6 kOutputChain = ch (fw_world f) v6 kOutputChain" for ip a b f
    by (simp add: setAnchorEnabled_chains [OF assms] link_map_output disable_map_output)
  show "ch (fw_world (set_anchors env l f)) v6 kOutputChain = ch (fw_world f) v6 kOutputChain"
    by (induction l arbitrary: f) (auto simp: set_anchors_def s)
  show "list_all (\<lambda>r. \<forall>d. snd r \<noteq> Jump d) rs \<Longrightarrow>
       ch (fw_world (replace_rules env a rs f)) v6 kOutputChain = ch (fw_world f) v6 kOutputChain"
    by (simp add: replace_rules_def append_rules_chains [OF assms] iptables_chains [OF assms] extend_map_output)
qed

lemma set_all_on_dns: "list_all (\<lambda>(ip, a, b). ip = IPv4 \<or> a \<noteq> ''310.blockDNS'') l \<Longrightarrow> \<not> ons True ''310.blockDNS'' \<Longrightarrow>
    \<not> set_all_on l ons True ''310.blockDNS''"
proof (induction l arbitrary: ons)
  case (Cons x l)
  obtain ip a b where x: "x = (ip, a, b)" by (cases x)
  have "\<not> set_on ip a b ons True ''310.blockDNS''" using Cons(2,3) x by (cases ip) (auto simp: set_on_def)
  with Cons(1) [of "set_on ip a b ons"] Cons(2) x show ?case by (simp add: set_all_on_def)
qed (simp add: set_all_on_def)

definition plain_requests :: "(IPVersion \<times> QString \<times> bool) list \<Rightarrow> bool" where
  "plain_requests l = list_all (\<lambda>(ip, a, b). has_anchor ip a \<and> (ip = IPv4 \<or> a \<noteq> ''310.blockDNS'')) l"

lemma set_anchors_standard:
  assumes "iptables_ok env rd ch" "fw_shown ch f ons rules" "standard rd ons rules" "plain_requests l"
  shows "fw_shown ch (set_anchors env l f) (set_all_on l ons) rules" "standard rd (set_all_on l ons) rules"
proof -
  have l: "list_all (\<lambda>(ip, a, b). has_anchor ip a) l" "list_all (\<lambda>(ip, a, b). ip = IPv4 \<or> a \<noteq> ''310.blockDNS'') l"
    using assms(4) by (auto simp: plain_requests_def list_all_iff)
  show "fw_shown ch (set_anchors env l f) (set_all_on l ons) rules" by (rule set_anchors_shown [OF assms(1,2) l(1)])
  show "standard rd (set_all_on l ons) rules" using assms(3) set_all_on_dns [OF l(2)] by (simp add: standard_def)
qed

lemma set_anchors_linked:
  "iptables_ok env rd ch \<Longrightarrow> linked rd ch f \<Longrightarrow> plain_requests l \<Longrightarrow> linked rd ch (set_anchors env l f)"
  unfolding linked_def using set_anchors_standard by blast

lemma updateAllowNets_linked:
  assumes "iptables_ok env rd ch" "linked rd ch f"
  shows "linked rd ch (updateAllowNets env nets f)"
proof -
  obtain ons rules where f: "fw_shown ch f ons rules" "standard rd ons rules" using assms(2) unfolding linked_def by blast
  have "standard rd ons (set_rules ''110.allowNets'' (filter (readable_rule (rd False)) (map (\<lambda>t. ([Dst t], ACCEPT)) nets)) rules)"
    by (rule standard_rules [OF f(2)]) (simp_all add: list_all_iff)
  then show ?thesis by (rule linkedI [OF updates_shown(1) [OF assms(1) f(1)]])
qed

lemma requests_tidy:
  assumes "iptables_ok env rd ch" "tidy rd ch f"
  shows "plain_requests l \<Longrightarrow> tidy rd ch (set_anchors env l f)" "tidy rd ch (updateAllowNets env nets f)"
  using assms set_anchors_linked [OF assms(1)] updateAllowNets_linked [OF assms(1)]
  by (auto simp: tidy_def absent_def output_unchanged(2) [OF assms(1)] updateAllowNets_def output_unchanged(3) [OF assms(1)] list_all_iff)

lemma plain_lists:
  "plain_requests strict_anchors" "plain_requests open_anchors"
  "plain_requests [(Both, ''100.blockAll'', True), (Both, ''130.allowMarkedXray'', False), (Both, ''000.allowLoopback'', True),
     (IPv6, ''250.blockIPv6'', True)]"
  "plain_requests [(IPv4, ''110.allowNets'', True)]"
  by (simp_all add: plain_requests_def strict_anchors_def open_anchors_def has_anchors anchor_names)

section \<open>The service\<close>

definition strict_pref :: "SecureQSettings \<Rightarrow> bool" where
  "strict_pref st = (case plain_value st ''Conf/strictKillSwitchEnabled'' of None \<Rightarrow> False | Some v \<Rightarrow> variant_toBool v)"

text \<open>
  The service between two requests: its firewall is tidy, and it is linked whenever the strict
  kill switch is set.
\<close>

definition guarded :: "(bool \<Rightarrow> QString \<Rightarrow> bool) \<Rightarrow> ('w \<Rightarrow> bool \<Rightarrow> fw_chains) \<Rightarrow> 'w KillSwitch \<Rightarrow> bool" where
  "guarded rd ch s =
     (plain_ok (ks_settings s) \<and> tidy rd ch (ks_firewall s) \<and> (strict_pref (ks_settings s) \<longrightarrow> linked rd ch (ks_firewall s)))"

lemma ks_isStrict_facts:
  assumes "plain_ok (ks_settings s)"
  shows "fst (ks_isStrict senv s) = strict_pref (ks_settings s)" "plain_ok (ks_settings (snd (ks_isStrict senv s)))"
    "strict_pref (ks_settings (snd (ks_isStrict senv s))) = strict_pref (ks_settings s)"
    "ks_firewall (snd (ks_isStrict senv s)) = ks_firewall s" "m_allowedRanges (snd (ks_isStrict senv s)) = m_allowedRanges s"
proof -
  have k: "plain_key ''Conf/strictKillSwitchEnabled''" by simp
  show "fst (ks_isStrict senv s) = strict_pref (ks_settings s)" "plain_ok (ks_settings (snd (ks_isStrict senv s)))"
    "strict_pref (ks_settings (snd (ks_isStrict senv s))) = strict_pref (ks_settings s)"
    "ks_firewall (snd (ks_isStrict senv s)) = ks_firewall s" "m_allowedRanges (snd (ks_isStrict senv s)) = m_allowedRanges s"
    using prefs.get_stored [OF assms k, of senv "VBool False"] prefs.get_ok [OF assms k, of senv "VBool False"]
      prefs.get_keeps [OF assms k k, of senv "VBool False"]
    by (simp_all add: ks_isStrict_def case_prod_beta strict_pref_def split: option.split)
qed

lemma linked_tidy: "linked rd ch f \<Longrightarrow> tidy rd ch f"
  by (simp add: tidy_def)

lemma disableAllTraffic_linked:
  assumes "iptables_ok env rd ch" "tidy rd ch (ks_firewall s)"
  shows "linked rd ch (ks_firewall (snd (disableAllTraffic env s)))"
    "ks_settings (snd (disableAllTraffic env s)) = ks_settings s"
  using set_anchors_linked [OF assms(1) ensure_installed_linked [OF assms] plain_lists(3)]
  by (simp_all add: disableAllTraffic_def with_firewall_def)

lemma disableKillSwitch_guarded:
  assumes "iptables_ok env rd ch" "guarded rd ch s"
  shows "guarded rd ch (snd (disableKillSwitch senv env s))"
proof -
  have ok: "plain_ok (ks_settings s)" and t: "tidy rd ch (ks_firewall s)" using assms(2) by (simp_all add: guarded_def)
  note k = ks_isStrict_facts [OF ok, of senv]
  have u: "absent (ch (fw_world (fw_uninstall env (set_anchors env open_anchors (ks_firewall s)))) v6)" for v6
    by (rule uninstall_absent [OF assms(1)]) (rule tidy_clean [OF requests_tidy(1) [OF assms(1) t plain_lists(2)]])
  have l: "linked rd ch (set_anchors env strict_anchors (ks_firewall s))" if "strict_pref (ks_settings s)"
    using set_anchors_linked [OF assms(1) _ plain_lists(1)] assms(2) that by (simp add: guarded_def)
  show ?thesis
  proof (cases "strict_pref (ks_settings s)")
    case True
    with l k show ?thesis
      by (simp add: disableKillSwitch_def case_prod_beta Let_def guarded_def with_firewall_def linked_tidy)
  next
    case False
    with u k show ?thesis
      by (simp add: disableKillSwitch_def case_prod_beta Let_def guarded_def with_firewall_def tidy_def)
  qed
qed

lemma resetAllowedRange_guarded:
  assumes "iptables_ok env rd ch" "guarded rd ch s"
  shows "guarded rd ch (snd (resetAllowedRange env ranges s))"
proof -
  let ?f = "set_anchors env [(IPv4, ''110.allowNets'', True)] (ks_firewall s)"
  have f: "?f = setAnchorEnabled env FilterTable IPv4 ''110.allowNets'' True (ks_firewall s)" by (simp add: set_anchors_def)
  have t: "tidy rd ch (ks_firewall s)" using assms(2) by (simp add: guarded_def)
  have "tidy rd ch (updateAllowNets env ranges ?f)"
    by (rule requests_tidy(2) [OF assms(1) requests_tidy(1) [OF assms(1) t plain_lists(4)]])
  moreover have "linked rd ch (ks_firewall s) \<Longrightarrow> linked rd ch (updateAllowNets env ranges ?f)"
    by (rule updateAllowNets_linked [OF assms(1) set_anchors_linked [OF assms(1) _ plain_lists(4)]])
  ultimately show ?thesis
    using assms(2) by (simp add: resetAllowedRange_def with_firewall_def guarded_def f)
qed

lemma guarded_ranges [simp]: "guarded rd ch (s\<lparr>m_allowedRanges := l\<rparr>) = guarded rd ch s"
  by (simp add: guarded_def)

lemma priority_shown:
  assumes "iptables_ok env rd ch" "fw_shown ch f ons rules"
  shows "fw_shown ch (ensureRootAnchorPriority env Both f) ons rules"
proof -
  have l: "linkChain1 env kRootChain kOutputChain True FilterTable v6 f = f" for v6
  proof -
    obtain rest where "ch (fw_world f) v6 kOutputChain = Some (jump_to kRootChain # rest)"
      using assms(2) unfolding fw_shown_def shown_def by blast
    then show ?thesis by (simp add: linkChain1_def listed_chains [OF assms(1)])
  qed
  then show ?thesis using assms(2) by (simp add: ensureRootAnchorPriority_def linkChain_def)
qed

lemma tunnel_linked:
  assumes "iptables_ok env rd ch" "tidy rd ch f"
  shows "linked rd ch (applyFirewallRules env params f)"
proof -
  obtain ons rules where f: "fw_shown ch (ensure_installed env f) ons rules" "standard rd ons rules"
    using ensure_installed_linked [OF assms] unfolding linked_def by blast
  show ?thesis
    unfolding applyFirewallRules_def
    by (rule linkedI [OF set_dns_shown [OF assms(1) set_nets_shown [OF assms(1) priority_shown [OF assms(1) f(1)]]]
          dns_standard [OF nets_standard [OF f(2)]]])
qed

inductive ks_reachable ::
  "'e settings_env_scheme \<Rightarrow> ('w, 'f) fw_env_scheme \<Rightarrow> ('w \<Rightarrow> bool \<Rightarrow> fw_chains) \<Rightarrow> 'w KillSwitch \<Rightarrow> bool"
  for senv env ch where
  start: "plain_ok settings \<Longrightarrow> (\<And>v6. absent (ch (fw_world (ks_firewall s)) v6)) \<Longrightarrow>
    ks_reachable senv env ch (snd (ks_init senv env settings s))"
| refreshed: "ks_reachable senv env ch s \<Longrightarrow> ks_reachable senv env ch (snd (ks_refresh senv env b s))"
| disabled: "ks_reachable senv env ch s \<Longrightarrow> ks_reachable senv env ch (snd (disableKillSwitch senv env s))"
| stopped: "ks_reachable senv env ch s \<Longrightarrow> ks_reachable senv env ch (snd (disableAllTraffic env s))"
| ranges: "ks_reachable senv env ch s \<Longrightarrow> ks_reachable senv env ch (snd (resetAllowedRange env l s))"
| more_ranges: "ks_reachable senv env ch s \<Longrightarrow> ks_reachable senv env ch (snd (addAllowedRange env l s))"
| enabled: "ks_reachable senv env ch s \<Longrightarrow> ks_reachable senv env ch (snd (enableKillSwitch env cfg s))"
| tunnel: "ks_reachable senv env ch s \<Longrightarrow> ks_reachable senv env ch (with_firewall (applyFirewallRules env params) s)"

lemma set_strict:
  assumes "plain_ok st"
  shows "plain_ok (setValue senv ''Conf/strictKillSwitchEnabled'' (VBool b) st)"
    "strict_pref (setValue senv ''Conf/strictKillSwitchEnabled'' (VBool b) st) = b"
  using assms by (simp_all add: prefs.put_plain_ok prefs.put_stored strict_pref_def)

lemma reachable_guarded:
  assumes "iptables_ok env rd ch"
  shows "ks_reachable senv env ch s \<Longrightarrow> guarded rd ch s"
proof (induction rule: ks_reachable.induct)
  case (start settings s)
  let ?s = "snd (ks_isStrict senv (s\<lparr>ks_settings := settings\<rparr>))"
  note k = ks_isStrict_facts [of "s\<lparr>ks_settings := settings\<rparr>" senv]
  have t: "tidy rd ch (ks_firewall ?s)" using start k(4) by (simp add: tidy_def)
  show ?case
    using start k t disableAllTraffic_linked [OF assms t]
    by (simp add: ks_init_def case_prod_beta guarded_def linked_tidy)
next
  case (refreshed s b)
  let ?s1 = "s\<lparr>ks_settings := setValue senv ''Conf/strictKillSwitchEnabled'' (VBool b) (ks_settings s)\<rparr>"
  let ?s = "snd (ks_isStrict senv ?s1)"
  have ok: "plain_ok (ks_settings ?s1)" using refreshed.IH by (simp add: guarded_def set_strict)
  note k = ks_isStrict_facts [OF ok, of senv]
  have p: "strict_pref (ks_settings ?s1) = b" using refreshed.IH by (simp add: guarded_def set_strict)
  have t: "tidy rd ch (ks_firewall ?s)" using refreshed.IH k(4) by (simp add: guarded_def)
  have g: "\<not> b \<Longrightarrow> guarded rd ch ?s" using k p t by (simp add: guarded_def)
  have d: "b \<Longrightarrow> guarded rd ch (snd (disableAllTraffic env ?s))"
    using disableAllTraffic_linked [OF assms t] k(2) by (simp add: guarded_def linked_tidy)
  have "ks_refresh senv env b s = (if b then disableAllTraffic env ?s else disableKillSwitch senv env ?s)"
    using k(1) p by (simp add: ks_refresh_def case_prod_beta Let_def)
  with d disableKillSwitch_guarded [OF assms g, of senv] show ?case by simp
next
  case (stopped s)
  then show ?case using disableAllTraffic_linked [OF assms, of s] by (simp add: guarded_def linked_tidy)
next
  case (more_ranges s l)
  then show ?case
    using resetAllowedRange_guarded [OF assms, of "s\<lparr>m_allowedRanges := add_ranges l (m_allowedRanges s)\<rparr>"]
    by (simp add: addAllowedRange_def Let_def)
next
  case (enabled s cfg)
  then show ?case
    using enable_linked [OF assms, of "ks_firewall s"]
    by (simp add: enableKillSwitch_def guarded_def with_firewall_def linked_tidy split: option.split)
next
  case (tunnel s params)
  then show ?case
    using tunnel_linked [OF assms, of "ks_firewall s"]
    by (simp add: guarded_def with_firewall_def linked_tidy)
qed (simp_all add: disableKillSwitch_guarded [OF assms] resetAllowedRange_guarded [OF assms])

lemma strict_verdict:
  assumes "standard rd ons rules" "\<And>v6 d. rd v6 d \<longleftrightarrow> addr v6 d \<noteq> None"
  shows "anchors_verdict (match_packet (addr v6) p) (set_all_on strict_anchors ons v6) (rules v6) (map fst (anchors_of v6)) =
    Some (on_loopback p)"
proof -
  have b: "a \<notin> {''110.allowNets'', ''120.blockNets'', ''320.allowDNS''} \<Longrightarrow>
      first_match (match_packet (addr v6) p) (rules v6 a) = first_match (match_packet (addr v6) p) (the (map_of (anchors_of v6) a))" for a
    using assms(1) first_match_base [of rd v6 "addr v6" p a] assms(2) by (simp add: standard_def)
  show ?thesis
  proof (cases v6)
    case False
    have o: "set_all_on strict_anchors ons False a = (a \<in> {''000.allowLoopback'', ''100.blockAll''})"
      if "a \<in> set (map fst (anchors_of False))" for a
      using that by (auto simp: anchor_names strict_anchors_def set_all_on_def set_on_def)
    show ?thesis using False b by (simp add: anchor_names o anchors_v4)
  next
    case True
    have o: "set_all_on strict_anchors ons True ''000.allowLoopback''" "\<not> set_all_on strict_anchors ons True ''310.blockDNS''"
      "\<not> set_all_on strict_anchors ons True ''300.allowLAN''" "\<not> set_all_on strict_anchors ons True ''290.allowDHCP''"
      "set_all_on strict_anchors ons True ''250.blockIPv6''"
      using assms(1) by (simp_all add: standard_def strict_anchors_def set_all_on_def set_on_def)
    show ?thesis using True b by (simp add: anchor_names o anchors_v6)
  qed
qed

text \<open>Adding a range to the table of an enabled kill switch.\<close>

lemma range_table:
  "set_on IPv4 ''110.allowNets'' True (dns_on (nets_on params ons)) = dns_on (nets_on (params\<lparr>allowNets := True, allowAddrs := l\<rparr>) ons)"
  "set_rules ''110.allowNets'' (filter (readable_rule (rd False)) (map (\<lambda>t. ([Dst t], ACCEPT)) l)) (dns_table rd params (nets_rules rd params rules)) =
     dns_table rd (params\<lparr>allowNets := True, allowAddrs := l\<rparr>) (nets_rules rd (params\<lparr>allowNets := True, allowAddrs := l\<rparr>) rules)"
  by (simp_all add: dns_on_def nets_on_def set_all_on_def set_on_def dns_table_def nets_rules_def set_rules_def fun_eq_iff)

section \<open>Properties\<close>

text \<open>An instance: the chains themselves are the world, and a text stands for itself alone.\<close>

definition example_fw_env :: "(bool \<Rightarrow> fw_chains) fw_env" where
  "example_fw_env =
     \<lparr>run_command = (\<lambda>c w. case c of
          Iptables v6 FilterTable oper \<Rightarrow>
            (let (ok, m) = apply_op (\<lambda>d. True) oper (w v6) in (if ok then 0 else 1, w(v6 := m)))
        | _ \<Rightarrow> (0, w)),
      listed_targets = (\<lambda>v6 t c w. map (target_name \<circ> snd) (case w v6 c of None \<Rightarrow> [] | Some rs \<Rightarrow> rs)),
      cgroup_exists = (\<lambda>w. False)\<rparr>"

definition itself :: "bool \<Rightarrow> QString \<Rightarrow> QString set option" where
  "itself v6 d = Some {d}"

lemma example_iptables: "iptables_ok example_fw_env (reads itself) (\<lambda>w. w)"
proof -
  have "reads itself = (\<lambda>v6 d. True)" by (simp add: reads_def itself_def fun_eq_iff)
  then show ?thesis
    by (auto simp: iptables_ok_def example_fw_env_def case_prod_beta Let_def split: fw_command.split fw_table.split)
qed

definition example_service :: "(bool \<Rightarrow> fw_chains) KillSwitch" where
  "example_service =
     \<lparr>ks_settings = example_store, m_allowedRanges = [],
      ks_firewall = \<lparr>fw_world = (\<lambda>v6. [kOutputChain \<mapsto> []]), anchorCallbacks = []\<rparr>\<rparr>"

lemma example_reachable:
  "ks_reachable example_env example_fw_env (\<lambda>w. w) (snd (ks_init example_env example_fw_env example_store example_service))"
  by (rule ks_reachable.start) (use example_maps_ok in \<open>simp_all add: maps_ok_def app_ok_def example_settings_store example_service_def absent_def\<close>)

definition example_kill :: QJsonObject where
  "example_kill = [(''vpnServer'', JString ''203.0.113.9''), (''dns1'', JString ''1.1.1.1'')]"

definition example_packet :: "QString \<Rightarrow> QString fw_packet" where
  "example_packet d = \<lparr>p_iface = ''eth0'', p_dst = d, p_proto = ''tcp'', p_sport = 5000, p_dport = 443, p_mark = 0\<rparr>"

lemma example_params:
  "kill_params example_kill = Some \<lparr>dnsServers = [''1.1.1.1'', ''127.0.0.1'', ''127.0.0.53''], allowAddrs = [''203.0.113.9''],
     blockAddrs = [], blockAll = True, allowNets = True, blockNets = False\<rparr>"
  by code_simp

text \<open>
  C5: the kill switch decides as specified. Whatever the service did before, after a configuration
  was accepted a packet is let through or rejected as \<open>kill_verdict\<close> says: nothing but loopback,
  the tunnel, marked traffic, local networks and allowed networks passes if everything is to be
  blocked, resolvers are reached through the tunnel only, and IPv6 stays local.
\<close>

theorem kill_switch_verdict:
  assumes "iptables_ok env (reads addr) ch" "ks_reachable senv env ch s" "kill_params cfg = Some params" "4 \<le> n"
    and "kill_verdict params v6 (addr v6) True p = Some b"
  shows "fst (enableKillSwitch env cfg s) \<and>
    output_decision n (ch (fw_world (ks_firewall (snd (enableKillSwitch env cfg s)))) v6) (match_packet (addr v6) p) = Some b"
proof -
  have "tidy (reads addr) ch (ks_firewall s)" using reachable_guarded [OF assms(1,2)] by (simp add: guarded_def)
  from enable_shown [OF assms(1) this, of v6 params] obtain ons rules where t: "standard (reads addr) ons rules"
    "ons v6 ''130.allowMarkedXray''" "fw_shown ch (ks_firewall (snd (enableKillSwitch env cfg s))) (dns_on (nets_on params ons))
      (dns_table (reads addr) params (nets_rules (reads addr) params rules))"
    by (auto simp: enableKillSwitch_def assms(3) with_firewall_def)
  have "plain_anchors v6 (dns_table (reads addr) params (nets_rules (reads addr) params rules) v6)"
    using dns_standard [OF nets_standard [OF t(1)]] by (simp add: standard_def)
  then have "output_decision n (ch (fw_world (ks_firewall (snd (enableKillSwitch env cfg s)))) v6) (match_packet (addr v6) p) = Some b"
    using t configured_verdict [OF t(1), of addr v6 p params] assms(5)
    by (intro shown_decides [OF _ _ assms(4)]) (simp_all add: fw_shown_def reads_def)
  then show ?thesis by (simp add: enableKillSwitch_def assms(3))
qed

theorem kill_switch_verdict_witness:
  "output_decision 4 (fw_world (ks_firewall (snd (enableKillSwitch example_fw_env example_kill
      (snd (ks_init example_env example_fw_env example_store example_service))))) False)
    (match_packet (itself False) (example_packet ''198.51.100.1'')) = Some False"
proof -
  let ?p = "example_packet ''198.51.100.1''"
  have v: "kill_verdict \<lparr>dnsServers = [''1.1.1.1'', ''127.0.0.1'', ''127.0.0.53''], allowAddrs = [''203.0.113.9''],
     blockAddrs = [], blockAll = True, allowNets = True, blockNets = False\<rparr> False (itself False) True ?p = Some False"
    by code_simp
  show ?thesis using kill_switch_verdict [OF example_iptables example_reachable example_params _ v, of 4] by simp
qed

text \<open>
  C13: the strict kill switch blocks after a disconnection. Whatever the service did before, if the
  strict preference is set then after the kill switch was disabled every packet that does not go
  to the loopback interface is rejected.
\<close>

theorem strict_disconnect_blocks:
  assumes "iptables_ok env (reads addr) ch" "ks_reachable senv env ch s" "strict_pref (ks_settings s)" "4 \<le> n"
  shows "output_decision n (ch (fw_world (ks_firewall (snd (disableKillSwitch senv env s)))) v6) (match_packet (addr v6) p) =
    Some (on_loopback p)"
proof -
  have g: "plain_ok (ks_settings s)" "linked (reads addr) ch (ks_firewall s)"
    using reachable_guarded [OF assms(1,2)] assms(3) by (simp_all add: guarded_def)
  obtain ons rules where f: "fw_shown ch (ks_firewall s) ons rules" "standard (reads addr) ons rules"
    using g(2) unfolding linked_def by blast
  have k: "ks_firewall (snd (disableKillSwitch senv env s)) = set_anchors env strict_anchors (ks_firewall s)"
    using ks_isStrict_facts [OF g(1), of senv] assms(3)
    by (simp add: disableKillSwitch_def case_prod_beta Let_def with_firewall_def)
  show ?thesis
    unfolding k using set_anchors_standard(1) [OF assms(1) f plain_lists(1)] f(2) strict_verdict [OF f(2), of addr v6 p]
    by (intro shown_decides [OF _ _ assms(4)]) (simp_all add: fw_shown_def standard_def reads_def)
qed

theorem strict_disconnect_blocks_witness:
  "output_decision 4 (fw_world (ks_firewall (snd (disableKillSwitch example_env example_fw_env
      (snd (ks_refresh example_env example_fw_env True (snd (ks_init example_env example_fw_env example_store example_service))))))) False)
    (match_packet (itself False) (example_packet ''198.51.100.1'')) = Some False"
proof -
  let ?s = "snd (ks_init example_env example_fw_env example_store example_service)"
  let ?t = "snd (ks_refresh example_env example_fw_env True ?s)"
  have ok: "plain_ok (ks_settings ?s)"
    using reachable_guarded [OF example_iptables example_reachable] by (simp add: guarded_def)
  have "strict_pref (ks_settings ?t)"
  proof -
    let ?u = "?s\<lparr>ks_settings := setValue example_env ''Conf/strictKillSwitchEnabled'' (VBool True) (ks_settings ?s)\<rparr>"
    have "plain_ok (ks_settings ?u)" "strict_pref (ks_settings ?u)" using ok by (simp_all add: set_strict)
    with ks_isStrict_facts [of ?u example_env] show ?thesis
      by (simp add: ks_refresh_def case_prod_beta Let_def disableAllTraffic_def with_firewall_def)
  qed
  moreover have "\<not> on_loopback (example_packet ''198.51.100.1'')" by code_simp
  ultimately show ?thesis
    using strict_disconnect_blocks [OF example_iptables ks_reachable.refreshed [OF example_reachable], of True 4 False] by simp
qed

text \<open>
  C36: allowing another range forgets the networks of the configuration. After the kill switch was
  enabled, a range that is added is allowed together with the ranges added before, and these
  replace the server and the sites that the configuration had allowed.
\<close>

theorem added_range_replaces_networks:
  assumes "iptables_ok env (reads addr) ch" "ks_reachable senv env ch s" "kill_params cfg = Some params" "4 \<le> n"
    and "list_all isValidIpOrCidr ranges" "list_all isValidIpOrCidr (add_ranges ranges (m_allowedRanges s))"
    and "kill_verdict (params\<lparr>allowNets := True, allowAddrs := add_ranges ranges (m_allowedRanges s)\<rparr>) v6 (addr v6) True p = Some b"
  shows "output_decision n (ch (fw_world (ks_firewall (snd (addAllowedRange env ranges (snd (enableKillSwitch env cfg s)))))) v6)
    (match_packet (addr v6) p) = Some b"
proof -
  let ?l = "add_ranges ranges (m_allowedRanges s)" and ?s1 = "snd (enableKillSwitch env cfg s)"
  let ?params = "params\<lparr>allowNets := True, allowAddrs := ?l\<rparr>"
  have "tidy (reads addr) ch (ks_firewall s)" using reachable_guarded [OF assms(1,2)] by (simp add: guarded_def)
  from enable_shown [OF assms(1) this, of v6 params] obtain ons rules where t: "standard (reads addr) ons rules"
    "ons v6 ''130.allowMarkedXray''" "fw_shown ch (ks_firewall ?s1) (dns_on (nets_on params ons))
      (dns_table (reads addr) params (nets_rules (reads addr) params rules))"
    by (auto simp: enableKillSwitch_def assms(3) with_firewall_def)
  have r: "m_allowedRanges ?s1 = m_allowedRanges s" by (simp add: enableKillSwitch_def assms(3) with_firewall_def)
  have h: "has_anchor IPv4 ''110.allowNets''" by (simp add: has_anchors anchor_names)
  have f: "fw_shown ch (ks_firewall (snd (addAllowedRange env ranges ?s1))) (dns_on (nets_on ?params ons))
      (dns_table (reads addr) ?params (nets_rules (reads addr) ?params rules))"
    using updates_shown(1) [OF assms(1) setAnchorEnabled_shown [OF assms(1) t(3) h, of True], of ?l]
    by (simp add: addAllowedRange_def Let_def resetAllowedRange_def with_firewall_def assms(5,6) r range_table(1) [where l = ?l] range_table(2))
  have "plain_anchors v6 (dns_table (reads addr) ?params (nets_rules (reads addr) ?params rules) v6)"
    using dns_standard [OF nets_standard [OF t(1)]] by (simp add: standard_def)
  then show ?thesis
    using f configured_verdict [OF t(1), of addr v6 p ?params] assms(7) t(2)
    by (intro shown_decides [OF _ _ assms(4)]) (simp_all add: fw_shown_def reads_def)
qed

theorem added_range_replaces_networks_witness:
  "output_decision 4 (fw_world (ks_firewall (snd (addAllowedRange example_fw_env [''198.51.100.7'']
      (snd (enableKillSwitch example_fw_env example_kill
        (snd (ks_init example_env example_fw_env example_store example_service))))))) False)
    (match_packet (itself False) (example_packet ''203.0.113.9'')) = Some False"
proof -
  let ?s = "snd (ks_init example_env example_fw_env example_store example_service)"
  let ?params = "\<lparr>dnsServers = [''1.1.1.1'', ''127.0.0.1'', ''127.0.0.53''], allowAddrs = [''203.0.113.9''],
     blockAddrs = [], blockAll = True, allowNets = True, blockNets = False\<rparr>"
  have ok: "plain_ok example_store" using example_maps_ok by (simp add: maps_ok_def app_ok_def example_settings_store)
  have "m_allowedRanges (snd (ks_init example_env example_fw_env example_store example_service)) = []"
    using ks_isStrict_facts(5) [of "example_service\<lparr>ks_settings := example_store\<rparr>" example_env] ok
    by (simp add: ks_init_def case_prod_beta disableAllTraffic_def example_service_def)
  then have a: "add_ranges [''198.51.100.7''] (m_allowedRanges ?s) = [''198.51.100.7'']" by simp
  have v: "list_all isValidIpOrCidr [''198.51.100.7'']" by code_simp
  have w: "kill_verdict (?params\<lparr>allowNets := True, allowAddrs := add_ranges [''198.51.100.7''] (m_allowedRanges ?s)\<rparr>) False
      (itself False) True (example_packet ''203.0.113.9'') = Some False"
    unfolding a by code_simp
  have v2: "list_all isValidIpOrCidr (add_ranges [''198.51.100.7''] (m_allowedRanges ?s))" unfolding a by (rule v)
  show ?thesis by (rule added_range_replaces_networks [OF example_iptables example_reachable example_params order_refl v v2 w])
qed

end
