(* ===== verification/Tunnel_Firewall.thy ===== *)
theory Tunnel_Firewall
  imports Vpn_Configuration Kill_Switch_Facts
begin

text \<open>
  From the preferences of the user to the packets that leave the machine: the configuration of
  \<open>Vpn_Configuration\<close>, sent to the daemon or to the kill switch of the service, and the decisions of
  the firewall that they set.
\<close>

section \<open>WireGuard tunnels\<close>

text \<open>The route of everything is read like the range that the client sends for it.\<close>

definition reads_default :: "('w, 'e) socket_env_scheme \<Rightarrow> bool" where
  "reads_default env = (IPAddress_of env ''0.0.0.0/0'' = \<lparr>m_address = parseHost env ''0.0.0.0'', m_prefixLength = 0\<rparr>)"

text \<open>A packet that leaves outside the tunnel for an address that nothing exempts.\<close>

definition stray :: "(QString \<Rightarrow> 'a set option) \<Rightarrow> QString list \<Rightarrow> 'a fw_packet \<Rightarrow> bool" where
  "stray addr nets p =
     (\<not> on_loopback p \<and> \<not> on_vpn p \<and> p_mark p \<noteq> 0x82 \<and> \<not> to_lan False addr p \<and> \<not> is_dhcp False addr p \<and>
      \<not> list_ex (reaches addr p) nets)"

lemma stray_verdict:
  "stray addr (allowAddrs params) p \<Longrightarrow> blockAll params \<Longrightarrow> kill_verdict params False addr xray p = Some False"
  by (simp add: stray_def kill_verdict_def)

lemma applied_decision:
  assumes "iptables_ok fenv (reads addr) ch" "tidy (reads addr) ch f" "4 \<le> n"
    and "stray (addr False) (allowAddrs params) p" "blockAll params"
  shows "output_decision n (ch (fw_world (applyFirewallRules fenv params f)) False) (match_packet (addr False) p) = Some False"
proof -
  obtain ons rules where f: "fw_shown ch (ensure_installed fenv f) ons rules" "standard (reads addr) ons rules"
    using ensure_installed_linked [OF assms(1,2)] unfolding linked_def by blast
  show ?thesis
    unfolding applyFirewallRules_def
    by (rule configured_decision [OF assms(1) priority_shown [OF assms(1) f(1)] f(2) assms(3)])
      (rule stray_verdict [OF assms(4,5)])
qed

lemma routed_params:
  assumes "routed env cfg r config" "reads_default env" "\<And>xs. set (std_sort env xs) = set xs"
    and "active_sites (parseHost env) r = [] \<or> stored_mode r \<noteq> VpnOnlyForwardSites"
  shows "blockAll (tunnel_params env config)"
    "allowAddrs (tunnel_params env config) = json_toString (obj_value (wg_config_data cfg) ''hostName'') #
       (if stored_mode r = VpnAllExceptSites then active_sites (parseHost env) r else [])"
    "m_killSwitchEnabled config = kill_pref r"
proof -
  have "IPAddress_of env ''0.0.0.0/0'' \<in> set (m_allowedIPAddressRanges config)"
    using assms by (auto simp: routed_def Let_def reads_default_def)
  then show "blockAll (tunnel_params env config)"
    "allowAddrs (tunnel_params env config) = json_toString (obj_value (wg_config_data cfg) ''hostName'') #
       (if stored_mode r = VpnAllExceptSites then active_sites (parseHost env) r else [])"
    "m_killSwitchEnabled config = kill_pref r"
    using assms(1) by (simp_all add: tunnel_params_def Let_def routed_def)
qed

section \<open>The kill switch of the other protocols\<close>

lemma plain_configuration:
  fixes senv parse cfg r defines "raw \<equiv> fst (vpn_configuration senv parse cfg r)"
  assumes "app_ok r" "json_toString (obj_value cfg ''protocol'') \<notin> {''awg'', ''wireguard''}"
  shows "obj_value raw ''splitTunnelType'' = JDouble (of_int (routeMode_int (fst (chosen parse cfg r))))"
    "obj_value raw ''splitTunnelSites'' = JArray (map JString (snd (chosen parse cfg r)))"
proof -
  note kf = killSwitch_config [OF assms(2), of senv cfg]
  let ?c1 = "fst (appendKillSwitchConfig senv cfg r)" and ?r1 = "snd (appendKillSwitchConfig senv cfg r)"
  note p = same_prefsD [OF kf(2)]
  have n: "native_config ?c1 = (True, ?c1)" using assms(3) by (simp add: native_config_def Let_def kf(1))
  have ch: "chosen parse ?c1 ?r1 = chosen parse cfg r" by (simp add: chosen_def active_sites_def p kf(1) Let_def)
  show "obj_value raw ''splitTunnelType'' = JDouble (of_int (routeMode_int (fst (chosen parse cfg r))))"
    "obj_value raw ''splitTunnelSites'' = JArray (map JString (snd (chosen parse cfg r)))"
    using site_split_chosen [OF p(1), of senv parse ?c1]
    by (simp_all add: raw_def vpn_configuration_def appendSplitTunnelingConfig_def case_prod_beta Let_def n ch)
qed

section \<open>Properties\<close>



text \<open>
  C37: forwarding only the sites without a second resolver disarms the kill switch of the service.
  The configuration of a protocol other than WireGuard then names the empty text among the sites,
  so the kill switch refuses it and leaves the firewall as it was.
\<close>

theorem missing_resolver_disarms:
  assumes "app_ok r" "json_toString (obj_value cfg ''protocol'') \<notin> {''awg'', ''wireguard''}"
    and "stored_mode r = VpnOnlyForwardSites" "active_sites parse r \<noteq> []" "json_toString (obj_value cfg ''dns2'') = ''''"
  shows "enableKillSwitch env (obj_insert ''vpnServer'' v (fst (vpn_configuration senv parse cfg r))) s = (False, s)"
proof -
  have c: "chosen parse cfg r = (VpnOnlyForwardSites, active_sites parse r @ [json_toString (obj_value cfg ''dns1''), ''''])"
    using assms(3-5) by (simp add: chosen_def Let_def)
  have "\<not> isValidIpOrCidr ''''" by code_simp
  then have "kill_params (obj_insert ''vpnServer'' v (fst (vpn_configuration senv parse cfg r))) = None"
    by (simp add: kill_params_def Let_def plain_configuration [OF assms(1,2)] c cast_int)
  then show ?thesis by (simp add: enableKillSwitch_def)
qed

definition forward_settings :: AppSettings where
  "forward_settings = \<lparr>app_store = example_store\<lparr>m_settings :=
     [(''Conf/routeMode'', VInt 1), (''Conf/sitesSplitTunnelingEnabled'', VBool True),
      (''Conf/ForwardSites'', VMap [(''198.51.100.1'', VStringList [])])]\<rparr>,
     m_gatewayEndpoint = '''', app_signals = []\<rparr>"

definition example_host :: "QString \<Rightarrow> QHostAddress" where
  "example_host t = HostV4 0"

theorem missing_resolver_disarms_witness:
  "enableKillSwitch example_fw_env (obj_insert ''vpnServer'' (JString ''203.0.113.9'')
      (fst (vpn_configuration example_env example_host [(''protocol'', JString ''openvpn'')] forward_settings)))
    example_service = (False, example_service)"
proof -
  have ok: "app_ok forward_settings"
    by (simp add: app_ok_def plain_ok_def forward_settings_def example_store_def)
  have m: "stored_mode forward_settings = VpnOnlyForwardSites"
    by (simp add: stored_mode_def pref_def plain_value_def forward_settings_def example_store_def routeMode_of_int_def)
  have "site_texts example_host [(''198.51.100.1'', VStringList [])] = [''198.51.100.1'']" by code_simp
  then have s: "active_sites example_host forward_settings \<noteq> []"
    unfolding active_sites_def m
    by (simp add: split_pref_def sites_of_def routeMode_key_def pref_def plain_value_def
        forward_settings_def example_store_def)
  show ?thesis by (rule missing_resolver_disarms [OF ok _ m s]) code_simp+
qed

end
