(* ===== verification/Spec2Isabelle.thy ===== *)
theory Spec2Isabelle
  imports Ip_Address Servers_Repository Installer_Control_Facts Installer_Component
    Update_Facts Daemon_Facts Tunnel_Firewall
begin

text \<open>
  TunnelCore VPN is a desktop and mobile VPN client with a privileged service. This
  development models the parts of it that decide something on their own and proves that they
  do so correctly: the two scripts of the installer, the update controller, the encrypted
  settings store, the repository of servers on top of it with the configurations it
  classifies, the preferences and the controllers that edit the lists among them, the
  configuration that a connection is started with, the arithmetic of IP ranges that the tunnels
  are built from, the privileged daemon that brings tunnels up and down, both ends of the
  socket that connects the client with the daemon, and the kill switch of the service with the
  firewall of Linux.

  \<^bold>\<open>Parts, theories and sources.\<close> Paths are below \<^verbatim>\<open>src/\<close>.

  \<^item> \<open>Prelude\<close>: rule collections, lemmas on words and lists. \<open>Qt_Values\<close>: strings, numbers,
    JSON and variants of Qt, as far as the sources use them.
  \<^item> \<open>Installer_Framework\<close>: JavaScript strings and numbers, and the objects that the Qt
    Installer Framework offers to a script. The framework itself, the file system, started
    programs, the clock and the answers of the user are the record \<open>qif\<close> over an abstract
    world; the calls a script makes are recorded in order.
  \<^item> \<open>Installer_Control\<close> is \<^verbatim>\<open>deploy/installer/qif/controlscript.js\<close>, one definition per function,
    with the branches of the constructor as definitions of their own;
    \<open>Installer_Control_Facts\<close> holds the lemmas. \<open>Installer_Component\<close> is
    \<^verbatim>\<open>deploy/installer/qif/componentscript.js\<close>.
  \<^item> \<open>Update_Controller\<close> is \<^verbatim>\<open>client/core/controllers/updateController.cpp\<close>: the members are a record,
    every slot and every handler of a network reply is a function, and the preprocessor
    conditions are a parameter. \<open>Update_Facts\<close> has the step relation and the lemmas.
  \<^item> \<open>Settings_Store\<close> is \<^verbatim>\<open>client/secureQSettings.cpp\<close>: the settings file, its cache, the key chain
    and the encryption of protected values.
  \<^item> \<open>Server_Config\<close> is the classification of a stored configuration
    (\<^verbatim>\<open>client/core/utils/serverConfigUtils.cpp\<close>) and the five classes of
    \<^verbatim>\<open>client/core/models\<close> it distinguishes, each with its reading from JSON.
  \<^item> \<open>Servers_Repository\<close> is \<^verbatim>\<open>client/core/repositories/secureServersRepository.cpp\<close>; it calls the
    settings store and the classification.
  \<^item> \<open>Ip_Address\<close> is \<^verbatim>\<open>client/mozilla/shared/ipaddress.cpp\<close>.
  \<^item> \<open>Interface_Config\<close> is the configuration of a tunnel: \<^verbatim>\<open>client/daemon/interfaceconfig.cpp\<close> and the
    parser of requests in \<^verbatim>\<open>client/daemon/daemon.cpp\<close>. \<open>Daemon\<close> is the rest of that file: activation,
    switching, deactivation, counted exclusion routes and the poll for handshakes. The calls
    to the WireGuard, DNS and IP utilities of a platform are recorded with their results, which
    the function \<open>platform\<close> of the environment gives. \<open>Daemon_Routes\<close> has the interface of a
    table of counted requests, the locale \<open>counted_requests\<close>, and its interpretation on the
    exclusion routes; \<open>Daemon_Facts\<close> has the reachable states and the lemmas.
  \<^item> \<open>Daemon_Connection\<close> is \<^verbatim>\<open>client/daemon/daemonlocalserverconnection.cpp\<close>, the daemon's end of the
    socket; \<open>Local_Socket\<close> is \<^verbatim>\<open>client/mozilla/localsocketcontroller.cpp\<close>, the client's end, and
    \<open>Local_Socket_Facts\<close> composes the two.
  \<^item> \<open>App_Settings\<close> is \<^verbatim>\<open>client/core/repositories/secureAppSettingsRepository.cpp\<close>, the preferences.
    They are plain values of the settings store, whose interface is the locale \<open>plain_store\<close>,
    interpreted on the store. \<open>Split_Tunneling\<close> is \<^verbatim>\<open>ipSplitTunnelingController.cpp\<close>,
    \<^verbatim>\<open>allowedDnsController.cpp\<close> and \<^verbatim>\<open>appSplitTunnelingController.cpp\<close> of \<^verbatim>\<open>client/core/controllers\<close>,
    with the lemmas on sites; \<open>Preference_Lists\<close> has the lemmas on the other two, which share the
    locale \<open>stored_list\<close>. \<open>Vpn_Configuration\<close> is \<open>appendKillSwitchConfig\<close> and
    \<open>appendSplitTunnelingConfig\<close> of \<^verbatim>\<open>client/vpnConnection.cpp\<close>, and composes the preferences, the
    request and the daemon.
  \<^item> \<open>Linux_Firewall\<close> is \<^verbatim>\<open>client/platforms/linux/daemon/linuxfirewall.cpp\<close>: chains, anchors and the
    scripts around iptables, which is the parameter \<open>run_command\<close>, one invocation at a time.
    \<open>Packet_Filter\<close> has what the manual says of iptables, as the hypothesis \<open>iptables_ok\<close>, the
    decision of a set of chains on a packet, and the table of anchors that chains show.
    \<open>Kill_Switch\<close> is the build for Linux of \<^verbatim>\<open>service/server/killswitch.cpp\<close> and \<open>applyFirewallRules\<close> of
    \<^verbatim>\<open>client/platforms/linux/daemon/wireguardutilslinux.cpp\<close>; \<open>Kill_Switch_Facts\<close> has its reachable
    states and the specification \<open>kill_verdict\<close>, and \<open>Tunnel_Firewall\<close> composes it with the
    preferences and the daemon.

  \<^bold>\<open>What is shown.\<close>

  \<^item> Installer: no uninstaller runs without the consent of the user, and none at all beside an
    installation of the legacy generation; the question loop ends exactly when the user or
    the application ends it, and the whole constructor returns; a failed removal cancels the
    installer, with one exception that is proved; the page callbacks never press more than
    they may; the operations of the component can be undone, and the application is started
    without administrator rights.
  \<^item> Updates: whatever the order of checks, replies and downloads, only a file with the
    announced digest and size is started; a complete download becomes ready; a check has
    exactly one outcome; only trusted pages are opened. The guard against a second download
    is shown not to hold across a check.
  \<^item> Settings and servers: protected values are never written in plain text; values and the
    list of servers survive a restart after any sequence of operations; ids, objects and the
    default server stay consistent; each operation does what it should on every branch,
    rejected ones included.
  \<^item> Addresses: membership, overlap and inclusion are those of sets of addresses; excluding
    ranges yields disjoint ranges that cover exactly the difference, and the loop ends on
    canonical ranges. A range with host bits is shown to make it spin.
  \<^item> Daemon: in every reachable state the exclusion routes of the system are those of the
    connected tunnels, counted as often as they are named; an activation reports truthfully, and
    a failed one takes back its exclusions; a poll dates exactly the tunnels whose peer has
    shaken hands. With an excluded subnet, switching the server is shown to leak its route.
  \<^item> Socket: requests are framed by their line breaks however the bytes arrive; only checked
    requests change the daemon; the request of the client is accepted and the daemon activates
    the tunnel it describes; the status of the daemon is understood by the client; the first
    connection is attempted a fixed number of times. A line break in a resolver is shown to
    add a line to the WireGuard file, and a pending handshake to hide that the client is ready.
  \<^item> Preferences: in every reachable state of the three controllers the lists shown are the lists
    stored; an exported list of sites can be imported; the tunnel that the daemon activates has
    the kill switch, resolvers, exclusions and ranges that the preferences ask for. A name that
    is resolved too late is shown to bring a removed site back.
  \<^item> Firewall: after any sequence of requests to the kill switch, an accepted configuration lets
    through and rejects the packets that \<open>kill_verdict\<close> names; with the strict preference nothing
    but loopback passes after a disconnection; with the kill switch of the preferences no packet
    leaves outside a WireGuard tunnel unless it is exempt. Adding a range is shown to
    replace the networks of the configuration, and forwarding only sites without a second
    resolver to make the kill switch refuse the configuration.

  \<^bold>\<open>Loops and bounds.\<close> \<open>sleep_loop\<close>, \<open>isDesktopAppProcessRunningMessageLoop\<close> and
  \<open>exclude_loop\<close> may run for ever and are partial functions into an option; that they return
  is proved under named conditions on the clock, the user and the ranges. The 300 waits for
  the removal and the 400 polls of an updater are the bounds of the script itself and are
  structural recursion. An activation calls itself after a deactivation, which ends because
  no tunnel is left then; the readers of the socket end because the buffer or the list of
  blocks gets shorter. The decision on a packet follows jumps to a given depth; the chains of the
  client are three jumps deep, so the properties hold for every depth from four on. Everything
  else is total, and no model of a function of the program uses fuel.

  \<^bold>\<open>Parameters.\<close> Code outside the repository is an argument: Qt's parsers and codecs,
  OpenSSL, the key chain, the network and file results, SHA-256, UUIDs. What is relied on is
  a hypothesis with a name (\<open>commit_atomic\<close>, \<open>coding_ok\<close>, \<open>disk_ready\<close>, \<open>codec_ok\<close>;
  for the daemon \<open>deletes_succeed\<close> and \<open>peers_deleted\<close>, that routes and peers can be deleted,
  \<open>order_ok\<close> and \<open>sorts_ranges\<close>, that hashes and \<open>std::sort\<close> permute, and for the socket
  \<open>message_ok\<close>, that a JSON object printed on a line reads back, and \<open>atoi_int\<close>; for the preferences
  \<open>app_ok\<close> and \<open>maps_ok\<close>, that no plain value of the file looks encrypted and that maps of Qt
  are sorted; for the firewall \<open>iptables_ok\<close>, and \<open>reads_default\<close>, that the text of the range of all
  addresses is read as such), and each property that has one is applied to a concrete instance.

  \<^bold>\<open>Not modelled.\<close> Strings are Latin-1; IPv6 scope identifiers, log output and translated
  message texts are left out. The installer file of an update is assumed not to be changed by
  another program between its verification and its start. Of the daemon, the overrides in the
  subclasses of the platforms and the opening of the socket are left out; log requests are
  answered as the base class does. Of the preferences, the language and the date of the log, which
  are locales and dates, and of the connection its states and the choice of a protocol. The
  account and connection controllers are sequences of requests to a service and to the other
  controllers; the JSON conversions of the single protocols and the share link formats are
  not covered, and the configurations keep a container as a JSON value. Of the kill switch and the firewall, the
  builds for Windows and macOS are left out, and so is the effect of the rules of the raw, nat and
  mangle tables on packets; of the WireGuard utilities of Linux, all but the firewall. The user
  interface, other platform code, SSH installers, the service apart from the kill switch and its
  routing tables consist of calls to interfaces outside the repository; translations are data.
\<close>

end
